(* ===== verification/Prelude.thy ===== *)
theory Prelude
  imports Complex_Main "HOL-Library.Multiset" "HOL-Library.List_Lexorder" "HOL-Library.Char_ord"
begin

text \<open>
  Shared vocabulary of the storefront scripts under \<open>src/static/js\<close>. The scripts are
  browser JavaScript: strings are modelled as \<open>string\<close> (byte lists, ASCII assumed where
  the code applies case mapping or whitespace tests), JavaScript numbers as \<open>real\<close> where
  fractions occur and as \<open>int\<close> where the code produces them with \<open>parseInt\<close>.
  A \<open>NaN\<close> result is \<open>None\<close> of an option type; the falsy tests the code applies
  (\<open>x || d\<close>, \<open>if (x)\<close>) are written out by \<open>js_or\<close> and \<open>js_truthy_str\<close>.
  The collection \<open>js_char_simps\<close> holds the character-class equations that the
  evaluation of concrete strings needs.
\<close>

named_theorems js_char_simps "character-class equations used to evaluate concrete strings"

type_synonym js_number = real

section \<open>Character classes\<close>

definition is_digit :: "char \<Rightarrow> bool" where
  "is_digit c \<longleftrightarrow> CHR ''0'' \<le> c \<and> c \<le> CHR ''9''"

definition digit_val :: "char \<Rightarrow> nat" where
  "digit_val c = of_char c - 48"

definition is_upper :: "char \<Rightarrow> bool" where
  "is_upper c \<longleftrightarrow> CHR ''A'' \<le> c \<and> c \<le> CHR ''Z''"

definition is_lower :: "char \<Rightarrow> bool" where
  "is_lower c \<longleftrightarrow> CHR ''a'' \<le> c \<and> c \<le> CHR ''z''"

text \<open>\<open>\w\<close> of a regular expression: letters, digits and underscore.\<close>

definition is_word_char :: "char \<Rightarrow> bool" where
  "is_word_char c \<longleftrightarrow> is_digit c \<or> is_upper c \<or> is_lower c \<or> c = CHR ''_''"

text \<open>The ASCII part of ECMAScript's WhiteSpace and LineTerminator: tab, line feed,
  vertical tab, form feed, carriage return and space.\<close>

definition is_js_space :: "char \<Rightarrow> bool" where
  "is_js_space c \<longleftrightarrow> c = CHR '' '' \<or> ((9::nat) \<le> of_char c \<and> (of_char c :: nat) \<le> 13)"

definition lower_char :: "char \<Rightarrow> char" where
  "lower_char c = (if is_upper c then char_of (of_char c + (32::nat)) else c)"

definition upper_char :: "char \<Rightarrow> char" where
  "upper_char c = (if is_lower c then char_of (of_char c - (32::nat)) else c)"

section \<open>String operations of the scripts\<close>

text \<open>\<open>String.prototype.toLowerCase\<close>, \<open>toUpperCase\<close> and \<open>trim\<close> on ASCII text.\<close>

definition js_to_lower :: "string \<Rightarrow> string" where
  "js_to_lower s = map lower_char s"

definition js_to_upper :: "string \<Rightarrow> string" where
  "js_to_upper s = map upper_char s"

definition js_trim :: "string \<Rightarrow> string" where
  "js_trim s = rev (dropWhile is_js_space (rev (dropWhile is_js_space s)))"

text \<open>\<open>s.replace(/\D/g, '')\<close>: keep the decimal digits only.\<close>

definition digits_only :: "string \<Rightarrow> string" where
  "digits_only s = filter is_digit s"

text \<open>Truthiness of a string: only the empty string is falsy.\<close>

definition js_truthy_str :: "string \<Rightarrow> bool" where
  "js_truthy_str s \<longleftrightarrow> s \<noteq> []"

text \<open>\<open>x || d\<close> for a number produced by \<open>parseInt\<close> or \<open>parseFloat\<close>: \<open>NaN\<close>
  (\<open>None\<close>) and zero are falsy and give \<open>d\<close>.\<close>

definition js_or :: "'a::zero option \<Rightarrow> 'a \<Rightarrow> 'a" where
  "js_or x d = (case x of None \<Rightarrow> d | Some v \<Rightarrow> if v = 0 then d else v)"

text \<open>\<open>s.replace(pat, '')\<close> with a string pattern: the first occurrence is removed.\<close>

fun js_remove_first :: "string \<Rightarrow> string \<Rightarrow> string" where
  "js_remove_first pat [] = []"
| "js_remove_first pat (c # cs) =
     (if take (length pat) (c # cs) = pat then drop (length pat) (c # cs)
      else c # js_remove_first pat cs)"

text \<open>\<open>a.join(sep)\<close> of an array of strings.\<close>

fun js_join :: "string \<Rightarrow> string list \<Rightarrow> string" where
  "js_join sep [] = []"
| "js_join sep [x] = x"
| "js_join sep (x # xs) = x @ sep @ js_join sep xs"

section \<open>JSON values\<close>

text \<open>Values produced by \<open>JSON.parse\<close> and consumed by \<open>JSON.stringify\<close>: what the
  scripts keep in \<open>localStorage\<close>. Property access on an object takes the last
  binding of a key, as \<open>JSON.parse\<close> does with duplicate keys.\<close>

datatype json = JNull | JBool bool | JNum real | JStr string | JArr "json list"
  | JObj "(string \<times> json) list"

text \<open>The kinds of toast notification the scripts show (\<open>success\<close>, \<open>error\<close>,
  \<open>warning\<close>, \<open>info\<close>).\<close>

datatype toast_kind = Success | Error | Warning | Info

definition json_truthy :: "json \<Rightarrow> bool" where
  "json_truthy v = (case v of JNull \<Rightarrow> False | JBool b \<Rightarrow> b | JNum n \<Rightarrow> n \<noteq> 0
     | JStr s \<Rightarrow> s \<noteq> [] | JArr _ \<Rightarrow> True | JObj _ \<Rightarrow> True)"

text \<open>\<open>v.k\<close> for a parsed value: \<open>None\<close> is \<open>undefined\<close>; reading a property of
  \<open>null\<close> throws, which the callers handle before calling this.\<close>

definition json_get :: "json \<Rightarrow> string \<Rightarrow> json option" where
  "json_get v k = (case v of JObj kvs \<Rightarrow> map_of (rev kvs) k | _ \<Rightarrow> None)"

section \<open>Generic lemmas\<close>

lemma bit_Suc_0_0: "bit (Suc 0) (0::nat)"
  by (simp add: bit_0)

lemmas [js_char_simps] = char_of_def bit_Suc bit_Suc_0_0 is_digit_def digit_val_def is_upper_def
  is_lower_def is_word_char_def is_js_space_def lower_char_def upper_char_def

lemma json_truthy_simps [simp]:
  "\<not> json_truthy JNull" "json_truthy (JBool b) = b" "json_truthy (JNum n) = (n \<noteq> 0)"
  "json_truthy (JStr s) = (s \<noteq> [])" "json_truthy (JArr vs)" "json_truthy (JObj kvs)"
  by (simp_all add: json_truthy_def)

lemma json_get_JObj [simp]: "json_get (JObj kvs) k = map_of (rev kvs) k"
  by (simp add: json_get_def)

lemma js_or_None [simp]: "js_or None d = d"
  by (simp add: js_or_def)

lemma js_or_Some [simp]: "js_or (Some v) d = (if v = 0 then d else v)"
  by (simp add: js_or_def)

lemma js_or_cases: "js_or x d = d \<or> (\<exists>v. x = Some v \<and> v \<noteq> 0 \<and> js_or x d = v)"
  by (cases x) auto

lemma filter_image_member_map:
  assumes "distinct (map g xs)"
  shows "filter (\<lambda>e. e \<in> g ` {x \<in> set xs. P x}) (map g xs) = map g (filter P xs)"
proof -
  from assms have "inj_on g (set xs)" by (simp add: distinct_map)
  then have "filter (\<lambda>x. g x \<in> g ` {x \<in> set xs. P x}) xs = filter P xs"
    by (intro filter_cong) (auto simp: inj_on_def)
  then show ?thesis by (simp add: filter_map comp_def)
qed

lemma digits_only_idem [simp]: "digits_only (digits_only s) = digits_only s"
  by (simp add: digits_only_def)

lemma digits_only_all_digits: "\<forall>c \<in> set (digits_only s). is_digit c"
  by (simp add: digits_only_def)

lemma digits_only_append [simp]: "digits_only (s @ t) = digits_only s @ digits_only t"
  by (simp add: digits_only_def)

lemma digits_only_id: "\<forall>c \<in> set s. is_digit c \<Longrightarrow> digits_only s = s"
  by (simp add: digits_only_def)

lemma lower_char_idem [simp]: "lower_char (lower_char c) = lower_char c"
proof (cases "is_upper c")
  case True
  then have "of_char c + (32::nat) < 256" and "\<not> is_upper (char_of (of_char c + (32::nat)))"
    by (auto simp: is_upper_def less_eq_char_def)
  with True show ?thesis by (simp add: lower_char_def)
next
  case False
  then show ?thesis by (simp add: lower_char_def)
qed

lemma js_to_lower_idem [simp]: "js_to_lower (js_to_lower s) = js_to_lower s"
  by (simp add: js_to_lower_def comp_def)

lemma length_js_to_lower [simp]: "length (js_to_lower s) = length s"
  by (simp add: js_to_lower_def)

end
