(* ===== verification/JS_Coerce.thy ===== *)
theory JS_Coerce
  imports Prelude
begin

text \<open>
  The numeric coercions the scripts apply to DOM strings: \<open>parseInt\<close> without a radix,
  \<open>parseFloat\<close>, the decimal rendering of an integer (what the code obtains when it
  assigns a number to an input's \<open>value\<close> or calls \<open>toString\<close>), and the
  thousands-separator regular expression of \<open>formatNumber\<close>
  (\<open>shop/product-list.js\<close>, \<open>main.js\<close>). These are ECMAScript built-ins, not code of
  the repository; they are modelled from the language definition, restricted to ASCII
  input. The round trip \<open>parse_int (show_int n) = Some n\<close> is what makes the code's
  habit of writing numbers into inputs and reading them back with \<open>parseInt\<close> safe.
\<close>

section \<open>parseInt\<close>

text \<open>The value of a character as a digit of radix \<open>r\<close> (10 or 16).\<close>

definition radix_digit :: "nat \<Rightarrow> char \<Rightarrow> nat option" where
  "radix_digit r c =
     (if is_digit c then (if digit_val c < r then Some (digit_val c) else None)
      else if r = 16 \<and> CHR ''a'' \<le> c \<and> c \<le> CHR ''f'' then Some (of_char c - 87)
      else if r = 16 \<and> CHR ''A'' \<le> c \<and> c \<le> CHR ''F'' then Some (of_char c - 55)
      else None)"

text \<open>The longest prefix of radix-\<open>r\<close> digits, as digit values.\<close>

fun take_digits :: "nat \<Rightarrow> string \<Rightarrow> nat list" where
  "take_digits r [] = []"
| "take_digits r (c # cs) =
     (case radix_digit r c of None \<Rightarrow> [] | Some d \<Rightarrow> d # take_digits r cs)"

definition digits_to_nat :: "nat \<Rightarrow> nat list \<Rightarrow> nat" where
  "digits_to_nat r ds = foldl (\<lambda>a d. r * a + d) 0 ds"

text \<open>An optional sign: \<open>-\<close> gives \<open>-1\<close>, \<open>+\<close> or nothing gives \<open>1\<close>.\<close>

definition strip_sign :: "string \<Rightarrow> int \<times> string" where
  "strip_sign t =
     (if t \<noteq> [] \<and> hd t = CHR ''-'' then (-1, tl t)
      else if t \<noteq> [] \<and> hd t = CHR ''+'' then (1, tl t)
      else (1, t))"

text \<open>A \<open>0x\<close> or \<open>0X\<close> prefix selects radix 16.\<close>

definition strip_radix :: "string \<Rightarrow> nat \<times> string" where
  "strip_radix u =
     (if length u \<ge> 2 \<and> u ! 0 = CHR ''0'' \<and> (u ! 1 = CHR ''x'' \<or> u ! 1 = CHR ''X'')
      then (16, drop 2 u) else (10, u))"

text \<open>\<open>parseInt(s)\<close>: leading white space skipped, sign, radix prefix, then the longest
  digit prefix; no digit at all is \<open>NaN\<close> (\<open>None\<close>).\<close>

definition parse_int :: "string \<Rightarrow> int option" where
  "parse_int s =
     (let (sg, u) = strip_sign (dropWhile is_js_space s);
          (r, v) = strip_radix u;
          ds = take_digits r v
      in if ds = [] then None else Some (sg * int (digits_to_nat r ds)))"

section \<open>Decimal rendering of integers\<close>

fun show_nat :: "nat \<Rightarrow> string" where
  "show_nat n =
     (if n < 10 then [char_of (48 + n)]
      else show_nat (n div 10) @ [char_of (48 + n mod 10)])"

declare show_nat.simps [simp del]

definition show_int :: "int \<Rightarrow> string" where
  "show_int i = (if i < 0 then CHR ''-'' # show_nat (nat (- i)) else show_nat (nat i))"

section \<open>parseFloat\<close>

definition pow10 :: "int \<Rightarrow> real" where
  "pow10 e = (if 0 \<le> e then 10 ^ nat e else 1 / 10 ^ nat (- e))"

text \<open>An exponent part \<open>e[+-]digits\<close>; anything else contributes exponent 0.\<close>

definition exponent_part :: "string \<Rightarrow> int" where
  "exponent_part r =
     (if r \<noteq> [] \<and> (hd r = CHR ''e'' \<or> hd r = CHR ''E'')
      then (let (sg, w) = strip_sign (tl r); ds = takeWhile is_digit w
            in if ds = [] then 0 else sg * int (digits_to_nat 10 (map digit_val ds)))
      else 0)"

text \<open>\<open>parseFloat(s)\<close>: the longest prefix that is a decimal literal. The literal
  \<open>Infinity\<close> is not modelled (it yields \<open>None\<close> here).\<close>

definition parse_float :: "string \<Rightarrow> real option" where
  "parse_float s =
     (let (sg, u) = strip_sign (dropWhile is_js_space s);
          ip = takeWhile is_digit u;
          r1 = dropWhile is_digit u;
          (fp, r2) = (if r1 \<noteq> [] \<and> hd r1 = CHR ''.''
                      then (takeWhile is_digit (tl r1), dropWhile is_digit (tl r1))
                      else ([], r1))
      in if ip = [] \<and> fp = [] then None
         else Some (of_int sg * (of_nat (digits_to_nat 10 (map digit_val (ip @ fp))) / 10 ^ length fp)
                    * pow10 (exponent_part r2)))"

section \<open>formatNumber\<close>

text \<open>
  \<open>num.toString().replace(/\B(?=(\d{3})+(?!\d))/g, ' ')\<close>: a space is inserted before
  position \<open>i\<close> when \<open>i\<close> is not a word boundary and the maximal run of digits that
  starts at \<open>i\<close> has a positive length divisible by 3. The argument \<open>prev\<close> is the
  character before the current position.
\<close>

fun group_digits :: "char option \<Rightarrow> string \<Rightarrow> string" where
  "group_digits prev [] = []"
| "group_digits prev (c # cs) =
     (let run = length (takeWhile is_digit (c # cs));
          boundary = (case prev of None \<Rightarrow> is_word_char c | Some p \<Rightarrow> is_word_char p \<noteq> is_word_char c)
      in (if \<not> boundary \<and> 0 < run \<and> run mod 3 = 0 then [CHR '' '', c] else [c])
         @ group_digits (Some c) cs)"

definition format_number :: "string \<Rightarrow> string" where
  "format_number s = group_digits None s"

section \<open>Number and value to string\<close>

text \<open>
  \<open>String(n)\<close> for a number: the integer part, then, when there is a fractional part,
  a point and the fraction digits. JavaScript prints the shortest decimal that denotes the
  double; numbers are exact reals here, so the digits are those of the exact decimal
  expansion, of which at most 20 are produced. The exponent notation JavaScript uses below
  \<open>1e-6\<close> and from \<open>1e21\<close> on is not modelled.
\<close>

fun frac_digits :: "nat \<Rightarrow> real \<Rightarrow> string" where
  "frac_digits 0 r = []"
| "frac_digits (Suc k) r =
     (if r = 0 then [] else char_of (48 + nat \<lfloor>10 * r\<rfloor>) # frac_digits k (10 * r - of_int \<lfloor>10 * r\<rfloor>))"

definition abs_number_text :: "real \<Rightarrow> string" where
  "abs_number_text m =
     show_nat (nat \<lfloor>m\<rfloor>) @ (if m = of_int \<lfloor>m\<rfloor> then [] else CHR ''.'' # frac_digits 20 (m - of_int \<lfloor>m\<rfloor>))"

definition number_text :: "real \<Rightarrow> string" where
  "number_text n = (if n < 0 then CHR ''-'' # abs_number_text (- n) else abs_number_text n)"

text \<open>\<open>String(v)\<close> for a parsed JSON value, which is also what assigning it to
  \<open>textContent\<close> or passing it to \<open>new Error\<close> produces.\<close>

fun json_text :: "json \<Rightarrow> string" where
  "json_text JNull = ''null''"
| "json_text (JBool b) = (if b then ''true'' else ''false'')"
| "json_text (JNum n) = number_text n"
| "json_text (JStr s) = s"
| "json_text (JArr vs) =
     js_join '','' (map (\<lambda>v. if v = JNull then [] else json_text v) vs)"
| "json_text (JObj kvs) = ''[object Object]''"

section \<open>Lemmas\<close>

lemma frac_digits_numeral [simp]:
  "frac_digits (numeral k) r =
     (if r = 0 then [] else char_of (48 + nat \<lfloor>10 * r\<rfloor>) # frac_digits (pred_numeral k) (10 * r - of_int \<lfloor>10 * r\<rfloor>))"
  by (simp add: numeral_eq_Suc)

lemma digit_char_of [simp]:
  assumes "d < 10"
  shows "is_digit (char_of (48 + d)) \<and> digit_val (char_of (48 + d)) = d"
proof -
  have "of_char (char_of (48 + d) :: char) = (48 + d :: nat)"
    using assms by (simp add: of_char_of)
  then show ?thesis
    using assms by (simp add: is_digit_def digit_val_def less_eq_char_def)
qed

lemma show_nat_digits: "\<forall>c \<in> set (show_nat n). is_digit c"
  by (induction n rule: show_nat.induct) (subst show_nat.simps, auto)

lemma show_nat_nonempty: "show_nat n \<noteq> []"
  by (subst show_nat.simps) simp

lemma radix_digit_10 [simp]: "is_digit c \<Longrightarrow> radix_digit 10 c = Some (digit_val c)"
  by (simp add: radix_digit_def is_digit_def digit_val_def less_eq_char_def) linarith

lemma take_digits_all: "\<forall>c \<in> set s. is_digit c \<Longrightarrow> take_digits 10 s = map digit_val s"
  by (induction s) auto

lemma digits_to_nat_snoc [simp]: "digits_to_nat r (ds @ [d]) = r * digits_to_nat r ds + d"
  by (simp add: digits_to_nat_def)

lemma digits_to_nat_show_nat: "digits_to_nat 10 (map digit_val (show_nat n)) = n"
proof (induction n rule: show_nat.induct)
  case (1 n)
  show ?case
  proof (cases "n < 10")
    case True
    then show ?thesis by (subst show_nat.simps) (simp add: digits_to_nat_def)
  next
    case False
    then have "digits_to_nat 10 (map digit_val (show_nat (n div 10))) = n div 10"
      using "1.IH" by simp
    with False show ?thesis by (subst show_nat.simps) simp
  qed
qed

lemma show_nat_not_space: "\<not> is_js_space (hd (show_nat n))"
proof -
  have "is_digit (hd (show_nat n))"
    using show_nat_digits show_nat_nonempty by (metis list.set_sel(1))
  then show ?thesis by (auto simp: is_digit_def is_js_space_def less_eq_char_def)
qed

lemma strip_radix_show_nat: "strip_radix (show_nat n) = (10, show_nat n)"
proof -
  have "\<not> is_digit CHR ''x''" "\<not> is_digit CHR ''X''"
    by (simp_all add: is_digit_def)
  then have "length (show_nat n) \<ge> 2 \<Longrightarrow> show_nat n ! 1 \<noteq> CHR ''x'' \<and> show_nat n ! 1 \<noteq> CHR ''X''"
    using show_nat_digits[of n] by (metis Suc_1 Suc_le_lessD nth_mem)
  then show ?thesis by (auto simp: strip_radix_def)
qed

lemma parse_int_show_nat: "parse_int (show_nat n) = Some (int n)"
proof -
  have d: "dropWhile is_js_space (show_nat n) = show_nat n"
    using show_nat_not_space[of n] show_nat_nonempty[of n] by (cases "show_nat n") auto
  have s: "strip_sign (show_nat n) = (1, show_nat n)"
  proof -
    have "is_digit (hd (show_nat n))"
      using show_nat_digits show_nat_nonempty by (metis list.set_sel(1))
    then show ?thesis by (auto simp: strip_sign_def is_digit_def)
  qed
  have t: "take_digits 10 (show_nat n) = map digit_val (show_nat n)"
    by (rule take_digits_all[OF show_nat_digits])
  show ?thesis
    using show_nat_nonempty
    by (simp add: parse_int_def d s strip_radix_show_nat t digits_to_nat_show_nat)
qed

lemma digits_only_group_digits: "digits_only (group_digits prev s) = digits_only s"
  by (induction prev s rule: group_digits.induct) (auto simp: Let_def is_digit_def digits_only_def)

lemma parse_int_0 [simp]: "parse_int ''0'' = Some 0"
  by (simp add: parse_int_def strip_sign_def strip_radix_def js_char_simps digits_to_nat_def)

section \<open>Properties\<close>



text \<open>The separator regular expression is applied to the whole text, fraction digits
  included: a price with a fractional part is grouped on both sides of the decimal point.\<close>

theorem format_number_groups_fraction: "format_number ''1234.5678'' = ''1 234.5 678''"
  by (simp add: format_number_def js_char_simps)

end
