(* ===== verification/Stable_Sort.thy ===== *)
theory Stable_Sort
  imports Prelude
begin

text \<open>
  \<open>Array.prototype.sort(cmp)\<close>, which the catalog calls on \<open>filteredProducts\<close>
  (\<open>shop/product-list.js\<close>, \<open>sortProducts\<close>). ECMAScript requires the sort to be stable;
  for a comparator that is consistent (it induces a total preorder) the result is then
  determined, and equals the insertion sort \<open>js_sort\<close> below, which inserts an earlier
  element before a later one whenever \<open>cmp x y \<le> 0\<close>. The lemmas are the interface the
  catalog uses: \<open>js_sort\<close> permutes its input, orders it by the preorder
  \<open>cmp x y \<le> 0\<close>, keeps equivalent elements in input order, and coincides with the
  library's \<open>sort_key\<close> when the comparator is a difference of keys.
\<close>

fun js_insert :: "('a \<Rightarrow> 'a \<Rightarrow> real) \<Rightarrow> 'a \<Rightarrow> 'a list \<Rightarrow> 'a list" where
  "js_insert cmp x [] = [x]"
| "js_insert cmp x (y # ys) = (if cmp x y \<le> 0 then x # y # ys else y # js_insert cmp x ys)"

primrec js_sort :: "('a \<Rightarrow> 'a \<Rightarrow> real) \<Rightarrow> 'a list \<Rightarrow> 'a list" where
  "js_sort cmp [] = []"
| "js_sort cmp (x # xs) = js_insert cmp x (js_sort cmp xs)"

text \<open>A comparator is consistent when \<open>cmp x y \<le> 0\<close> is a total preorder.\<close>

definition consistent_cmp :: "('a \<Rightarrow> 'a \<Rightarrow> real) \<Rightarrow> bool" where
  "consistent_cmp cmp \<longleftrightarrow>
     (\<forall>x y. cmp x y \<le> 0 \<or> cmp y x \<le> 0) \<and>
     (\<forall>x y z. cmp x y \<le> 0 \<longrightarrow> cmp y z \<le> 0 \<longrightarrow> cmp x z \<le> 0)"

text \<open>Elements the comparator cannot tell apart.\<close>

definition cmp_equiv :: "('a \<Rightarrow> 'a \<Rightarrow> real) \<Rightarrow> 'a \<Rightarrow> 'a \<Rightarrow> bool" where
  "cmp_equiv cmp k y \<longleftrightarrow> cmp k y \<le> 0 \<and> cmp y k \<le> 0"

lemma mset_js_insert [simp]: "mset (js_insert cmp x ys) = add_mset x (mset ys)"
  by (induction ys) auto

lemma mset_js_sort [simp]: "mset (js_sort cmp xs) = mset xs"
  by (induction xs) auto

lemma set_js_sort [simp]: "set (js_sort cmp xs) = set xs"
  by (metis mset_js_sort set_mset_mset)

lemma length_js_sort [simp]: "length (js_sort cmp xs) = length xs"
  by (metis mset_js_sort size_mset)

lemma set_js_insert [simp]: "set (js_insert cmp x ys) = insert x (set ys)"
  by (metis mset_js_insert set_mset_add_mset_insert set_mset_mset)

lemma sorted_js_insert:
  assumes "consistent_cmp cmp" and "sorted_wrt (\<lambda>a b. cmp a b \<le> 0) ys"
  shows "sorted_wrt (\<lambda>a b. cmp a b \<le> 0) (js_insert cmp x ys)"
  using assms(2)
proof (induction ys)
  case Nil
  then show ?case by simp
next
  case (Cons y ys)
  show ?case
  proof (cases "cmp x y \<le> 0")
    case True
    with Cons.prems assms(1) show ?thesis
      unfolding consistent_cmp_def by (auto intro: order_trans)
  next
    case False
    with assms(1) have "cmp y x \<le> 0" unfolding consistent_cmp_def by auto
    with False Cons show ?thesis by auto
  qed
qed

theorem sorted_js_sort:
  "consistent_cmp cmp \<Longrightarrow> sorted_wrt (\<lambda>a b. cmp a b \<le> 0) (js_sort cmp xs)"
  by (induction xs) (auto intro: sorted_js_insert)

lemma filter_js_insert_out:
  "\<not> P x \<Longrightarrow> filter P (js_insert cmp x ys) = filter P ys"
  by (induction ys) auto

lemma filter_js_insert_in:
  assumes "consistent_cmp cmp" and "cmp_equiv cmp k x"
  shows "filter (cmp_equiv cmp k) (js_insert cmp x ys) = x # filter (cmp_equiv cmp k) ys"
proof (induction ys)
  case Nil
  with assms(2) show ?case by simp
next
  case (Cons y ys)
  show ?case
  proof (cases "cmp x y \<le> 0")
    case True
    with assms(2) show ?thesis by simp
  next
    case False
    have "\<not> cmp_equiv cmp k y"
    proof
      assume "cmp_equiv cmp k y"
      with assms have "cmp x y \<le> 0"
        unfolding consistent_cmp_def cmp_equiv_def by blast
      with False show False by simp
    qed
    with False Cons.IH show ?thesis by simp
  qed
qed

theorem js_sort_stable:
  "consistent_cmp cmp \<Longrightarrow>
   filter (cmp_equiv cmp k) (js_sort cmp xs) = filter (cmp_equiv cmp k) xs"
  by (induction xs) (auto simp: filter_js_insert_in filter_js_insert_out)

lemma js_insert_insort_key:
  "\<forall>a b. cmp a b \<le> 0 \<longleftrightarrow> f a \<le> f b \<Longrightarrow> js_insert cmp x ys = insort_key f x ys"
  by (induction ys) auto

theorem js_sort_sort_key:
  "\<forall>a b. cmp a b \<le> 0 \<longleftrightarrow> f a \<le> f b \<Longrightarrow> js_sort cmp xs = sort_key f xs"
  by (induction xs) (simp_all add: js_insert_insort_key)

lemma js_insert_zero [simp]: "js_insert (\<lambda>a b. 0) x ys = x # ys"
  by (cases ys) auto

lemma js_sort_zero: "js_sort (\<lambda>a b. 0) xs = xs"
  by (induction xs) auto

lemma key_cmp_consistent:
  "\<forall>a b. cmp a b \<le> 0 \<longleftrightarrow> f a \<le> (f b :: 'k::linorder) \<Longrightarrow> consistent_cmp cmp"
  unfolding consistent_cmp_def by (auto intro: order_trans)

lemma key_cmp_consistent_rev:
  "\<forall>a b. cmp a b \<le> 0 \<longleftrightarrow> f b \<le> (f a :: 'k::linorder) \<Longrightarrow> consistent_cmp cmp"
  unfolding consistent_cmp_def by (auto intro: order_trans)

end
