(* ===== verification/Catalog_Filter.thy ===== *)
theory Catalog_Filter
  imports JS_Coerce Stable_Sort
begin

text \<open>
  The data half of the catalog filter engine of \<open>shop/product-list.js\<close>: the product
  snapshot taken from the DOM (\<open>loadProductsData\<close>), the filter configuration
  (\<open>currentFilters\<close>), the filter predicate of \<open>applyFilters\<close>, and the comparator of
  \<open>sortProducts\<close>. The abstract specification of spec section 4.1 and 4.2 is
  \<open>catalog_accepts\<close> and \<open>catalog_le\<close>; the lemmas show the code implements it.
\<close>

section \<open>Product snapshot\<close>

text \<open>What \<open>loadProductsData\<close> reads from one \<open>.product-item-wrapper\<close> element: three
  data attributes (\<open>None\<close> when absent) and the presence of three marker elements.\<close>

record card =
  data_price :: "string option"
  data_category :: "string option"
  data_name :: "string option"
  has_stock_out :: bool
  has_badge_sale :: bool
  has_badge_new :: bool

text \<open>The product object; \<open>element\<close> is the card's position in the container, which
  identifies its DOM node.\<close>

record product =
  element :: nat
  price :: real
  category :: string
  name :: string
  inStock :: bool
  onSale :: bool
  isNew :: bool
  rating :: int

text \<open>\<open>String(item.getAttribute(a))\<close> (an absent attribute is \<open>null\<close>) and
  \<open>item.getAttribute(a) || ''\<close>.\<close>

definition attr_string :: "string option \<Rightarrow> string" where
  "attr_string a = (case a of None \<Rightarrow> ''null'' | Some s \<Rightarrow> s)"

definition attr_or_empty :: "string option \<Rightarrow> string" where
  "attr_or_empty a = (case a of None \<Rightarrow> [] | Some s \<Rightarrow> s)"

definition scan_card :: "nat \<Rightarrow> card \<Rightarrow> product" where
  "scan_card i c =
     \<lparr>element = i,
      price = js_or (parse_float (attr_string (data_price c))) 0,
      category = attr_or_empty (data_category c),
      name = attr_or_empty (data_name c),
      inStock = (\<not> has_stock_out c),
      onSale = has_badge_sale c,
      isNew = has_badge_new c,
      rating = 4\<rparr>"

definition load_products :: "card list \<Rightarrow> product list" where
  "load_products cards = map (\<lambda>(i, c). scan_card i c) (enumerate 0 cards)"

section \<open>Filter configuration\<close>

text \<open>\<open>currentFilters\<close>. Field names follow the code; the three that the product object
  also has carry the suffix \<open>_filter\<close>. \<open>rating_filter\<close> is \<open>None\<close> for \<open>null\<close>
  and for \<open>NaN\<close>; \<open>sortBy\<close> and \<open>view\<close> are arbitrary JavaScript values because
  \<open>restoreUserPreferences\<close> copies them unchecked from storage.\<close>

record filter_state =
  categories :: "string list"
  minPrice :: int
  maxPrice :: int
  inStock_filter :: bool
  onSale_filter :: bool
  newArrivals :: bool
  rating_filter :: "int option"
  sortBy :: json
  view :: json

definition initial_filters :: filter_state where
  "initial_filters =
     \<lparr>categories = [], minPrice = 0, maxPrice = 1000000, inStock_filter = True,
      onSale_filter = False, newArrivals = False, rating_filter = None,
      sortBy = JStr ''newest'', view = JStr ''grid''\<rparr>"

text \<open>\<open>currentFilters.rating\<close> used as a condition: \<open>null\<close>, \<open>NaN\<close> and 0 are falsy.\<close>

definition rating_active :: "filter_state \<Rightarrow> bool" where
  "rating_active f = (case rating_filter f of None \<Rightarrow> False | Some r \<Rightarrow> r \<noteq> 0)"

definition rating_value :: "filter_state \<Rightarrow> int" where
  "rating_value f = (case rating_filter f of None \<Rightarrow> 0 | Some r \<Rightarrow> r)"

text \<open>The callback of \<open>allProducts.filter\<close> in \<open>applyFilters\<close>, check by check.\<close>

definition product_passes :: "filter_state \<Rightarrow> product \<Rightarrow> bool" where
  "product_passes f p =
     (if price p < of_int (minPrice f) \<or> price p > of_int (maxPrice f) then False
      else if inStock_filter f \<and> \<not> inStock p then False
      else if onSale_filter f \<and> \<not> onSale p then False
      else if newArrivals f \<and> \<not> isNew p then False
      else if rating_active f \<and> rating p < rating_value f then False
      else True)"

definition filter_products :: "filter_state \<Rightarrow> product list \<Rightarrow> product list" where
  "filter_products f ps = filter (product_passes f) ps"

section \<open>Sorting\<close>

text \<open>\<open>a.localeCompare(b)\<close> on the lower-cased names, modelled as code-unit order.\<close>

definition locale_compare :: "string \<Rightarrow> string \<Rightarrow> real" where
  "locale_compare a b = (if a < b then -1 else if a = b then 0 else 1)"

definition getProductName :: "product \<Rightarrow> string" where
  "getProductName p = js_to_lower (name p)"

definition getProductPopularity :: "product \<Rightarrow> int" where
  "getProductPopularity p =
     (if onSale p then 50 else 0) + (if isNew p then 30 else 0)
     + (if rating p \<noteq> 0 then rating p * 10 else 0)"

text \<open>The comparator passed to \<open>filteredProducts.sort\<close>: a \<open>switch\<close> on \<open>sortBy\<close> with
  \<open>newest\<close> and every unknown value returning 0.\<close>

definition compare_products :: "json \<Rightarrow> product \<Rightarrow> product \<Rightarrow> real" where
  "compare_products s a b =
     (if s = JStr ''price-asc'' then price a - price b
      else if s = JStr ''price-desc'' then price b - price a
      else if s = JStr ''name-asc'' then locale_compare (getProductName a) (getProductName b)
      else if s = JStr ''name-desc'' then locale_compare (getProductName b) (getProductName a)
      else if s = JStr ''popular'' then of_int (getProductPopularity b - getProductPopularity a)
      else 0)"

definition sort_products :: "filter_state \<Rightarrow> product list \<Rightarrow> product list" where
  "sort_products f ps = js_sort (compare_products (sortBy f)) ps"

section \<open>Abstract specification\<close>

text \<open>Spec section 4.1: a product is accepted when its price lies in the range and
  every active flag filter holds.\<close>

definition catalog_accepts :: "filter_state \<Rightarrow> product \<Rightarrow> bool" where
  "catalog_accepts f p \<longleftrightarrow>
     of_int (minPrice f) \<le> price p \<and> price p \<le> of_int (maxPrice f)
     \<and> (inStock_filter f \<longrightarrow> inStock p) \<and> (onSale_filter f \<longrightarrow> onSale p)
     \<and> (newArrivals f \<longrightarrow> isNew p)
     \<and> (case rating_filter f of None \<Rightarrow> True | Some r \<Rightarrow> r = 0 \<or> r \<le> rating p)"

text \<open>Spec section 4.2: the sort keys and the order each of them promises.\<close>

datatype sort_choice = Newest | PriceAsc | PriceDesc | NameAsc | NameDesc | Popular

definition sort_choice_of :: "json \<Rightarrow> sort_choice" where
  "sort_choice_of s =
     (if s = JStr ''price-asc'' then PriceAsc else if s = JStr ''price-desc'' then PriceDesc
      else if s = JStr ''name-asc'' then NameAsc else if s = JStr ''name-desc'' then NameDesc
      else if s = JStr ''popular'' then Popular else Newest)"

fun catalog_le :: "sort_choice \<Rightarrow> product \<Rightarrow> product \<Rightarrow> bool" where
  "catalog_le Newest a b = True"
| "catalog_le PriceAsc a b = (price a \<le> price b)"
| "catalog_le PriceDesc a b = (price b \<le> price a)"
| "catalog_le NameAsc a b = (js_to_lower (name a) \<le> js_to_lower (name b))"
| "catalog_le NameDesc a b = (js_to_lower (name b) \<le> js_to_lower (name a))"
| "catalog_le Popular a b = (getProductPopularity b \<le> getProductPopularity a)"

text \<open>The view the engine promises: the accepted products, ordered by the sort key,
  equivalent products in snapshot order.\<close>

definition catalog_view :: "filter_state \<Rightarrow> product list \<Rightarrow> product list" where
  "catalog_view f ps = sort_products f (filter (catalog_accepts f) ps)"

section \<open>Lemmas\<close>

lemma locale_compare_le [simp]: "locale_compare a b \<le> 0 \<longleftrightarrow> a \<le> b"
  by (auto simp: locale_compare_def)

lemma compare_products_le:
  "compare_products s a b \<le> 0 \<longleftrightarrow> catalog_le (sort_choice_of s) a b"
  by (auto simp: compare_products_def sort_choice_of_def getProductName_def)

lemma compare_products_consistent: "consistent_cmp (compare_products s)"
  unfolding consistent_cmp_def compare_products_le
  by (cases "sort_choice_of s") auto

lemma product_passes_accepts: "product_passes f p \<longleftrightarrow> catalog_accepts f p"
  by (auto simp: product_passes_def catalog_accepts_def rating_active_def rating_value_def
      split: option.splits)

lemma product_passes_eq_accepts: "product_passes f = catalog_accepts f"
  by (rule ext) (rule product_passes_accepts)

lemma cmp_equiv_compare_products:
  "cmp_equiv (compare_products s) a b \<longleftrightarrow>
     catalog_le (sort_choice_of s) a b \<and> catalog_le (sort_choice_of s) b a"
  by (simp add: cmp_equiv_def compare_products_le)

lemma element_load_products: "map element (load_products cards) = [0..<length cards]"
proof -
  have "map element (map (\<lambda>(i, c). scan_card i c) (enumerate n cards)) = [n..<n + length cards]"
    for n by (induction cards arbitrary: n) (auto simp: scan_card_def upt_rec)
  then show ?thesis by (simp add: load_products_def)
qed

lemma load_products_nth:
  "i < length cards \<Longrightarrow> load_products cards ! i = scan_card i (cards ! i)"
  by (simp add: load_products_def nth_enumerate_eq)

lemma length_load_products [simp]: "length (load_products cards) = length cards"
  by (simp add: load_products_def)

lemma compare_products_Newest:
  "sort_choice_of s = Newest \<Longrightarrow> compare_products s = (\<lambda>a b. 0)"
  by (intro ext) (auto simp: compare_products_def sort_choice_of_def split: if_splits)

section \<open>Properties\<close>

text \<open>C4: the filter callback of \<open>applyFilters\<close> implements spec section 4.1: the
  filtered list is the snapshot restricted to the products the specification accepts, in
  snapshot order.\<close>

theorem filter_products_refines: "filter_products f ps = filter (catalog_accepts f) ps"
  by (simp add: filter_products_def product_passes_eq_accepts)

theorem filter_products_refines_witness:
  "filter_products initial_filters [\<lparr>element = 0, price = 500, category = [], name = ''a'',
      inStock = False, onSale = False, isNew = False, rating = 4\<rparr>] =
   filter (catalog_accepts initial_filters) [\<lparr>element = 0, price = 500, category = [], name = ''a'',
      inStock = False, onSale = False, isNew = False, rating = 4\<rparr>]
   \<and> filter_products initial_filters [\<lparr>element = 0, price = 500, category = [], name = ''a'',
      inStock = False, onSale = False, isNew = False, rating = 4\<rparr>] = []"
proof
  show "filter_products initial_filters [\<lparr>element = 0, price = 500, category = [], name = ''a'',
      inStock = False, onSale = False, isNew = False, rating = 4\<rparr>] =
    filter (catalog_accepts initial_filters) [\<lparr>element = 0, price = 500, category = [], name = ''a'',
      inStock = False, onSale = False, isNew = False, rating = 4\<rparr>]"
    by (rule filter_products_refines)
  show "filter_products initial_filters [\<lparr>element = 0, price = 500, category = [], name = ''a'',
      inStock = False, onSale = False, isNew = False, rating = 4\<rparr>] = []"
    by (simp add: filter_products_refines catalog_accepts_def initial_filters_def)
qed




text \<open>With \<open>newest\<close>, and with every value the \<open>switch\<close> does not know, the sort
  keeps the list as it is.\<close>

theorem sort_products_newest:
  "sort_choice_of (sortBy f) = Newest \<Longrightarrow> sort_products f ps = ps"
  by (simp add: sort_products_def compare_products_Newest js_sort_zero)

theorem sort_products_newest_witness:
  "sort_choice_of (sortBy (initial_filters\<lparr>sortBy := JStr ''oldest''\<rparr>)) = Newest \<and>
   sort_products (initial_filters\<lparr>sortBy := JStr ''oldest''\<rparr>)
     [\<lparr>element = 0, price = 3000, category = [], name = ''b'', inStock = True, onSale = False,
        isNew = False, rating = 4\<rparr>,
      \<lparr>element = 1, price = 1000, category = [], name = ''a'', inStock = True, onSale = False,
        isNew = False, rating = 4\<rparr>] =
     [\<lparr>element = 0, price = 3000, category = [], name = ''b'', inStock = True, onSale = False,
        isNew = False, rating = 4\<rparr>,
      \<lparr>element = 1, price = 1000, category = [], name = ''a'', inStock = True, onSale = False,
        isNew = False, rating = 4\<rparr>]"
  using sort_products_newest[of "initial_filters\<lparr>sortBy := JStr ''oldest''\<rparr>"]
  by (simp add: sort_choice_of_def)

end
