(* ===== verification/Catalog_View.thy ===== *)
theory Catalog_View
  imports Catalog_Filter
begin

text \<open>
  The DOM reconciliation of \<open>shop/product-list.js\<close>: \<open>displayProducts\<close>,
  \<open>showNoProductsMessage\<close>, \<open>hideNoProductsMessage\<close> and \<open>updateProductCount\<close>.
  A card's inline style is its \<open>display\<close> and \<open>opacity\<close>; cards never move in the
  container, the code only toggles their style. The staggered fade-in is a list of pending
  timers \<open>(delay, element)\<close>; \<open>settle\<close> runs them all, which is the state the page
  reaches once the animation is over. The no-results placeholders appended to the container
  are kept as the list of their \<open>display\<close> flags, in document order.
\<close>

datatype display_val = DUnset | DBlock | DNone

datatype opacity_val = OUnset | OZero | OOne

record card_style =
  disp :: display_val
  opac :: opacity_val

record grid_dom =
  styles :: "nat \<Rightarrow> card_style"
  placeholders :: "bool list"
  timers :: "(nat \<times> nat) list"
  count_text :: string

definition initial_dom :: grid_dom where
  "initial_dom =
     \<lparr>styles = (\<lambda>_. \<lparr>disp = DUnset, opac = OUnset\<rparr>), placeholders = [], timers = [],
      count_text = []\<rparr>"

text \<open>\<open>allProducts.forEach\<close>: \<open>display = 'none'\<close>, \<open>opacity = '0'\<close>.\<close>

definition hide_all :: "product list \<Rightarrow> (nat \<Rightarrow> card_style) \<Rightarrow> (nat \<Rightarrow> card_style)" where
  "hide_all ps st = fold (\<lambda>p st. st(element p := \<lparr>disp = DNone, opac = OZero\<rparr>)) ps st"

text \<open>\<open>filteredProducts.forEach((product, index) => ...)\<close>: \<open>display = 'block'\<close> now,
  opacity 1 after \<open>index * 50\<close> ms.\<close>

fun show_from :: "nat \<Rightarrow> product list \<Rightarrow> grid_dom \<Rightarrow> grid_dom" where
  "show_from i [] d = d"
| "show_from i (p # ps) d =
     show_from (Suc i) ps
       (d\<lparr>styles := (styles d)(element p := (styles d (element p))\<lparr>disp := DBlock\<rparr>),
          timers := timers d @ [(i * 50, element p)]\<rparr>)"

text \<open>\<open>showNoProductsMessage\<close>: the first placeholder is shown, one is appended when there is
  none. \<open>hideNoProductsMessage\<close>: the first placeholder, if any, is hidden.\<close>

definition showNoProductsMessage :: "bool list \<Rightarrow> bool list" where
  "showNoProductsMessage ph = (if ph = [] then [True] else ph[0 := True])"

definition hideNoProductsMessage :: "bool list \<Rightarrow> bool list" where
  "hideNoProductsMessage ph = (if ph = [] then [] else ph[0 := False])"

definition displayProducts :: "product list \<Rightarrow> product list \<Rightarrow> grid_dom \<Rightarrow> grid_dom" where
  "displayProducts allp fp d =
     (let d1 = d\<lparr>styles := hide_all allp (styles d)\<rparr>;
          d2 = show_from 0 fp d1
      in d2\<lparr>placeholders := (if fp = [] then showNoProductsMessage (placeholders d2)
                              else hideNoProductsMessage (placeholders d2))\<rparr>)"

text \<open>The timer callback: \<open>opacity = '1'\<close> (with its transition and transform).\<close>

definition fire_timer :: "nat \<times> nat \<Rightarrow> (nat \<Rightarrow> card_style) \<Rightarrow> (nat \<Rightarrow> card_style)" where
  "fire_timer t st = st(snd t := (st (snd t))\<lparr>opac := OOne\<rparr>)"

definition settle :: "grid_dom \<Rightarrow> grid_dom" where
  "settle d = d\<lparr>styles := fold fire_timer (timers d) (styles d), timers := []\<rparr>"

text \<open>\<open>updateProductCount\<close>: the count element shows \<open>filteredProducts.length\<close>.\<close>

definition updateProductCount :: "product list \<Rightarrow> grid_dom \<Rightarrow> grid_dom" where
  "updateProductCount fp d = d\<lparr>count_text := show_nat (length fp)\<rparr>"

text \<open>A card is seen when neither its display nor its opacity hides it.\<close>

definition card_visible :: "grid_dom \<Rightarrow> nat \<Rightarrow> bool" where
  "card_visible d e \<longleftrightarrow> disp (styles d e) \<noteq> DNone \<and> opac (styles d e) \<noteq> OZero"

text \<open>The cards seen, in container order: what the shopper reads.\<close>

definition visible_cards :: "product list \<Rightarrow> grid_dom \<Rightarrow> nat list" where
  "visible_cards allp d = filter (card_visible d) (map element allp)"

definition placeholder_shown :: "grid_dom \<Rightarrow> bool" where
  "placeholder_shown d \<longleftrightarrow> placeholders d \<noteq> [] \<and> hd (placeholders d)"

section \<open>Lemmas\<close>

lemma hide_all_at:
  "hide_all ps st e = (if e \<in> element ` set ps then \<lparr>disp = DNone, opac = OZero\<rparr> else st e)"
  by (induction ps arbitrary: st) (auto simp: hide_all_def)

lemma show_from_placeholders [simp]: "placeholders (show_from i ps d) = placeholders d"
  by (induction i ps d rule: show_from.induct) auto

lemma show_from_count [simp]: "count_text (show_from i ps d) = count_text d"
  by (induction i ps d rule: show_from.induct) auto

lemma show_from_timers:
  "timers (show_from i ps d) = timers d @ map (\<lambda>k. ((i + k) * 50, element (ps ! k))) [0..<length ps]"
proof (induction i ps d rule: show_from.induct)
  case (1 i d)
  then show ?case by simp
next
  case (2 i p ps d)
  then show ?case by (simp add: map_upt_Suc del: upt_Suc)
qed

lemma show_from_styles:
  "styles (show_from i ps d) e =
     (if e \<in> element ` set ps then (styles d e)\<lparr>disp := DBlock\<rparr> else styles d e)"
  by (induction i ps d arbitrary: rule: show_from.induct) auto

lemma fold_fire_timer:
  "fold fire_timer ts st e = (if e \<in> snd ` set ts then (st e)\<lparr>opac := OOne\<rparr> else st e)"
  by (induction ts arbitrary: st) (auto simp: fire_timer_def)

lemma displayProducts_styles:
  "styles (displayProducts allp fp d) e =
     (if e \<in> element ` set fp then
        (if e \<in> element ` set allp then \<lparr>disp = DBlock, opac = OZero\<rparr> else (styles d e)\<lparr>disp := DBlock\<rparr>)
      else if e \<in> element ` set allp then \<lparr>disp = DNone, opac = OZero\<rparr> else styles d e)"
  by (simp add: displayProducts_def Let_def show_from_styles hide_all_at)

lemma displayProducts_timers:
  "timers (displayProducts allp fp d) =
     timers d @ map (\<lambda>k. (k * 50, element (fp ! k))) [0..<length fp]"
  by (simp add: displayProducts_def Let_def show_from_timers)

lemma snd_displayProducts_timers:
  "snd ` set (timers (displayProducts allp fp d)) = snd ` set (timers d) \<union> element ` set fp"
proof -
  have "snd ` set (map (\<lambda>k. (k * 50, element (fp ! k))) [0..<length fp]) = element ` set fp"
    by (fastforce simp: image_iff in_set_conv_nth)
  then show ?thesis by (simp add: displayProducts_timers image_Un)
qed

lemma settle_styles:
  "styles (settle d) e = (if e \<in> snd ` set (timers d) then (styles d e)\<lparr>opac := OOne\<rparr> else styles d e)"
  by (simp add: settle_def fold_fire_timer)

lemma displayProducts_placeholders:
  "placeholders (displayProducts allp fp d) =
     (if fp = [] then showNoProductsMessage (placeholders d) else hideNoProductsMessage (placeholders d))"
  by (simp add: displayProducts_def Let_def)

lemma settle_placeholders [simp]: "placeholders (settle d) = placeholders d"
  by (simp add: settle_def)

lemma length_showNoProductsMessage: "length ph \<le> 1 \<Longrightarrow> length (showNoProductsMessage ph) = 1"
  by (cases ph) (auto simp: showNoProductsMessage_def)

lemma showNoProductsMessage_idem [simp]:
  "showNoProductsMessage (showNoProductsMessage ph) = showNoProductsMessage ph"
  by (simp add: showNoProductsMessage_def)

lemma hideNoProductsMessage_idem [simp]:
  "hideNoProductsMessage (hideNoProductsMessage ph) = hideNoProductsMessage ph"
  by (simp add: hideNoProductsMessage_def)

lemma displayProducts_count [simp]: "count_text (displayProducts allp fp d) = count_text d"
  by (simp add: displayProducts_def Let_def)

lemma settle_count [simp]: "count_text (settle d) = count_text d"
  by (simp add: settle_def)

lemma settle_timers [simp]: "timers (settle d) = []"
  by (simp add: settle_def)

lemmas display_simps = displayProducts_styles settle_styles snd_displayProducts_timers
  displayProducts_placeholders

text \<open>After the reconciliation and its animation, the cards seen are exactly the cards of
  the filtered list, in container order.\<close>

lemma visible_cards_displayProducts:
  "visible_cards allp (settle (displayProducts allp fp d)) =
     filter (\<lambda>e. e \<in> element ` set fp) (map element allp)"
  unfolding visible_cards_def
  by (rule filter_cong) (auto simp: card_visible_def display_simps)

text \<open>The result of the reconciliation depends on the set of filtered products only: the
  order of the list is used for the animation delays and nowhere else.\<close>

lemma settle_displayProducts_set:
  "set fp = set gp \<Longrightarrow>
   settle (displayProducts allp fp d) = settle (displayProducts allp gp d)"
proof -
  assume eq: "set fp = set gp"
  then have "fp = [] \<longleftrightarrow> gp = []" by auto
  with eq show ?thesis
    by (intro grid_dom.equality ext) (simp_all add: display_simps)
qed

text \<open>The placeholder is shown exactly when the filtered list is empty, and the container
  never holds more than one.\<close>

lemma placeholder_displayProducts:
  assumes "length (placeholders d) \<le> 1"
  shows "length (placeholders (displayProducts allp fp d)) \<le> 1 \<and>
         (placeholder_shown (displayProducts allp fp d) \<longleftrightarrow> fp = [])"
  using assms
  by (cases "placeholders d")
     (auto simp: placeholder_shown_def displayProducts_placeholders showNoProductsMessage_def
        hideNoProductsMessage_def)

lemma length_hideNoProductsMessage [simp]: "length (hideNoProductsMessage ph) = length ph"
  by (simp add: hideNoProductsMessage_def)

section \<open>Properties\<close>

text \<open>C5: the sort order never reaches the screen: \<open>displayProducts\<close> only toggles the
  cards' styles and never moves them in the container, so displaying the sorted list leaves
  the page, once the fade-in has run, exactly as displaying the unsorted one (spec section
  4.2 promises that the grid shows the products in the chosen order).\<close>

theorem sort_order_not_displayed:
  "settle (displayProducts allp (sort_products f fp) d) = settle (displayProducts allp fp d)"
  by (rule settle_displayProducts_set) (simp add: sort_products_def)

text \<open>C6: reconciling twice in a row gives the same page as reconciling once: no second
  placeholder, no change of any card's style once the animations have run.\<close>

theorem displayProducts_idempotent:
  "settle (displayProducts allp fp (displayProducts allp fp d)) = settle (displayProducts allp fp d)"
  by (intro grid_dom.equality ext) (auto simp: display_simps)

end
