(* ===== verification/Catalog_Prefs.thy ===== *)
theory Catalog_Prefs
  imports Catalog_Filter
begin

text \<open>
  Preference persistence of \<open>shop/product-list.js\<close>: \<open>saveUserPreferences\<close> and the
  storage-reading half of \<open>restoreUserPreferences\<close>. \<open>localStorage\<close> maps keys to
  strings; a stored string is either the text of a JSON value (kept here as the value
  \<open>JSON.parse\<close> returns for it) or a string \<open>JSON.parse\<close> rejects. \<open>setItem\<close> throws
  when the storage is full or disabled, \<open>getItem\<close> when it is disabled; both exceptions are
  caught by the code, which is why the model has the two flags.
\<close>

datatype stored = Json json | Unparsable string

record storage =
  items :: "string \<Rightarrow> stored option"
  writable :: bool
  readable :: bool

definition prefs_key :: string where
  "prefs_key = ''productListPreferences''"

definition empty_storage :: storage where
  "empty_storage = \<lparr>items = (\<lambda>_. None), writable = True, readable = True\<rparr>"

text \<open>The object \<open>{view, sortBy}\<close> that \<open>saveUserPreferences\<close> serialises.\<close>

definition prefs_json :: "filter_state \<Rightarrow> json" where
  "prefs_json f = JObj [(''view'', view f), (''sortBy'', sortBy f)]"

definition saveUserPreferences :: "filter_state \<Rightarrow> storage \<Rightarrow> storage" where
  "saveUserPreferences f st =
     (if writable st then st\<lparr>items := (items st)(prefs_key \<mapsto> Json (prefs_json f))\<rparr> else st)"

text \<open>
  What \<open>restoreUserPreferences\<close> obtains before it touches the page: \<open>None\<close> when
  \<open>getItem\<close> throws, when there is no item or an empty one (\<open>if (saved)\<close>), when
  \<open>JSON.parse\<close> throws, and when the parsed value is \<open>null\<close> (reading
  \<open>preferences.view\<close> throws); in all these cases the \<open>catch\<close> leaves the page as it is.
\<close>

definition load_preferences :: "storage \<Rightarrow> json option" where
  "load_preferences st =
     (if \<not> readable st then None
      else case items st prefs_key of
        None \<Rightarrow> None
      | Some (Unparsable _) \<Rightarrow> None
      | Some (Json v) \<Rightarrow> if v = JNull then None else Some v)"

text \<open>A property the code copies when it is truthy (\<open>if (preferences.view)\<close>).\<close>

definition truthy_field :: "json \<Rightarrow> string \<Rightarrow> json option" where
  "truthy_field v k = (case json_get v k of Some w \<Rightarrow> if json_truthy w then Some w else None | None \<Rightarrow> None)"

section \<open>Lemmas\<close>

lemma load_saved:
  "writable st \<Longrightarrow> readable st \<Longrightarrow>
   load_preferences (saveUserPreferences f st) = Some (prefs_json f)"
  by (simp add: load_preferences_def saveUserPreferences_def prefs_json_def)

lemma truthy_field_prefs_json:
  "truthy_field (prefs_json f) ''view'' = (if json_truthy (view f) then Some (view f) else None)"
  "truthy_field (prefs_json f) ''sortBy'' = (if json_truthy (sortBy f) then Some (sortBy f) else None)"
  by (simp_all add: truthy_field_def prefs_json_def)

lemma load_empty_storage: "load_preferences empty_storage = None"
  by (simp add: load_preferences_def empty_storage_def)

lemma saveUserPreferences_unwritable: "\<not> writable st \<Longrightarrow> saveUserPreferences f st = st"
  by (simp add: saveUserPreferences_def)

lemma readable_saveUserPreferences [simp]: "readable (saveUserPreferences f st) = readable st"
  by (simp add: saveUserPreferences_def)

lemma writable_saveUserPreferences [simp]: "writable (saveUserPreferences f st) = writable st"
  by (simp add: saveUserPreferences_def)

end
