(* ===== verification/Catalog_Page.thy ===== *)
theory Catalog_Page
  imports Catalog_View Catalog_Prefs
begin

text \<open>
  The page controller of \<open>shop/product-list.js\<close>: the module's state (\<open>currentFilters\<close>,
  \<open>allProducts\<close>, \<open>filteredProducts\<close>) together with the part of the DOM the handlers
  read and write, one definition per handler, and the event step function
  \<open>catalog_step\<close>. The page template is assumed to contain the price inputs and the
  apply button whenever it contains the slider, and the count, tag and sort elements;
  the presence flags that the code does test are fields of the state. The reset button's
  \<open>setTimeout(..., 300)\<close> is modelled by its callback, the event \<open>ResetFilters\<close>.
\<close>

datatype filter_tag = TagPrice | TagOnSale | TagNewArrivals | TagRating

text \<open>The tags \<open>updateActiveFilters\<close> renders; a price tag carries its rendered range.\<close>

datatype active_tag = PriceTag string | SaleTag | NewTag | RatingTag int

datatype catalog_msg = MsgFiltersReset

record catalog_page =
  currentFilters :: filter_state
  allProducts :: "product list"
  filteredProducts :: "product list"
  grid :: grid_dom
  has_container :: bool
  has_slider :: bool
  view_buttons :: "string list"
  active_view :: "string option"
  list_layout :: "bool option"
  min_input :: string
  max_input :: string
  slider_value :: string
  price_display :: string
  in_stock_box :: bool
  on_sale_box :: bool
  new_arrivals_box :: bool
  rating_checked :: "string option"
  sort_select :: string
  active_tags :: "active_tag list"
  toasts :: "(catalog_msg \<times> toast_kind) list"
  store :: storage

datatype catalog_event =
    ViewToggle string
  | SliderInput string
  | MinPriceInput string
  | MaxPriceInput string
  | ApplyPrice
  | InStockChange bool
  | OnSaleChange bool
  | NewArrivalsChange bool
  | RatingChange string
  | SortChange string
  | ResetFilters
  | RemoveTag filter_tag

text \<open>The page as the server renders it, before \<open>DOMContentLoaded\<close>.\<close>

definition fresh_page :: "storage \<Rightarrow> string list \<Rightarrow> catalog_page" where
  "fresh_page st bs =
     \<lparr>currentFilters = initial_filters, allProducts = [], filteredProducts = [],
      grid = initial_dom, has_container = True, has_slider = True, view_buttons = bs,
      active_view = None, list_layout = None, min_input = ''0'', max_input = ''1000000'',
      slider_value = ''1000000'', price_display = [], in_stock_box = True, on_sale_box = False,
      new_arrivals_box = False, rating_checked = None, sort_select = ''newest'',
      active_tags = [], toasts = [], store = st\<rparr>"

text \<open>A number as the code writes it into the DOM: \<open>NaN\<close> or its decimal text.\<close>

definition num_text :: "int option \<Rightarrow> string" where
  "num_text v = (case v of None \<Rightarrow> ''NaN'' | Some n \<Rightarrow> show_int n)"

definition updatePriceDisplay :: "string \<Rightarrow> string \<Rightarrow> catalog_page \<Rightarrow> catalog_page" where
  "updatePriceDisplay a b pg = pg\<lparr>price_display := format_number a @ '' - '' @ format_number b\<rparr>"

section \<open>applyFilters and its neighbours\<close>

definition applyFilters :: "catalog_page \<Rightarrow> catalog_page" where
  "applyFilters pg =
     (let f = currentFilters pg;
          fp = sort_products f (filter_products f (allProducts pg));
          g = (if has_container pg then displayProducts (allProducts pg) fp (grid pg) else grid pg)
      in pg\<lparr>filteredProducts := fp, grid := updateProductCount fp g\<rparr>)"

definition price_tag_text :: "filter_state \<Rightarrow> string" where
  "price_tag_text f =
     format_number (show_int (minPrice f)) @ '' - '' @ format_number (show_int (maxPrice f)) @ '' FCFA''"

definition active_tags_of :: "filter_state \<Rightarrow> active_tag list" where
  "active_tags_of f =
     (if 0 < minPrice f \<or> maxPrice f < 1000000 then [PriceTag (price_tag_text f)] else [])
     @ (if onSale_filter f then [SaleTag] else [])
     @ (if newArrivals f then [NewTag] else [])
     @ (if rating_active f then [RatingTag (rating_value f)] else [])"

definition updateActiveFilters :: "catalog_page \<Rightarrow> catalog_page" where
  "updateActiveFilters pg = pg\<lparr>active_tags := active_tags_of (currentFilters pg)\<rparr>"

definition set_filters :: "(filter_state \<Rightarrow> filter_state) \<Rightarrow> catalog_page \<Rightarrow> catalog_page" where
  "set_filters u pg = pg\<lparr>currentFilters := u (currentFilters pg)\<rparr>"

text \<open>The common tail of the filter handlers: \<open>applyFilters(); updateActiveFilters();\<close>.\<close>

definition refilter :: "catalog_page \<Rightarrow> catalog_page" where
  "refilter pg = updateActiveFilters (applyFilters pg)"

section \<open>Handlers\<close>

text \<open>\<open>initViewToggle\<close>'s click listener; no listener exists without buttons or container.\<close>

definition view_click :: "string \<Rightarrow> catalog_page \<Rightarrow> catalog_page" where
  "view_click v pg =
     (if view_buttons pg = [] \<or> \<not> has_container pg \<or> v \<notin> set (view_buttons pg) then pg
      else let f = (currentFilters pg)\<lparr>view := JStr v\<rparr>
           in pg\<lparr>active_view := Some v, list_layout := Some (v = ''list''), currentFilters := f,
                 store := saveUserPreferences f (store pg)\<rparr>)"

definition slider_input :: "string \<Rightarrow> catalog_page \<Rightarrow> catalog_page" where
  "slider_input v pg =
     (let value = parse_int v
      in (updatePriceDisplay ''0'' (num_text value) pg)\<lparr>slider_value := v, max_input := num_text value\<rparr>)"

definition min_price_input :: "string \<Rightarrow> catalog_page \<Rightarrow> catalog_page" where
  "min_price_input v pg =
     (let value = js_or (parse_int v) 0;
          pg1 = (set_filters (\<lambda>f. f\<lparr>minPrice := value\<rparr>) pg)\<lparr>min_input := v\<rparr>
      in updatePriceDisplay (show_int value) (show_int (maxPrice (currentFilters pg1))) pg1)"

definition max_price_input :: "string \<Rightarrow> catalog_page \<Rightarrow> catalog_page" where
  "max_price_input v pg =
     (let value = js_or (parse_int v) (maxPrice (currentFilters pg));
          pg1 = (set_filters (\<lambda>f. f\<lparr>maxPrice := value\<rparr>) pg)\<lparr>max_input := v, slider_value := show_int value\<rparr>
      in updatePriceDisplay (show_int (minPrice (currentFilters pg1))) (show_int value) pg1)"

definition apply_price_click :: "catalog_page \<Rightarrow> catalog_page" where
  "apply_price_click pg =
     refilter (set_filters (\<lambda>f. f\<lparr>minPrice := js_or (parse_int (min_input pg)) 0,
                                   maxPrice := js_or (parse_int (max_input pg)) 1000000\<rparr>) pg)"

definition in_stock_change :: "bool \<Rightarrow> catalog_page \<Rightarrow> catalog_page" where
  "in_stock_change b pg = refilter ((set_filters (\<lambda>f. f\<lparr>inStock_filter := b\<rparr>) pg)\<lparr>in_stock_box := b\<rparr>)"

definition on_sale_change :: "bool \<Rightarrow> catalog_page \<Rightarrow> catalog_page" where
  "on_sale_change b pg = refilter ((set_filters (\<lambda>f. f\<lparr>onSale_filter := b\<rparr>) pg)\<lparr>on_sale_box := b\<rparr>)"

definition new_arrivals_change :: "bool \<Rightarrow> catalog_page \<Rightarrow> catalog_page" where
  "new_arrivals_change b pg =
     refilter ((set_filters (\<lambda>f. f\<lparr>newArrivals := b\<rparr>) pg)\<lparr>new_arrivals_box := b\<rparr>)"

text \<open>\<open>initRadioFilters\<close>: the radio with this id became checked.\<close>

definition rating_change :: "string \<Rightarrow> catalog_page \<Rightarrow> catalog_page" where
  "rating_change rid pg =
     refilter ((set_filters (\<lambda>f. f\<lparr>rating_filter := parse_int (js_remove_first ''rating-'' rid)\<rparr>) pg)
                 \<lparr>rating_checked := Some rid\<rparr>)"

text \<open>\<open>initSortControls\<close>: re-sort the current list and redisplay it; no re-filtering, no
  count update, no save.\<close>

definition sort_change :: "string \<Rightarrow> catalog_page \<Rightarrow> catalog_page" where
  "sort_change v pg =
     (let pg1 = (set_filters (\<lambda>f. f\<lparr>sortBy := JStr v\<rparr>) pg)\<lparr>sort_select := v\<rparr>;
          fp = sort_products (currentFilters pg1) (filteredProducts pg1)
      in pg1\<lparr>filteredProducts := fp,
             grid := (if has_container pg1 then displayProducts (allProducts pg1) fp (grid pg1)
                      else grid pg1)\<rparr>)"

definition resetAllFilters :: "catalog_page \<Rightarrow> catalog_page" where
  "resetAllFilters pg =
     (updatePriceDisplay ''0'' ''1000000''
       (pg\<lparr>currentFilters := initial_filters\<lparr>view := view (currentFilters pg)\<rparr>,
           min_input := ''0'', max_input := ''1000000'', slider_value := ''1000000'',
           in_stock_box := True, on_sale_box := False, new_arrivals_box := False,
           rating_checked := None, sort_select := ''newest''\<rparr>))"

text \<open>The reset button's delayed callback.\<close>

definition reset_filters :: "catalog_page \<Rightarrow> catalog_page" where
  "reset_filters pg =
     (let pg1 = refilter (resetAllFilters pg) in pg1\<lparr>toasts := toasts pg1 @ [(MsgFiltersReset, Success)]\<rparr>)"

text \<open>The \<open>switch\<close> of \<open>removeFilter\<close>: clear one filter and its control.\<close>

definition clearFilter :: "filter_tag \<Rightarrow> catalog_page \<Rightarrow> catalog_page" where
  "clearFilter t pg =
     (case t of
       TagPrice \<Rightarrow> updatePriceDisplay ''0'' ''1000000''
                   ((set_filters (\<lambda>f. f\<lparr>minPrice := 0, maxPrice := 1000000\<rparr>) pg)
                      \<lparr>min_input := ''0'', max_input := ''1000000'', slider_value := ''1000000''\<rparr>)
     | TagOnSale \<Rightarrow> (set_filters (\<lambda>f. f\<lparr>onSale_filter := False\<rparr>) pg)\<lparr>on_sale_box := False\<rparr>
     | TagNewArrivals \<Rightarrow> (set_filters (\<lambda>f. f\<lparr>newArrivals := False\<rparr>) pg)\<lparr>new_arrivals_box := False\<rparr>
     | TagRating \<Rightarrow> (set_filters (\<lambda>f. f\<lparr>rating_filter := None\<rparr>) pg)\<lparr>rating_checked := None\<rparr>)"

definition removeFilter :: "filter_tag \<Rightarrow> catalog_page \<Rightarrow> catalog_page" where
  "removeFilter t pg = refilter (clearFilter t pg)"

section \<open>Initialisation\<close>

definition loadProductsData :: "card list \<Rightarrow> catalog_page \<Rightarrow> catalog_page" where
  "loadProductsData cards pg =
     (if has_container pg
      then pg\<lparr>allProducts := load_products cards, filteredProducts := load_products cards\<rparr>
      else pg)"

text \<open>\<open>sortSelect.value = v\<close>: a value that is no option of the select selects nothing.\<close>

definition sort_options :: "string list" where
  "sort_options = [''newest'', ''price-asc'', ''price-desc'', ''name-asc'', ''name-desc'', ''popular'']"

definition select_value :: "json \<Rightarrow> string" where
  "select_value w = (case w of JStr s \<Rightarrow> if s \<in> set sort_options then s else [] | _ \<Rightarrow> [])"

text \<open>\<open>restoreUserPreferences\<close>: the view is copied and its button clicked (which saves the
  preferences as they are at that moment), then the sort key is copied.\<close>

definition restoreUserPreferences :: "catalog_page \<Rightarrow> catalog_page" where
  "restoreUserPreferences pg =
     (case load_preferences (store pg) of
        None \<Rightarrow> pg
      | Some v \<Rightarrow>
          let pg1 = (case truthy_field v ''view'' of
                       None \<Rightarrow> pg
                     | Some w \<Rightarrow>
                         let pgv = set_filters (\<lambda>f. f\<lparr>view := w\<rparr>) pg
                         in (case w of JStr s \<Rightarrow> view_click s pgv | _ \<Rightarrow> pgv))
          in (case truthy_field v ''sortBy'' of
                None \<Rightarrow> pg1
              | Some w \<Rightarrow> (set_filters (\<lambda>f. f\<lparr>sortBy := w\<rparr>) pg1)\<lparr>sort_select := select_value w\<rparr>))"

text \<open>The \<open>DOMContentLoaded\<close> handler; the other initialisers only attach listeners.\<close>

definition catalog_init :: "card list \<Rightarrow> catalog_page \<Rightarrow> catalog_page" where
  "catalog_init cards pg = restoreUserPreferences (loadProductsData cards pg)"

section \<open>Events\<close>

fun catalog_step :: "catalog_page \<Rightarrow> catalog_event \<Rightarrow> catalog_page" where
  "catalog_step pg (ViewToggle v) = view_click v pg"
| "catalog_step pg (SliderInput v) = (if has_slider pg then slider_input v pg else pg)"
| "catalog_step pg (MinPriceInput v) = (if has_slider pg then min_price_input v pg else pg)"
| "catalog_step pg (MaxPriceInput v) = (if has_slider pg then max_price_input v pg else pg)"
| "catalog_step pg ApplyPrice = (if has_slider pg then apply_price_click pg else pg)"
| "catalog_step pg (InStockChange b) = in_stock_change b pg"
| "catalog_step pg (OnSaleChange b) = on_sale_change b pg"
| "catalog_step pg (NewArrivalsChange b) = new_arrivals_change b pg"
| "catalog_step pg (RatingChange rid) = rating_change rid pg"
| "catalog_step pg (SortChange v) = sort_change v pg"
| "catalog_step pg ResetFilters = reset_filters pg"
| "catalog_step pg (RemoveTag t) = removeFilter t pg"

primrec catalog_run :: "catalog_page \<Rightarrow> catalog_event list \<Rightarrow> catalog_page" where
  "catalog_run pg [] = pg"
| "catalog_run pg (e # es) = catalog_run (catalog_step pg e) es"

inductive reachable_page :: "catalog_page \<Rightarrow> bool" where
  init: "reachable_page (catalog_init cards (fresh_page st bs))"
| step: "reachable_page pg \<Longrightarrow> reachable_page (catalog_step pg e)"

text \<open>The events whose handler ends in \<open>applyFilters\<close>.\<close>

fun refilters :: "catalog_event \<Rightarrow> bool" where
  "refilters ApplyPrice = True"
| "refilters (InStockChange b) = True"
| "refilters (OnSaleChange b) = True"
| "refilters (NewArrivalsChange b) = True"
| "refilters (RatingChange rid) = True"
| "refilters ResetFilters = True"
| "refilters (RemoveTag t) = True"
| "refilters e = False"

text \<open>What every reachable page satisfies: the filtered list is drawn from the snapshot,
  the snapshot's cards are distinct DOM nodes, and the container holds at most one
  placeholder.\<close>

definition page_inv :: "catalog_page \<Rightarrow> bool" where
  "page_inv pg \<longleftrightarrow>
     mset (filteredProducts pg) \<subseteq># mset (allProducts pg) \<and> distinct (map element (allProducts pg))
     \<and> length (placeholders (grid pg)) \<le> 1"

section \<open>Lemmas\<close>

lemmas handler_defs = view_click_def slider_input_def min_price_input_def max_price_input_def
  apply_price_click_def in_stock_change_def on_sale_change_def new_arrivals_change_def
  rating_change_def sort_change_def reset_filters_def resetAllFilters_def removeFilter_def
  clearFilter_def set_filters_def updatePriceDisplay_def

lemma refilter_frame [simp]:
  "allProducts (refilter pg) = allProducts pg"
  "currentFilters (refilter pg) = currentFilters pg"
  "store (refilter pg) = store pg"
  "has_container (refilter pg) = has_container pg"
  "has_slider (refilter pg) = has_slider pg"
  by (simp_all add: refilter_def updateActiveFilters_def applyFilters_def Let_def)

lemma refilter_filtered:
  "filteredProducts (refilter pg) = catalog_view (currentFilters pg) (allProducts pg)"
  by (simp add: refilter_def updateActiveFilters_def applyFilters_def Let_def catalog_view_def
      filter_products_def product_passes_eq_accepts)

lemma refilter_grid:
  "grid (refilter pg) =
     updateProductCount (filteredProducts (refilter pg))
       (if has_container pg then displayProducts (allProducts pg) (filteredProducts (refilter pg)) (grid pg)
        else grid pg)"
  by (simp add: refilter_def updateActiveFilters_def applyFilters_def Let_def)

lemma updateProductCount_fields [simp]:
  "styles (updateProductCount fp d) = styles d"
  "placeholders (updateProductCount fp d) = placeholders d"
  "timers (updateProductCount fp d) = timers d"
  by (simp_all add: updateProductCount_def)

lemma catalog_step_allProducts [simp]: "allProducts (catalog_step pg e) = allProducts pg"
  by (cases e) (auto simp: handler_defs Let_def split: filter_tag.splits)

lemma catalog_step_has_container [simp]: "has_container (catalog_step pg e) = has_container pg"
  by (cases e) (auto simp: handler_defs Let_def split: filter_tag.splits)

lemma catalog_run_allProducts: "allProducts (catalog_run pg es) = allProducts pg"
  by (induction es arbitrary: pg) auto

lemma settle_updateProductCount [simp]: "styles (settle (updateProductCount fp d)) = styles (settle d)"
  by (rule ext) (simp add: settle_styles)

lemma view_click_frame [simp]:
  "allProducts (view_click v pg) = allProducts pg"
  "filteredProducts (view_click v pg) = filteredProducts pg"
  "grid (view_click v pg) = grid pg"
  by (simp_all add: view_click_def Let_def)

lemma restore_frame [simp]:
  "allProducts (restoreUserPreferences pg) = allProducts pg"
  "filteredProducts (restoreUserPreferences pg) = filteredProducts pg"
  "grid (restoreUserPreferences pg) = grid pg"
  by (auto simp: restoreUserPreferences_def set_filters_def Let_def
      split: option.splits json.splits)

lemma refilter_inv:
  assumes "distinct (map element (allProducts pg))" and "length (placeholders (grid pg)) \<le> 1"
  shows "page_inv (refilter pg)"
proof -
  have "mset (filteredProducts (refilter pg)) \<subseteq># mset (allProducts pg)"
    by (simp add: refilter_filtered catalog_view_def sort_products_def multiset_filter_subset)
  moreover have "length (placeholders (grid (refilter pg))) \<le> 1"
    using assms(2) placeholder_displayProducts by (simp add: refilter_grid)
  ultimately show ?thesis using assms(1) by (simp add: page_inv_def)
qed

lemma page_inv_init: "page_inv (catalog_init cards (fresh_page st bs))"
  by (simp add: catalog_init_def loadProductsData_def fresh_page_def page_inv_def
      element_load_products initial_dom_def)

lemma page_inv_step:
  assumes "page_inv pg"
  shows "page_inv (catalog_step pg e)"
proof -
  from assms have d: "distinct (map element (allProducts pg))"
    and p: "length (placeholders (grid pg)) \<le> 1"
    and m: "mset (filteredProducts pg) \<subseteq># mset (allProducts pg)"
    by (simp_all add: page_inv_def)
  have r: "page_inv (refilter q)" if "allProducts q = allProducts pg" "grid q = grid pg" for q
    using d p that by (simp add: refilter_inv)
  show ?thesis
  proof (cases e)
    case (SortChange v)
    have "length (placeholders (displayProducts (allProducts pg) fp (grid pg))) \<le> 1" for fp
      using p placeholder_displayProducts by blast
    with SortChange d p m show ?thesis
      by (simp add: page_inv_def sort_change_def sort_products_def Let_def set_filters_def)
  next
    case (RemoveTag t)
    then show ?thesis
      by (cases t) (simp_all add: removeFilter_def clearFilter_def r set_filters_def updatePriceDisplay_def)
  next
    case ResetFilters
    with r[of "resetAllFilters pg"] show ?thesis
      by (simp add: reset_filters_def Let_def page_inv_def resetAllFilters_def updatePriceDisplay_def)
  next
    case ApplyPrice
    then show ?thesis using assms by (simp add: r set_filters_def apply_price_click_def)
  next
    case (InStockChange b)
    then show ?thesis by (simp add: r set_filters_def in_stock_change_def)
  next
    case (OnSaleChange b)
    then show ?thesis by (simp add: r set_filters_def on_sale_change_def)
  next
    case (NewArrivalsChange b)
    then show ?thesis by (simp add: r set_filters_def new_arrivals_change_def)
  next
    case (RatingChange rid)
    then show ?thesis by (simp add: r set_filters_def rating_change_def)
  qed (use assms in \<open>simp_all add: page_inv_def Let_def set_filters_def updatePriceDisplay_def
      slider_input_def min_price_input_def max_price_input_def\<close>)
qed

lemma visible_cards_updateProductCount [simp]:
  "visible_cards allp (settle (updateProductCount fp d)) = visible_cards allp (settle d)"
proof -
  have "card_visible (settle (updateProductCount fp d)) = card_visible (settle d)"
    by (rule ext) (simp add: card_visible_def)
  then show ?thesis by (simp add: visible_cards_def)
qed

lemma refilter_visible_own:
  assumes "distinct (map element (allProducts q))" and "has_container q"
  shows "visible_cards (allProducts q) (settle (grid (refilter q))) =
           map element (filter (catalog_accepts (currentFilters q)) (allProducts q))"
proof -
  let ?f = "currentFilters q" and ?all = "allProducts q"
  have s: "set (catalog_view ?f ?all) = {x \<in> set ?all. catalog_accepts ?f x}"
    by (auto simp: catalog_view_def sort_products_def)
  have "visible_cards ?all (settle (grid (refilter q))) =
          visible_cards ?all (settle (displayProducts ?all (catalog_view ?f ?all) (grid q)))"
    using assms(2) by (simp add: refilter_grid refilter_filtered)
  also have "\<dots> = filter (\<lambda>e. e \<in> element ` {x \<in> set ?all. catalog_accepts ?f x}) (map element ?all)"
    by (simp add: visible_cards_displayProducts s)
  also have "\<dots> = map element (filter (catalog_accepts ?f) ?all)"
    using assms(1) by (rule filter_image_member_map)
  finally show ?thesis .
qed

lemma refilter_visible:
  "allProducts q = allp \<Longrightarrow> distinct (map element allp) \<Longrightarrow> has_container q \<Longrightarrow>
   visible_cards allp (settle (grid (refilter q))) =
     map element (filter (catalog_accepts (currentFilters q)) allp)"
  using refilter_visible_own[of q] by simp

text \<open>Every event that ends in \<open>applyFilters\<close> leaves the page as \<open>refilter\<close>
  leaves some page \<open>q\<close> that has the old snapshot and grid and the new filters.\<close>

lemma refilter_event_shape:
  assumes "refilters e" and "e = ApplyPrice \<longrightarrow> has_slider pg"
  shows "\<exists>q. filteredProducts (catalog_step pg e) = filteredProducts (refilter q) \<and>
             grid (catalog_step pg e) = grid (refilter q) \<and>
             currentFilters (catalog_step pg e) = currentFilters q \<and>
             allProducts q = allProducts pg \<and> grid q = grid pg \<and> has_container q = has_container pg"
  using assms
proof (induction e)
  case (RemoveTag t)
  show ?case
    by (simp add: removeFilter_def, rule exI[of _ "clearFilter t pg"], cases t)
       (simp_all add: clearFilter_def set_filters_def updatePriceDisplay_def)
next
  case ResetFilters
  show ?case
    by (simp add: reset_filters_def Let_def, rule exI[of _ "resetAllFilters pg"])
       (simp add: resetAllFilters_def updatePriceDisplay_def)
qed (simp_all add: apply_price_click_def in_stock_change_def on_sale_change_def
       new_arrivals_change_def rating_change_def,
     (rule exI, rule conjI, rule refl, simp add: set_filters_def)+)

lemma placeholder_shown_updateProductCount [simp]:
  "placeholder_shown (updateProductCount fp d) = placeholder_shown d"
  by (simp add: placeholder_shown_def)

lemma restore_filters_flags [simp]:
  "inStock_filter (currentFilters (restoreUserPreferences pg)) = inStock_filter (currentFilters pg)"
  by (auto simp: restoreUserPreferences_def set_filters_def view_click_def Let_def
      split: option.splits json.splits)

lemma saveUserPreferences_twice [simp]:
  "saveUserPreferences f (saveUserPreferences g st) = saveUserPreferences f st"
  by (simp add: saveUserPreferences_def)

lemma catalog_init_saved:
  assumes "writable st" "readable st" "v \<in> set bs" "v \<noteq> []" "s \<noteq> []"
  shows "currentFilters (catalog_init cards (fresh_page
           (saveUserPreferences (initial_filters\<lparr>view := JStr v, sortBy := JStr s\<rparr>) st) bs)) =
           initial_filters\<lparr>view := JStr v, sortBy := JStr s\<rparr> \<and>
         store (catalog_init cards (fresh_page
           (saveUserPreferences (initial_filters\<lparr>view := JStr v, sortBy := JStr s\<rparr>) st) bs)) =
           saveUserPreferences (initial_filters\<lparr>view := JStr v\<rparr>) st"
  using assms
  by (auto simp: catalog_init_def loadProductsData_def restoreUserPreferences_def load_saved
      truthy_field_prefs_json fresh_page_def view_click_def set_filters_def Let_def)

lemma parse_float_500: "parse_float ''500'' = Some 500"
  by (simp add: parse_float_def strip_sign_def exponent_part_def pow10_def digits_to_nat_def Let_def js_char_simps)

section \<open>Properties of the page\<close>

text \<open>C2: on every page the initialisation and any sequence of events reach, the filtered
  list is a sub-multiset of the snapshot, the snapshot's cards are distinct DOM nodes, and
  the container holds at most one no-results placeholder.\<close>

theorem reachable_page_inv: "reachable_page pg \<Longrightarrow> page_inv pg"
  by (induction rule: reachable_page.induct) (simp_all add: page_inv_init page_inv_step)

theorem reachable_page_inv_witness:
  "page_inv (catalog_step (catalog_init [\<lparr>data_price = Some ''500'', data_category = Some ''phones'', data_name = Some ''Phone'',
       has_stock_out = True, has_badge_sale = False, has_badge_new = False\<rparr>]
     (fresh_page empty_storage [''grid'', ''list''])) (InStockChange False))"
  by (rule reachable_page_inv[OF reachable_page.step[OF reachable_page.init]])

text \<open>C1: after every event whose handler re-filters (the checkboxes, the rating radios,
  the apply button, reset and tag removal), \<open>filteredProducts\<close> is the catalog view of
  spec section 4 for the new filters, and once the fade-in has run the cards seen are
  exactly the accepted products, in container order.\<close>

theorem refilter_event_view:
  assumes "page_inv pg" and "refilters e" and "e = ApplyPrice \<longrightarrow> has_slider pg"
  shows "filteredProducts (catalog_step pg e) =
           catalog_view (currentFilters (catalog_step pg e)) (allProducts pg) \<and>
         (has_container pg \<longrightarrow>
           visible_cards (allProducts pg) (settle (grid (catalog_step pg e))) =
             map element (filter (catalog_accepts (currentFilters (catalog_step pg e))) (allProducts pg)))"
proof -
  from assms(1) have d: "distinct (map element (allProducts pg))" by (simp add: page_inv_def)
  from refilter_event_shape[OF assms(2,3)] obtain q where
    "filteredProducts (catalog_step pg e) = filteredProducts (refilter q)"
    "grid (catalog_step pg e) = grid (refilter q)"
    "currentFilters (catalog_step pg e) = currentFilters q"
    "allProducts q = allProducts pg" "has_container q = has_container pg"
    by blast
  with d show ?thesis by (simp add: refilter_filtered refilter_visible)
qed


theorem refilter_event_view_witness:
  "filteredProducts (catalog_step (catalog_init [\<lparr>data_price = Some ''500'', data_category = Some ''phones'',
       data_name = Some ''Phone'', has_stock_out = True, has_badge_sale = False, has_badge_new = False\<rparr>]
     (fresh_page empty_storage [''grid'', ''list''])) (InStockChange False)) =
   [\<lparr>element = 0, price = 500, category = ''phones'', name = ''Phone'', inStock = False,
       onSale = False, isNew = False, rating = 4\<rparr>]"
proof -
  have i: "page_inv (catalog_init [\<lparr>data_price = Some ''500'', data_category = Some ''phones'',
       data_name = Some ''Phone'', has_stock_out = True, has_badge_sale = False, has_badge_new = False\<rparr>]
     (fresh_page empty_storage [''grid'', ''list'']))"
    by (rule page_inv_init)
  show ?thesis
    using conjunct1[OF refilter_event_view[OF i, of "InStockChange False"]]
    by (simp add: parse_float_500 catalog_init_def loadProductsData_def fresh_page_def load_products_def
      scan_card_def attr_string_def attr_or_empty_def restoreUserPreferences_def load_empty_storage
      in_stock_change_def set_filters_def catalog_view_def catalog_accepts_def initial_filters_def
      sort_products_def compare_products_def)
qed

text \<open>C9: preferences saved with a view whose button exists and a non-empty sort key are restored by the next page load: the view and the sort key come back.\<close>

theorem restore_roundtrip:
  assumes "writable st" "readable st" "v \<in> set bs" "v \<noteq> []" "s \<noteq> []"
  shows "view (currentFilters (catalog_init cards (fresh_page
           (saveUserPreferences (initial_filters\<lparr>view := JStr v, sortBy := JStr s\<rparr>) st) bs))) = JStr v \<and>
         sortBy (currentFilters (catalog_init cards (fresh_page
           (saveUserPreferences (initial_filters\<lparr>view := JStr v, sortBy := JStr s\<rparr>) st) bs))) = JStr s"
  using catalog_init_saved[OF assms] by simp

theorem restore_roundtrip_witness:
  "view (currentFilters (catalog_init [] (fresh_page
      (saveUserPreferences (initial_filters\<lparr>view := JStr ''list'', sortBy := JStr ''price-asc''\<rparr>)
        empty_storage) [''grid'', ''list'']))) = JStr ''list'' \<and>
   sortBy (currentFilters (catalog_init [] (fresh_page
      (saveUserPreferences (initial_filters\<lparr>view := JStr ''list'', sortBy := JStr ''price-asc''\<rparr>)
        empty_storage) [''grid'', ''list'']))) = JStr ''price-asc''"
  by (rule restore_roundtrip) (simp_all add: empty_storage_def)

text \<open>C10: \<open>restoreUserPreferences\<close> clicks the restored view button before it copies the sort key, and the click saves the preferences with the default sort key; after a second page load the saved sort key is lost and the sort is back to \<open>newest\<close>.\<close>

theorem restore_clobbers_sort:
  assumes "writable st" "readable st" "v \<in> set bs" "v \<noteq> []" "s \<noteq> []"
  shows "sortBy (currentFilters (catalog_init cards' (fresh_page (store (catalog_init cards (fresh_page
           (saveUserPreferences (initial_filters\<lparr>view := JStr v, sortBy := JStr s\<rparr>) st) bs))) bs))) =
         JStr ''newest''"
proof -
  have n: "initial_filters\<lparr>view := JStr v\<rparr> = initial_filters\<lparr>view := JStr v, sortBy := JStr ''newest''\<rparr>"
    by (simp add: initial_filters_def)
  have "store (catalog_init cards (fresh_page
          (saveUserPreferences (initial_filters\<lparr>view := JStr v, sortBy := JStr s\<rparr>) st) bs)) =
        saveUserPreferences (initial_filters\<lparr>view := JStr v\<rparr>) st"
    using catalog_init_saved[OF assms] by simp
  then have "store (catalog_init cards (fresh_page
          (saveUserPreferences (initial_filters\<lparr>view := JStr v, sortBy := JStr s\<rparr>) st) bs)) =
        saveUserPreferences (initial_filters\<lparr>view := JStr v, sortBy := JStr ''newest''\<rparr>) st"
    by (metis n)
  then show ?thesis
    using catalog_init_saved[OF assms(1-4), where s = "''newest''" and cards = cards'] by simp
qed

theorem restore_clobbers_sort_witness:
  "sortBy (currentFilters (catalog_init [] (fresh_page (store (catalog_init [] (fresh_page
      (saveUserPreferences (initial_filters\<lparr>view := JStr ''list'', sortBy := JStr ''price-asc''\<rparr>)
        empty_storage) [''grid'', ''list''])) ) [''grid'', ''list'']))) = JStr ''newest''"
  by (rule restore_clobbers_sort) (simp_all add: empty_storage_def)

text \<open>C11: the initial load shows every card: \<open>loadProductsData\<close> sets \<open>filteredProducts\<close> to the whole snapshot without applying \<open>currentFilters\<close>, although the in-stock filter is on by default (spec section 4.1); out-of-stock cards stay visible until the first filter event.\<close>

theorem init_shows_unfiltered:
  "filteredProducts (catalog_init cards (fresh_page st bs)) = load_products cards \<and>
   inStock_filter (currentFilters (catalog_init cards (fresh_page st bs))) \<and>
   visible_cards (allProducts (catalog_init cards (fresh_page st bs)))
     (settle (grid (catalog_init cards (fresh_page st bs)))) = [0..<length cards]"
  by (simp add: catalog_init_def loadProductsData_def fresh_page_def initial_filters_def
      visible_cards_def card_visible_def settle_def initial_dom_def element_load_products)

theorem init_shows_unfiltered_witness:
  "filteredProducts (catalog_init [\<lparr>data_price = Some ''500'', data_category = Some ''phones'', data_name = Some ''Phone'',
       has_stock_out = True, has_badge_sale = False, has_badge_new = False\<rparr>]
     (fresh_page empty_storage [''grid'', ''list''])) = [\<lparr>element = 0, price = 500, category = ''phones'', name = ''Phone'', inStock = False,
       onSale = False, isNew = False, rating = 4\<rparr>] \<and>
   visible_cards (allProducts (catalog_init [\<lparr>data_price = Some ''500'', data_category = Some ''phones'', data_name = Some ''Phone'',
       has_stock_out = True, has_badge_sale = False, has_badge_new = False\<rparr>]
     (fresh_page empty_storage [''grid'', ''list'']))) (settle (grid (catalog_init [\<lparr>data_price = Some ''500'', data_category = Some ''phones'', data_name = Some ''Phone'',
       has_stock_out = True, has_badge_sale = False, has_badge_new = False\<rparr>]
     (fresh_page empty_storage [''grid'', ''list''])))) = [0]"
  using init_shows_unfiltered[of "[\<lparr>data_price = Some ''500'', data_category = Some ''phones'', data_name = Some ''Phone'',
       has_stock_out = True, has_badge_sale = False, has_badge_new = False\<rparr>]" empty_storage "[''grid'', ''list'']"]
  by (simp add: parse_float_500 load_products_def scan_card_def attr_string_def attr_or_empty_def)

text \<open>Changing the sort select updates \<open>currentFilters.sortBy\<close> but never writes the preferences to storage (spec sections 3 and 4.4 say the preferences are written on every view or sort change).\<close>

theorem sort_change_not_saved:
  "store (catalog_step pg (SortChange v)) = store pg \<and>
   sortBy (currentFilters (catalog_step pg (SortChange v))) = JStr v"
  by (simp add: sort_change_def set_filters_def Let_def)

theorem sort_change_not_saved_witness:
  "store (catalog_step (fresh_page empty_storage []) (SortChange ''price-asc'')) = empty_storage"
  using sort_change_not_saved[of "fresh_page empty_storage []" "''price-asc''"]
  by (simp add: fresh_page_def)

text \<open>C13: typing 0 as the maximum price keeps the previous maximum (\<open>parseInt(v) || current\<close>), and applying a typed 0 sets the maximum to 1000000.\<close>

theorem max_price_zero_ignored:
  "has_slider pg \<Longrightarrow>
   maxPrice (currentFilters (catalog_step pg (MaxPriceInput ''0''))) = maxPrice (currentFilters pg) \<and>
   maxPrice (currentFilters (catalog_run pg [MaxPriceInput ''0'', ApplyPrice])) = 1000000"
  by (simp add: max_price_input_def apply_price_click_def set_filters_def updatePriceDisplay_def Let_def)

theorem max_price_zero_ignored_witness:
  "maxPrice (currentFilters (catalog_step (fresh_page empty_storage []) (MaxPriceInput ''0''))) = 1000000 \<and>
   maxPrice (currentFilters (catalog_run (fresh_page empty_storage []) [MaxPriceInput ''0'', ApplyPrice])) =
     1000000"
  using max_price_zero_ignored[of "fresh_page empty_storage []"]
  by (simp add: fresh_page_def initial_filters_def)

text \<open>C14: after the reset, the filtered list is the snapshot restricted to the in-stock products priced in the default range, in snapshot order: the in-stock filter stays on, so out-of-stock products are not brought back.\<close>

theorem reset_filters_view:
  "filteredProducts (catalog_step pg ResetFilters) =
     filter (\<lambda>p. 0 \<le> price p \<and> price p \<le> 1000000 \<and> inStock p) (allProducts pg)"
proof -
  have "sort_choice_of (sortBy (currentFilters (resetAllFilters pg))) = Newest"
    by (simp add: resetAllFilters_def updatePriceDisplay_def initial_filters_def sort_choice_of_def)
  then show ?thesis
    by (simp add: reset_filters_def Let_def refilter_filtered catalog_view_def sort_products_def
        compare_products_Newest js_sort_zero resetAllFilters_def updatePriceDisplay_def initial_filters_def)
       (rule filter_cong, simp_all add: catalog_accepts_def)
qed

theorem reset_filters_view_witness:
  "filteredProducts (catalog_step (catalog_init [\<lparr>data_price = Some ''500'', data_category = Some ''phones'', data_name = Some ''Phone'',
       has_stock_out = True, has_badge_sale = False, has_badge_new = False\<rparr>]
     (fresh_page empty_storage [''grid'', ''list''])) ResetFilters) = []"
  using reset_filters_view[of "(catalog_init [\<lparr>data_price = Some ''500'', data_category = Some ''phones'', data_name = Some ''Phone'',
       has_stock_out = True, has_badge_sale = False, has_badge_new = False\<rparr>]
     (fresh_page empty_storage [''grid'', ''list'']))"]
  by (simp add: parse_float_500 catalog_init_def loadProductsData_def fresh_page_def load_products_def
      scan_card_def attr_string_def attr_or_empty_def restoreUserPreferences_def load_empty_storage)

text \<open>C15: after every re-filtering event on a page with a product container, the container holds at most one no-results placeholder, and it is shown exactly when the filtered list is empty.\<close>

theorem refilter_placeholder:
  assumes "page_inv pg" and "refilters e" and "e = ApplyPrice \<longrightarrow> has_slider pg"
    and "has_container pg"
  shows "length (placeholders (grid (catalog_step pg e))) \<le> 1 \<and>
         (placeholder_shown (grid (catalog_step pg e)) \<longleftrightarrow> filteredProducts (catalog_step pg e) = [])"
proof -
  from assms(1) have p: "length (placeholders (grid pg)) \<le> 1" by (simp add: page_inv_def)
  from refilter_event_shape[OF assms(2,3)] obtain q where
    "filteredProducts (catalog_step pg e) = filteredProducts (refilter q)"
    "grid (catalog_step pg e) = grid (refilter q)"
    "allProducts q = allProducts pg" "grid q = grid pg" "has_container q = has_container pg"
    by blast
  with placeholder_displayProducts[OF p] assms(4) show ?thesis by (simp add: refilter_grid)
qed

theorem refilter_placeholder_witness:
  "placeholder_shown (grid (catalog_step (catalog_init [\<lparr>data_price = Some ''500'', data_category = Some ''phones'', data_name = Some ''Phone'',
       has_stock_out = True, has_badge_sale = False, has_badge_new = False\<rparr>]
     (fresh_page empty_storage [''grid'', ''list''])) (OnSaleChange True)))"
proof -
  have i: "page_inv (catalog_init [\<lparr>data_price = Some ''500'', data_category = Some ''phones'', data_name = Some ''Phone'',
       has_stock_out = True, has_badge_sale = False, has_badge_new = False\<rparr>]
     (fresh_page empty_storage [''grid'', ''list'']))"
    by (rule page_inv_init)
  have "filteredProducts (catalog_step (catalog_init [\<lparr>data_price = Some ''500'', data_category = Some ''phones'', data_name = Some ''Phone'',
       has_stock_out = True, has_badge_sale = False, has_badge_new = False\<rparr>]
     (fresh_page empty_storage [''grid'', ''list''])) (OnSaleChange True)) = []"
    by (simp add: parse_float_500 catalog_init_def loadProductsData_def fresh_page_def load_products_def
      scan_card_def attr_string_def attr_or_empty_def restoreUserPreferences_def load_empty_storage
      on_sale_change_def set_filters_def refilter_filtered catalog_view_def catalog_accepts_def
      initial_filters_def sort_products_def)
  then show ?thesis
    using refilter_placeholder[OF i, of "OnSaleChange True"]
    by (simp add: catalog_init_def loadProductsData_def fresh_page_def restoreUserPreferences_def
      load_empty_storage)
qed

end
