(* ===== verification/Cookies.thy ===== *)
theory Cookies
  imports Prelude
begin

text \<open>
  Cookie lookup: \<open>getCookie(name)\<close> of \<open>main.js\<close> and \<open>accounts/profile.js\<close>, and the
  copies \<open>getCSRFToken()\<close> of \<open>shop/product-list.js\<close> and \<open>shop/product-detail.js\<close>
  that fix the name to \<open>csrftoken\<close>. \<open>document.cookie\<close> is a string; the code splits it at
  \<open>;\<close>, trims every piece, takes the first piece that starts with \<open>name=\<close> and
  percent-decodes the rest with \<open>decodeURIComponent\<close>, which throws \<open>URIError\<close> on a
  malformed escape. The throw is the \<open>Inl\<close> branch of the result; \<open>Inr None\<close> is the
  \<open>null\<close> the functions return when no cookie matches. Strings are byte strings, so
  \<open>decodeURIComponent\<close> is modelled on escapes of ASCII characters; an escape of a byte
  above 127 (the start of a multi-byte UTF-8 sequence) is outside the model and is treated
  as malformed.
\<close>

datatype uri_error = URIError

section \<open>Built-ins\<close>

text \<open>\<open>s.split(d)\<close> with a one-character separator: the empty string splits into one
  empty piece.\<close>

fun split_on :: "char \<Rightarrow> string \<Rightarrow> string list" where
  "split_on d [] = [[]]"
| "split_on d (c # cs) =
     (let r = split_on d cs in if c = d then [] # r else (c # hd r) # tl r)"

definition hex_val :: "char \<Rightarrow> nat option" where
  "hex_val c =
     (if is_digit c then Some (digit_val c)
      else if CHR ''a'' \<le> c \<and> c \<le> CHR ''f'' then Some (of_char c - 87)
      else if CHR ''A'' \<le> c \<and> c \<le> CHR ''F'' then Some (of_char c - 55)
      else None)"

fun decode_uri :: "string \<Rightarrow> uri_error + string" where
  "decode_uri [] = Inr []"
| "decode_uri (c # cs) =
     (if c \<noteq> CHR ''%'' then map_sum id (Cons c) (decode_uri cs)
      else case cs of
        a # b # rest \<Rightarrow>
          (case (hex_val a, hex_val b) of
             (Some x, Some y) \<Rightarrow>
               if 16 * x + y < 128 then map_sum id (Cons (char_of (16 * x + y))) (decode_uri rest)
               else Inl URIError
           | _ \<Rightarrow> Inl URIError)
      | _ \<Rightarrow> Inl URIError)"

section \<open>getCookie\<close>

text \<open>The \<open>for\<close> loop over the pieces, with its \<open>break\<close> at the first match.\<close>

fun find_cookie :: "string \<Rightarrow> string list \<Rightarrow> uri_error + string option" where
  "find_cookie name [] = Inr None"
| "find_cookie name (p # ps) =
     (let cookie = js_trim p
      in if take (length name + 1) cookie = name @ ''=''
         then map_sum id Some (decode_uri (drop (length name + 1) cookie))
         else find_cookie name ps)"

definition getCookie :: "string \<Rightarrow> string \<Rightarrow> uri_error + string option" where
  "getCookie name document_cookie =
     (if document_cookie \<noteq> [] then find_cookie name (split_on CHR '';'' document_cookie)
      else Inr None)"

definition getCSRFToken :: "string \<Rightarrow> uri_error + string option" where
  "getCSRFToken document_cookie = getCookie ''csrftoken'' document_cookie"

text \<open>The copies of the same loop in \<open>shop/product-detail.js\<close> (\<open>getCSRFToken\<close>) and
  \<open>accounts/profile.js\<close> (\<open>getCookie\<close>), identical line for line.\<close>

definition getCSRFToken_detail :: "string \<Rightarrow> uri_error + string option" where
  "getCSRFToken_detail document_cookie = getCookie ''csrftoken'' document_cookie"

definition getCookie_profile :: "string \<Rightarrow> string \<Rightarrow> uri_error + string option" where
  "getCookie_profile name document_cookie = getCookie name document_cookie"

text \<open>The string \<open>document.cookie\<close> shows for a list of \<open>name=value\<close> pairs: the pairs
  joined by \<open>; \<close>.\<close>

fun cookie_header :: "string list \<Rightarrow> string" where
  "cookie_header [] = []"
| "cookie_header [c] = c"
| "cookie_header (c # cs) = c @ ''; '' @ cookie_header cs"

text \<open>A pair the browser can show: a non-empty name without \<open>;\<close>, \<open>=\<close> or surrounding
  white space, and a value without \<open>;\<close> or \<open>%\<close> that does not end in white space.\<close>

definition plain_cookie :: "string \<Rightarrow> string \<Rightarrow> bool" where
  "plain_cookie n v \<longleftrightarrow>
     n \<noteq> [] \<and> \<not> is_js_space (hd n) \<and> CHR '';'' \<notin> set n \<and> CHR ''='' \<notin> set n \<and>
     CHR '';'' \<notin> set v \<and> CHR ''%'' \<notin> set v \<and> (v = [] \<or> \<not> is_js_space (last v))"

section \<open>Lemmas\<close>

lemma split_on_no_sep: "d \<notin> set s \<Longrightarrow> split_on d s = [s]"
  by (induction s) (auto simp: Let_def)

lemma split_on_append_sep: "d \<notin> set s \<Longrightarrow> split_on d (s @ d # t) = s # split_on d t"
  by (induction s) (auto simp: Let_def)

lemma split_on_cookie_header:
  "\<forall>c \<in> set (c0 # cs). CHR '';'' \<notin> set c \<Longrightarrow>
   split_on CHR '';'' (cookie_header (c0 # cs)) = c0 # map (\<lambda>s. CHR '' '' # s) cs"
proof (induction cs arbitrary: c0)
  case Nil
  then show ?case by (simp add: split_on_no_sep)
next
  case (Cons c1 cs)
  have "split_on CHR '';'' (c0 @ CHR '';'' # CHR '' '' # cookie_header (c1 # cs)) =
        c0 # split_on CHR '';'' (CHR '' '' # cookie_header (c1 # cs))"
    using Cons.prems by (simp add: split_on_append_sep)
  also have "split_on CHR '';'' (CHR '' '' # cookie_header (c1 # cs)) =
             map (\<lambda>s. CHR '' '' # s) (c1 # cs)"
    using Cons by (simp add: Let_def)
  finally show ?case by simp
qed

lemma decode_uri_plain: "CHR ''%'' \<notin> set s \<Longrightarrow> decode_uri s = Inr s"
  by (induction s) auto

lemma js_trim_plain:
  assumes "s \<noteq> []" "\<not> is_js_space (hd s)" "\<not> is_js_space (last s)"
  shows "js_trim s = s" "js_trim (CHR '' '' # s) = s"
proof -
  have d: "dropWhile is_js_space s = s"
    using assms(1,2) by (cases s) auto
  have r: "dropWhile is_js_space (rev s) = rev s"
    using assms(1,3) by (cases "rev s") (auto simp: last_rev[symmetric] hd_rev)
  show "js_trim s = s" by (simp add: js_trim_def d r)
  have "is_js_space CHR '' ''" by (simp add: is_js_space_def)
  then show "js_trim (CHR '' '' # s) = s" by (simp add: js_trim_def d r)
qed

lemma plain_cookie_trim:
  assumes "plain_cookie n v"
  shows "js_trim (n @ CHR ''='' # v) = n @ CHR ''='' # v" "js_trim (CHR '' '' # n @ CHR ''='' # v) = n @ CHR ''='' # v"
proof -
  have "n @ CHR ''='' # v \<noteq> []" "\<not> is_js_space (hd (n @ CHR ''='' # v))"
       "\<not> is_js_space (last (n @ CHR ''='' # v))"
    using assms by (auto simp: plain_cookie_def is_js_space_def)
  then show "js_trim (n @ CHR ''='' # v) = n @ CHR ''='' # v" "js_trim (CHR '' '' # n @ CHR ''='' # v) = n @ CHR ''='' # v"
    by (simp_all add: js_trim_plain)
qed

lemma takeWhile_upto_eq:
  "CHR ''='' \<notin> set xs \<Longrightarrow> takeWhile (\<lambda>c. c \<noteq> CHR ''='') (xs @ CHR ''='' # ys) = xs"
  by (induction xs) auto

text \<open>A piece of another name never matches: neither name contains \<open>=\<close>.\<close>

lemma take_other_name:
  assumes "CHR ''='' \<notin> set n" "CHR ''='' \<notin> set name" "n \<noteq> name"
  shows "take (length name + 1) (n @ CHR ''='' # v) \<noteq> name @ ''=''"
proof
  assume eq: "take (length name + 1) (n @ CHR ''='' # v) = name @ ''=''"
  have tw: "takeWhile (\<lambda>c. c \<noteq> CHR ''='') (name @ ''='') = name"
    using takeWhile_upto_eq[OF assms(2), of "[]"] by simp
  show False
  proof (cases "length n \<le> length name")
    case True
    then have "take (length name + 1) (n @ CHR ''='' # v) = n @ CHR ''='' # take (length name - length n) v"
      by (simp add: Suc_diff_le)
    then have "takeWhile (\<lambda>c. c \<noteq> CHR ''='') (take (length name + 1) (n @ CHR ''='' # v)) = n"
      using takeWhile_upto_eq[OF assms(1)] by simp
    with eq tw assms(3) show False by simp
  next
    case False
    then have t: "take (length name + 1) (n @ CHR ''='' # v) = take (length name + 1) n"
      by simp
    have "CHR ''='' \<in> set (name @ ''='')" by simp
    then have "CHR ''='' \<in> set (take (length name + 1) n)" by (simp only: eq[symmetric] t)
    then show False using assms(1) in_set_takeD by fast
  qed
qed

lemma find_cookie_skip:
  "\<forall>p \<in> set ps. take (length name + 1) (js_trim p) \<noteq> name @ ''='' \<Longrightarrow>
   find_cookie name (ps @ rest) = find_cookie name rest"
  by (induction ps) (auto simp: Let_def)

lemma find_cookie_match:
  "js_trim p = name @ CHR ''='' # v \<Longrightarrow> CHR ''%'' \<notin> set v \<Longrightarrow>
   find_cookie name (p # ps) = Inr (Some v)"
  by (simp add: Let_def decode_uri_plain)

lemma plain_other_no_match:
  assumes "plain_cookie n v" "n \<noteq> name" "CHR ''='' \<notin> set name"
  shows "take (Suc (length name)) (js_trim (n @ CHR ''='' # v)) \<noteq> name @ ''=''"
    and "take (Suc (length name)) (js_trim (CHR '' '' # n @ CHR ''='' # v)) \<noteq> name @ ''=''"
proof -
  have "take (length name + 1) (n @ CHR ''='' # v) \<noteq> name @ ''=''"
    using assms by (intro take_other_name) (simp_all add: plain_cookie_def)
  then show "take (Suc (length name)) (js_trim (n @ CHR ''='' # v)) \<noteq> name @ ''=''"
    and "take (Suc (length name)) (js_trim (CHR '' '' # n @ CHR ''='' # v)) \<noteq> name @ ''=''"
    by (simp_all only: plain_cookie_trim[OF assms(1)] not_False_eq_True Suc_eq_plus1)
qed

lemma cookie_header_nonempty: "c0 \<noteq> [] \<Longrightarrow> cookie_header (c0 # cs) \<noteq> []"
  by (cases cs) auto

section \<open>Properties\<close>

text \<open>C19: \<open>getCookie\<close> (and \<open>getCSRFToken\<close>) returns the value of the first cookie
  with the requested name from the string the browser shows, whatever precedes it
  (cookies of other names) and whatever follows it (including later cookies of the same
  name).\<close>

theorem getCookie_first_match:
  assumes before: "\<forall>(n, w) \<in> set before. plain_cookie n w \<and> n \<noteq> name"
    and own: "plain_cookie name v" and after: "\<forall>c \<in> set after. CHR '';'' \<notin> set c"
  shows "getCookie name (cookie_header (map (\<lambda>(n, w). n @ CHR ''='' # w) (before @ [(name, v)]) @ after)) =
           Inr (Some v)"
proof -
  let ?str = "\<lambda>(n, w). n @ CHR ''='' # w"
  have eq: "CHR ''='' \<notin> set name" and pct: "CHR ''%'' \<notin> set v"
    using own by (simp_all add: plain_cookie_def)
  have own_trim: "js_trim (name @ CHR ''='' # v) = name @ CHR ''='' # v"
    "js_trim (CHR '' '' # name @ CHR ''='' # v) = name @ CHR ''='' # v"
    using own by (rule plain_cookie_trim)+
  have semi: "\<forall>c \<in> set (map ?str (before @ [(name, v)]) @ after). CHR '';'' \<notin> set c"
    using before own after by (auto simp: plain_cookie_def)
  show ?thesis
  proof (cases before)
    case Nil
    with semi have "split_on CHR '';'' (cookie_header ((name @ CHR ''='' # v) # after)) =
                      (name @ CHR ''='' # v) # map (\<lambda>s. CHR '' '' # s) after"
      by (intro split_on_cookie_header) simp
    with Nil own_trim pct show ?thesis
      by (simp add: getCookie_def cookie_header_nonempty find_cookie_match decode_uri_plain)
  next
    case (Cons b bs)
    obtain bn bv where b: "b = (bn, bv)" by (cases b)
    let ?rest = "map ?str bs @ (name @ CHR ''='' # v) # after"
    from semi Cons b have sp: "split_on CHR '';'' (cookie_header ((bn @ CHR ''='' # bv) # ?rest)) =
        (bn @ CHR ''='' # bv) # map (\<lambda>s. CHR '' '' # s) ?rest"
      by (intro split_on_cookie_header) simp
    have skip: "\<forall>p \<in> set ((bn @ CHR ''='' # bv) # map (\<lambda>s. CHR '' '' # s) (map ?str bs)).
                  take (length name + 1) (js_trim p) \<noteq> name @ ''=''"
      using before Cons b eq by (auto simp: plain_other_no_match)
    have "find_cookie name (((bn @ CHR ''='' # bv) # map (\<lambda>s. CHR '' '' # s) (map ?str bs)) @
            (CHR '' '' # name @ CHR ''='' # v) # map (\<lambda>s. CHR '' '' # s) after) = Inr (Some v)"
    proof -
      have "find_cookie name ((CHR '' '' # name @ CHR ''='' # v) # map (\<lambda>s. CHR '' '' # s) after) =
            Inr (Some v)"
        using own_trim(2) pct by (rule find_cookie_match)
      with find_cookie_skip[OF skip] show ?thesis by simp
    qed
    with sp Cons b show ?thesis
      by (simp add: getCookie_def cookie_header_nonempty)
  qed
qed

theorem getCookie_first_match_witness:
  "getCookie ''csrftoken'' ''sessionid=abc; csrftoken=XYZ; csrftoken=old'' = Inr (Some ''XYZ'')"
  using getCookie_first_match[of "[(''sessionid'', ''abc'')]" "''csrftoken''" "''XYZ''" "[''csrftoken=old'']"]
  by (simp add: plain_cookie_def js_char_simps)


end
