(* ===== verification/Add_To_Cart.thy ===== *)
theory Add_To_Cart
  imports Cookies JS_Coerce
begin

text \<open>
  The add-to-cart request of the product cards: \<open>initProductCards\<close>, \<open>addToCart\<close>,
  \<open>updateCartBadge\<close> and \<open>showNotification\<close> of \<open>shop/product-list.js\<close> (the same
  code is \<open>addToCartFromCard\<close> of \<open>shop/product-detail.js\<close>). A click disables the
  button, shows a spinner and sends \<open>POST /cart/add/<variant>/\<close>; the promise chain
  settles later with a network failure, an HTTP error status, a body that is not JSON, or
  a JSON body, and the success path arms a 2-second timer that restores the button.
  The state is the buttons (in document order), the badges, the toasts shown, the
  requests in flight and the pending restore timers, each remembering the button and the
  content and transform it had before the click. A click on a disabled button dispatches
  no event. The \<open>then\<close> callbacks of one request run without other script code in
  between that touches this state, so a request settles in one step.
\<close>

record atc_button =
  html :: string
  btn_disabled :: bool
  transform :: string
  btn_success :: bool

text \<open>The closure of one \<open>addToCart\<close> call: its button and the saved
  \<open>originalContent\<close> and \<open>originalTransform\<close>.\<close>

record atc_pending =
  p_button :: nat
  p_html :: string
  p_transform :: string

record atc_state =
  buttons :: "atc_button list"
  variant_attr :: "nat \<Rightarrow> string option"
  badges :: "string list"
  toasts :: "(toast_kind \<times> string) list"
  in_flight :: "atc_pending list"
  sent :: "(string \<times> string) list"
  resets :: "atc_pending list"
  cookie :: string
  cart_events :: "json option list"
  uncaught :: "uri_error list"

text \<open>How a \<open>fetch\<close> settles: rejected with a network error message, or resolved with a
  status and a body that \<open>response.json()\<close> either rejects with a message or parses.\<close>

datatype fetch_result = FetchRejected string | FetchResponse nat "string + json"

datatype atc_event = Click nat | Settle nat fetch_result | ResetTimer nat

section \<open>Constants of the code\<close>

definition spinner_html :: string where
  "spinner_html = ''<i class=\"fas fa-spinner fa-spin\"></i>''"

definition check_html :: string where
  "check_html = ''<i class=\"fas fa-check\"></i>''"

definition msg_unavailable :: string where
  "msg_unavailable = ''Ce produit n'est pas disponible''"

definition msg_added :: string where
  "msg_added = ''Produit ajout'' @ [CHR 0xC3, CHR 0xA9] @ '' au panier''"

definition msg_add_failed :: string where
  "msg_add_failed = ''Erreur lors de l'ajout au panier''"

definition msg_cannot_add :: string where
  "msg_cannot_add = ''Impossible d'ajouter le produit au panier''"

text \<open>The \<open>TypeError\<close> message of reading \<open>data.success\<close> when the body is \<open>null\<close>.\<close>

definition msg_null_success :: string where
  "msg_null_success = ''Cannot read properties of null (reading 'success')''"

section \<open>Operations\<close>

definition remove_nth :: "nat \<Rightarrow> 'a list \<Rightarrow> 'a list" where
  "remove_nth k xs = take k xs @ drop (Suc k) xs"

definition update_button :: "nat \<Rightarrow> (atc_button \<Rightarrow> atc_button) \<Rightarrow> atc_state \<Rightarrow> atc_state" where
  "update_button i f st = st\<lparr>buttons := (buttons st)[i := f (buttons st ! i)]\<rparr>"

definition showNotification :: "string \<Rightarrow> toast_kind \<Rightarrow> atc_state \<Rightarrow> atc_state" where
  "showNotification msg kind st = st\<lparr>toasts := toasts st @ [(kind, msg)]\<rparr>"

text \<open>\<open>formData.append(k, v)\<close> turns a \<open>null\<close> token into the string \<open>null\<close>.\<close>

definition token_text :: "string option \<Rightarrow> string" where
  "token_text t = (case t of None \<Rightarrow> ''null'' | Some s \<Rightarrow> s)"

definition addToCart :: "string \<Rightarrow> nat \<Rightarrow> atc_state \<Rightarrow> atc_state" where
  "addToCart v i st =
     (let b = buttons st ! i;
          p = \<lparr>p_button = i, p_html = html b, p_transform = transform b\<rparr>;
          st1 = update_button i (\<lambda>b. b\<lparr>transform := ''scale(0.9)'', html := spinner_html,
                                       btn_disabled := True\<rparr>) st;
          url = ''/cart/add/'' @ v @ ''/''
      in case getCSRFToken (cookie st) of
           Inl e \<Rightarrow> st1\<lparr>uncaught := uncaught st1 @ [e]\<rparr>
         | Inr tok \<Rightarrow> st1\<lparr>sent := sent st1 @ [(url, token_text tok)], in_flight := in_flight st1 @ [p]\<rparr>)"

text \<open>\<open>addToCartFromCard\<close> of \<open>shop/product-detail.js\<close> is the same function,
  line for line.\<close>

definition addToCartFromCard :: "string \<Rightarrow> nat \<Rightarrow> atc_state \<Rightarrow> atc_state" where
  "addToCartFromCard v i st = addToCart v i st"

text \<open>The click listener of \<open>initProductCards\<close>.\<close>

definition atc_click :: "nat \<Rightarrow> atc_state \<Rightarrow> atc_state" where
  "atc_click i st =
     (if length (buttons st) \<le> i \<or> btn_disabled (buttons st ! i) then st
      else case variant_attr st i of
             None \<Rightarrow> showNotification msg_unavailable Error st
           | Some v \<Rightarrow> if v = [] \<or> v = ''None'' then showNotification msg_unavailable Error st
                       else addToCart v i st)"

text \<open>\<open>updateCartBadge(cartCount)\<close>: every badge shows the count, or its own count
  plus one when the count is \<open>undefined\<close>; then \<open>cartUpdated\<close> is dispatched.\<close>

definition badge_next :: "json option \<Rightarrow> string \<Rightarrow> string" where
  "badge_next cc t = (case cc of Some v \<Rightarrow> json_text v | None \<Rightarrow> show_int (js_or (parse_int t) 0 + 1))"

definition updateCartBadge :: "json option \<Rightarrow> atc_state \<Rightarrow> atc_state" where
  "updateCartBadge cc st = st\<lparr>badges := map (badge_next cc) (badges st), cart_events := cart_events st @ [cc]\<rparr>"

text \<open>The \<open>catch\<close> callback: restore the button, show \<open>error.message\<close> or the fallback.\<close>

definition atc_catch :: "atc_pending \<Rightarrow> string \<Rightarrow> atc_state \<Rightarrow> atc_state" where
  "atc_catch p msg st =
     showNotification (if msg \<noteq> [] then msg else msg_cannot_add) Error
       (update_button (p_button p)
          (\<lambda>b. b\<lparr>html := p_html p, btn_disabled := False, transform := p_transform p\<rparr>) st)"

text \<open>A property used as a message: its text when truthy, the fallback otherwise.\<close>

definition field_text :: "json \<Rightarrow> string \<Rightarrow> string \<Rightarrow> string" where
  "field_text data k dflt =
     (case json_get data k of Some m \<Rightarrow> if json_truthy m then json_text m else dflt | None \<Rightarrow> dflt)"

definition field_truthy :: "json \<Rightarrow> string \<Rightarrow> bool" where
  "field_truthy data k = (case json_get data k of Some m \<Rightarrow> json_truthy m | None \<Rightarrow> False)"

definition atc_success :: "atc_pending \<Rightarrow> json \<Rightarrow> atc_state \<Rightarrow> atc_state" where
  "atc_success p data st =
     (let st1 = update_button (p_button p)
                  (\<lambda>b. b\<lparr>transform := ''scale(1)'', html := check_html, btn_success := True\<rparr>) st;
          st2 = showNotification (field_text data ''message'' msg_added) Success st1;
          st3 = updateCartBadge (json_get data ''cart_count'') st2
      in st3\<lparr>resets := resets st3 @ [p]\<rparr>)"

text \<open>The promise chain of the \<open>k\<close>-th request in flight.\<close>

definition atc_settle :: "nat \<Rightarrow> fetch_result \<Rightarrow> atc_state \<Rightarrow> atc_state" where
  "atc_settle k r st =
     (if length (in_flight st) \<le> k then st
      else let p = in_flight st ! k; st0 = st\<lparr>in_flight := remove_nth k (in_flight st)\<rparr>
      in case r of
           FetchRejected msg \<Rightarrow> atc_catch p msg st0
         | FetchResponse status body \<Rightarrow>
             if \<not> (200 \<le> status \<and> status \<le> 299)
             then atc_catch p (''Erreur HTTP: '' @ show_nat status) st0
             else case body of
                    Inl msg \<Rightarrow> atc_catch p msg st0
                  | Inr data \<Rightarrow>
                      if data = JNull then atc_catch p msg_null_success st0
                      else if field_truthy data ''success'' then atc_success p data st0
                      else atc_catch p (field_text data ''error'' msg_add_failed) st0)"

text \<open>The 2-second timer of the success path.\<close>

definition atc_reset :: "nat \<Rightarrow> atc_state \<Rightarrow> atc_state" where
  "atc_reset k st =
     (if length (resets st) \<le> k then st
      else let p = resets st ! k
      in update_button (p_button p)
           (\<lambda>b. b\<lparr>html := p_html p, btn_success := False, btn_disabled := False,
                  transform := p_transform p\<rparr>)
           (st\<lparr>resets := remove_nth k (resets st)\<rparr>))"

fun atc_step :: "atc_state \<Rightarrow> atc_event \<Rightarrow> atc_state" where
  "atc_step st (Click i) = atc_click i st"
| "atc_step st (Settle k r) = atc_settle k r st"
| "atc_step st (ResetTimer k) = atc_reset k st"

primrec atc_run :: "atc_state \<Rightarrow> atc_event list \<Rightarrow> atc_state" where
  "atc_run st [] = st"
| "atc_run st (e # es) = atc_run (atc_step st e) es"

text \<open>The page after \<open>DOMContentLoaded\<close>: nothing in flight, no timer pending.\<close>

inductive atc_reachable :: "atc_state \<Rightarrow> bool" where
  init: "in_flight st = [] \<Longrightarrow> resets st = [] \<Longrightarrow> atc_reachable st"
| step: "atc_reachable st \<Longrightarrow> atc_reachable (atc_step st e)"

text \<open>The buttons that have a request in flight or a restore timer pending.\<close>

definition busy :: "atc_state \<Rightarrow> nat list" where
  "busy st = map p_button (in_flight st @ resets st)"

definition atc_inv :: "atc_state \<Rightarrow> bool" where
  "atc_inv st \<longleftrightarrow>
     distinct (busy st) \<and> (\<forall>i \<in> set (busy st). i < length (buttons st) \<and> btn_disabled (buttons st ! i))"

text \<open>A button that is stuck: disabled, showing the spinner, with no request or timer
  that could restore it.\<close>

definition stuck_at :: "nat \<Rightarrow> atc_state \<Rightarrow> bool" where
  "stuck_at i st \<longleftrightarrow> i < length (buttons st) \<and> btn_disabled (buttons st ! i) \<and>
     html (buttons st ! i) = spinner_html \<and> i \<notin> set (busy st)"

text \<open>A page with one card button for variant 7, one badge showing 2 and a CSRF cookie,
  used to run the properties below on a concrete input.\<close>

definition demo_atc :: "string \<Rightarrow> atc_state" where
  "demo_atc ck =
     \<lparr>buttons = [\<lparr>html = ''Ajouter'', btn_disabled = False, transform = [], btn_success = False\<rparr>],
      variant_attr = (\<lambda>i. if i = 0 then Some ''7'' else None), badges = [''2''], toasts = [],
      in_flight = [], sent = [], resets = [], cookie = ck, cart_events = [], uncaught = []\<rparr>"

section \<open>Lemmas\<close>

lemma remove_nth_map: "map f (remove_nth k xs) = remove_nth k (map f xs)"
  by (simp add: remove_nth_def take_map drop_map)

lemma remove_nth_append: "k < length xs \<Longrightarrow> remove_nth k (xs @ ys) = remove_nth k xs @ ys"
  by (simp add: remove_nth_def)

lemma update_button_frame [simp]:
  "in_flight (update_button i f st) = in_flight st"
  "resets (update_button i f st) = resets st"
  "badges (update_button i f st) = badges st"
  "toasts (update_button i f st) = toasts st"
  "sent (update_button i f st) = sent st"
  "cookie (update_button i f st) = cookie st"
  "variant_attr (update_button i f st) = variant_attr st"
  "cart_events (update_button i f st) = cart_events st"
  "uncaught (update_button i f st) = uncaught st"
  "length (buttons (update_button i f st)) = length (buttons st)"
  by (simp_all add: update_button_def)

lemma buttons_update_button:
  "j < length (buttons st) \<Longrightarrow>
   buttons (update_button i f st) ! j = (if j = i then f (buttons st ! i) else buttons st ! j)"
  by (simp add: update_button_def nth_list_update)

lemma showNotification_frame [simp]:
  "buttons (showNotification m k st) = buttons st"
  "in_flight (showNotification m k st) = in_flight st"
  "resets (showNotification m k st) = resets st"
  "badges (showNotification m k st) = badges st"
  "toasts (showNotification m k st) = toasts st @ [(k, m)]"
  "sent (showNotification m k st) = sent st"
  "cookie (showNotification m k st) = cookie st"
  "variant_attr (showNotification m k st) = variant_attr st"
  "uncaught (showNotification m k st) = uncaught st"
  by (simp_all add: showNotification_def)

lemma updateCartBadge_frame [simp]:
  "buttons (updateCartBadge c st) = buttons st"
  "in_flight (updateCartBadge c st) = in_flight st"
  "resets (updateCartBadge c st) = resets st"
  "toasts (updateCartBadge c st) = toasts st"
  "cookie (updateCartBadge c st) = cookie st"
  "variant_attr (updateCartBadge c st) = variant_attr st"
  by (simp_all add: updateCartBadge_def)

text \<open>A button update that keeps it disabled keeps the invariant; one that enables a
  button leaves the invariant to the other busy buttons.\<close>

lemma atc_inv_update_disabled:
  assumes "atc_inv st" "i < length (buttons st)" "btn_disabled (f (buttons st ! i))"
  shows "atc_inv (update_button i f st)"
  using assms by (auto simp: atc_inv_def busy_def buttons_update_button)

lemma inv_busyD:
  "atc_inv st \<Longrightarrow> i \<in> set (busy st) \<Longrightarrow> i < length (buttons st) \<and> btn_disabled (buttons st ! i)"
  by (simp add: atc_inv_def)

lemma atc_inv_click: "atc_inv st \<Longrightarrow> atc_inv (atc_click i st)"
proof -
  assume inv: "atc_inv st"
  show ?thesis
  proof (cases "length (buttons st) \<le> i \<or> btn_disabled (buttons st ! i)")
    case True
    with inv show ?thesis by (simp add: atc_click_def)
  next
    case False
    then have i: "i < length (buttons st)" "\<not> btn_disabled (buttons st ! i)" by auto
    with inv have nb: "i \<notin> set (busy st)" using inv_busyD by blast
    let ?u = "update_button i (\<lambda>b. b\<lparr>transform := ''scale(0.9)'', html := spinner_html,
                                  btn_disabled := True\<rparr>) st"
    have u: "atc_inv ?u" using inv i by (intro atc_inv_update_disabled) simp_all
    have u2: "atc_inv (?u\<lparr>sent := s, in_flight := in_flight ?u @ [p]\<rparr>)" if "p_button p = i" for s p
      using inv that nb i
      by (auto simp: atc_inv_def busy_def buttons_update_button)
    have u1: "atc_inv (?u\<lparr>uncaught := x\<rparr>)" for x using u by (simp add: atc_inv_def busy_def)
    have n: "atc_inv (showNotification m k st)" for m k using inv by (simp add: atc_inv_def busy_def)
    show ?thesis using False u1 u2 n
      by (auto simp: atc_click_def addToCart_def Let_def split: option.splits sum.splits)
  qed
qed

lemma remove_nth_distinct:
  assumes "distinct xs" "k < length xs"
  shows "distinct (remove_nth k xs)" "xs ! k \<notin> set (remove_nth k xs)"
    "set (remove_nth k xs) \<subseteq> set xs"
proof -
  have e: "xs = take k xs @ xs ! k # drop (Suc k) xs"
    using assms(2) by (rule id_take_nth_drop)
  have d: "distinct (take k xs @ xs ! k # drop (Suc k) xs)"
    using assms(1) by (simp only: e[symmetric])
  then show "distinct (remove_nth k xs)" "xs ! k \<notin> set (remove_nth k xs)"
    by (auto simp: remove_nth_def)
  show "set (remove_nth k xs) \<subseteq> set xs"
    by (auto simp: remove_nth_def dest: in_set_takeD in_set_dropD)
qed

lemma busy_remove:
  assumes "k < length (in_flight st)"
  shows "busy (st\<lparr>in_flight := remove_nth k (in_flight st)\<rparr>) = remove_nth k (busy st)"
    "busy st ! k = p_button (in_flight st ! k)" "k < length (busy st)"
  using assms by (simp_all add: busy_def remove_nth_map remove_nth_append nth_append)

lemma atc_inv_settle: "atc_inv st \<Longrightarrow> atc_inv (atc_settle k r st)"
proof -
  assume inv: "atc_inv st"
  show ?thesis
  proof (cases "length (in_flight st) \<le> k")
    case True
    with inv show ?thesis by (simp add: atc_settle_def)
  next
    case False
    then have k: "k < length (in_flight st)" by simp
    define p where "p = in_flight st ! k"
    define st0 where "st0 = st\<lparr>in_flight := remove_nth k (in_flight st)\<rparr>"
    have dist: "distinct (busy st)" using inv by (simp add: atc_inv_def)
    have b0: "busy st0 = remove_nth k (busy st)" "busy st ! k = p_button p" "k < length (busy st)"
      using busy_remove[OF k] by (simp_all add: st0_def p_def)
    have pnot: "p_button p \<notin> set (busy st0)" and sub: "set (busy st0) \<subseteq> set (busy st)"
      and d0: "distinct (busy st0)"
      using remove_nth_distinct[OF dist b0(3)] b0 by simp_all
    have pb: "p_button p < length (buttons st) \<and> btn_disabled (buttons st ! p_button p)"
      using inv_busyD[OF inv] b0 nth_mem by metis
    have inv0: "atc_inv st0"
      using inv sub d0 by (auto simp: atc_inv_def st0_def)
    have c: "atc_inv (atc_catch p m st0)" for m
      using inv0 pnot by (auto simp: atc_catch_def atc_inv_def busy_def buttons_update_button st0_def)
    have s: "atc_inv (atc_success p d st0)" for d
      using inv0 pnot pb
      by (auto simp: atc_success_def Let_def atc_inv_def busy_def buttons_update_button st0_def)
    show ?thesis using False c s
      by (simp add: atc_settle_def Let_def flip: p_def st0_def split: fetch_result.splits sum.splits)
  qed
qed

lemma busy_remove_reset:
  assumes "k < length (resets st)"
  shows "busy (st\<lparr>resets := remove_nth k (resets st)\<rparr>) = remove_nth (length (in_flight st) + k) (busy st)"
    "busy st ! (length (in_flight st) + k) = p_button (resets st ! k)"
    "length (in_flight st) + k < length (busy st)"
  using assms by (simp_all add: busy_def remove_nth_map remove_nth_def nth_append take_map drop_map)

lemma atc_inv_reset: "atc_inv st \<Longrightarrow> atc_inv (atc_reset k st)"
proof -
  assume inv: "atc_inv st"
  show ?thesis
  proof (cases "length (resets st) \<le> k")
    case True
    with inv show ?thesis by (simp add: atc_reset_def)
  next
    case False
    then have k: "k < length (resets st)" by simp
    define p where "p = resets st ! k"
    define st0 where "st0 = st\<lparr>resets := remove_nth k (resets st)\<rparr>"
    have dist: "distinct (busy st)" using inv by (simp add: atc_inv_def)
    note b0 = busy_remove_reset[OF k, folded p_def st0_def]
    have pnot: "p_button p \<notin> set (busy st0)" and sub: "set (busy st0) \<subseteq> set (busy st)"
      and d0: "distinct (busy st0)"
      using remove_nth_distinct[OF dist b0(3)] b0 by simp_all
    have inv0: "atc_inv st0"
      using inv sub d0 by (auto simp: atc_inv_def st0_def)
    then have "atc_inv (update_button (p_button p)
           (\<lambda>b. b\<lparr>html := p_html p, btn_success := False, btn_disabled := False,
                  transform := p_transform p\<rparr>) st0)"
      using pnot by (auto simp: atc_inv_def busy_def buttons_update_button st0_def)
    with False show ?thesis by (simp add: atc_reset_def Let_def flip: p_def st0_def)
  qed
qed

lemma atc_inv_step: "atc_inv st \<Longrightarrow> atc_inv (atc_step st e)"
  by (cases e) (simp_all add: atc_inv_click atc_inv_settle atc_inv_reset)

lemma atc_reachable_inv: "atc_reachable st \<Longrightarrow> atc_inv st"
proof (induction rule: atc_reachable.induct)
  case (init st)
  then show ?case by (simp add: atc_inv_def busy_def)
next
  case (step st e)
  then show ?case by (simp add: atc_inv_step)
qed

lemma remove_nth_last [simp]: "remove_nth (length xs) (xs @ [x]) = xs"
  by (simp add: remove_nth_def)

lemma button_restore:
  "\<not> btn_disabled b \<Longrightarrow> b\<lparr>btn_disabled := False\<rparr> = b"
  by (cases b) simp

lemma button_restore2:
  "\<not> btn_disabled b \<Longrightarrow> \<not> btn_success b \<Longrightarrow> b\<lparr>btn_success := False, btn_disabled := False\<rparr> = b"
  by (cases b) simp

lemma stuck_click: "stuck_at i st \<Longrightarrow> stuck_at i (atc_click j st)"
  by (auto simp: stuck_at_def atc_click_def addToCart_def Let_def busy_def buttons_update_button
      split: option.splits sum.splits)

lemma set_remove_nth_sub: "set (remove_nth k xs) \<subseteq> set xs"
  by (auto simp: remove_nth_def dest: in_set_takeD in_set_dropD)

lemma stuck_settle: "stuck_at i st \<Longrightarrow> stuck_at i (atc_settle k r st)"
proof -
  assume s: "stuck_at i st"
  show ?thesis
  proof (cases "length (in_flight st) \<le> k")
    case True
    with s show ?thesis by (simp add: atc_settle_def)
  next
    case False
    define p where "p = in_flight st ! k"
    define st0 where "st0 = st\<lparr>in_flight := remove_nth k (in_flight st)\<rparr>"
    have pi: "p_button p \<noteq> i" using s False by (auto simp: stuck_at_def busy_def p_def)
    have s0: "stuck_at i st0"
      using s set_remove_nth_sub[of k "in_flight st"] by (auto simp: stuck_at_def busy_def st0_def)
    have "stuck_at i (atc_catch p m st0)" for m
      using s0 pi by (auto simp: stuck_at_def atc_catch_def busy_def buttons_update_button)
    moreover have "stuck_at i (atc_success p d st0)" for d
      using s0 pi by (auto simp: stuck_at_def atc_success_def Let_def busy_def buttons_update_button)
    ultimately show ?thesis using False
      by (simp add: atc_settle_def Let_def flip: p_def st0_def split: fetch_result.splits sum.splits)
  qed
qed

lemma stuck_reset: "stuck_at i st \<Longrightarrow> stuck_at i (atc_reset k st)"
proof -
  assume s: "stuck_at i st"
  show ?thesis
  proof (cases "length (resets st) \<le> k")
    case True
    with s show ?thesis by (simp add: atc_reset_def)
  next
    case False
    have pi: "p_button (resets st ! k) \<noteq> i" using s False by (auto simp: stuck_at_def busy_def)
    then show ?thesis
      using s False set_remove_nth_sub[of k "resets st"]
      by (auto simp: stuck_at_def atc_reset_def Let_def busy_def buttons_update_button)
  qed
qed

lemma stuck_run: "stuck_at i st \<Longrightarrow> stuck_at i (atc_run st es)"
proof (induction es arbitrary: st)
  case Nil
  then show ?case by simp
next
  case (Cons e es)
  have "stuck_at i (atc_step st e)"
    using Cons.prems by (cases e) (simp_all add: stuck_click stuck_settle stuck_reset)
  then show ?case using Cons.IH by simp
qed


section \<open>Properties\<close>

text \<open>C21: on every reachable page each button has at most one request in flight or restore
  timer pending, and every button with one is disabled.\<close>

theorem one_request_per_button:
  assumes "atc_reachable st"
  shows "distinct (map p_button (in_flight st @ resets st)) \<and>
         (\<forall>p \<in> set (in_flight st @ resets st).
            p_button p < length (buttons st) \<and> btn_disabled (buttons st ! p_button p))"
  using atc_reachable_inv[OF assms] by (auto simp: atc_inv_def busy_def)

theorem one_request_per_button_witness:
  "distinct (map p_button (in_flight (atc_step (demo_atc ''csrftoken=abc'') (Click 0)) @
                            resets (atc_step (demo_atc ''csrftoken=abc'') (Click 0)))) \<and>
   in_flight (atc_step (demo_atc ''csrftoken=abc'') (Click 0)) =
     [\<lparr>p_button = 0, p_html = ''Ajouter'', p_transform = []\<rparr>]"
proof -
  have r: "atc_reachable (atc_step (demo_atc ''csrftoken=abc'') (Click 0))"
    by (rule atc_reachable.step, rule atc_reachable.init) (simp_all add: demo_atc_def)
  show ?thesis
    using one_request_per_button[OF r]
    by (simp add: atc_click_def addToCart_def Let_def update_button_def demo_atc_def getCSRFToken_def getCookie_def js_trim_def js_char_simps)
qed

text \<open>C22: a second click on a button whose request is still in flight, or whose success
  state is still shown, does nothing: the button is disabled, so no second request is sent.
  Spec sections 4.5 and 9 say the interface does not guard against double clicks.\<close>

theorem double_click_ignored:
  assumes "atc_reachable st" "i \<in> set (busy st)"
  shows "atc_step st (Click i) = st"
  using inv_busyD[OF atc_reachable_inv[OF assms(1)] assms(2)] by (simp add: atc_click_def)

theorem double_click_ignored_witness:
  "atc_step (atc_step (demo_atc ''csrftoken=abc'') (Click 0)) (Click 0) =
   atc_step (demo_atc ''csrftoken=abc'') (Click 0)"
proof -
  have r: "atc_reachable (atc_step (demo_atc ''csrftoken=abc'') (Click 0))"
    by (rule atc_reachable.step, rule atc_reachable.init) (simp_all add: demo_atc_def)
  have "0 \<in> set (busy (atc_step (demo_atc ''csrftoken=abc'') (Click 0)))"
    by (simp add: busy_def atc_click_def addToCart_def Let_def update_button_def demo_atc_def getCSRFToken_def getCookie_def js_trim_def js_char_simps)
  then show ?thesis by (rule double_click_ignored[OF r])
qed

text \<open>C23: spec section 8's scenario: when the server answers
  \<open>{success: false, error: "Out of stock"}\<close>, the button returns to its state before the
  click, the error toast shows exactly the server's message, and the badges are unchanged;
  the only other trace is the request that was sent.\<close>

theorem business_error_restores:
  assumes "i < length (buttons st)" "\<not> btn_disabled (buttons st ! i)"
    and "variant_attr st i = Some v" "v \<noteq> []" "v \<noteq> ''None''"
    and "getCSRFToken (cookie st) = Inr t"
  shows "atc_run st [Click i, Settle (length (in_flight st))
            (FetchResponse 200 (Inr (JObj [(''success'', JBool False), (''error'', JStr ''Out of stock'')])))] =
         st\<lparr>toasts := toasts st @ [(Error, ''Out of stock'')],
            sent := sent st @ [(''/cart/add/'' @ v @ ''/'', token_text t)]\<rparr>"
  using assms
  by (simp add: atc_click_def addToCart_def atc_settle_def atc_catch_def Let_def update_button_def
      showNotification_def field_truthy_def field_text_def nth_append button_restore)

theorem business_error_restores_witness:
  "badges (atc_run (demo_atc ''csrftoken=abc'') [Click 0, Settle 0
      (FetchResponse 200 (Inr (JObj [(''success'', JBool False), (''error'', JStr ''Out of stock'')])))]) = [''2''] \<and>
   toasts (atc_run (demo_atc ''csrftoken=abc'') [Click 0, Settle 0
      (FetchResponse 200 (Inr (JObj [(''success'', JBool False), (''error'', JStr ''Out of stock'')])))]) =
     [(Error, ''Out of stock'')]"
  using business_error_restores[of 0 "demo_atc ''csrftoken=abc''" "''7''" "Some ''abc''"]
  by (simp add: demo_atc_def getCSRFToken_def getCookie_def js_trim_def js_char_simps)

text \<open>C24: a successful request, followed by its 2-second timer, leaves the button exactly
  as it was before the click; in between, every badge shows the server's \<open>cart_count\<close>
  and the success toast is shown.\<close>

theorem success_then_reset_restores:
  assumes "i < length (buttons st)" "\<not> btn_disabled (buttons st ! i)" "\<not> btn_success (buttons st ! i)"
    and "variant_attr st i = Some v" "v \<noteq> []" "v \<noteq> ''None''"
    and "getCSRFToken (cookie st) = Inr t"
  shows "atc_run st [Click i, Settle (length (in_flight st))
            (FetchResponse 200 (Inr (JObj [(''success'', JBool True), (''cart_count'', JNum n)]))),
            ResetTimer (length (resets st))] =
         st\<lparr>badges := map (\<lambda>_. number_text n) (badges st),
            toasts := toasts st @ [(Success, msg_added)],
            sent := sent st @ [(''/cart/add/'' @ v @ ''/'', token_text t)],
            cart_events := cart_events st @ [Some (JNum n)]\<rparr>"
  using assms
  by (simp add: atc_click_def addToCart_def atc_settle_def atc_success_def atc_reset_def Let_def
      update_button_def showNotification_def updateCartBadge_def badge_next_def field_truthy_def
      field_text_def nth_append button_restore2 comp_def)

theorem success_then_reset_restores_witness:
  "badges (atc_run (demo_atc ''csrftoken=abc'') [Click 0, Settle 0
      (FetchResponse 200 (Inr (JObj [(''success'', JBool True), (''cart_count'', JNum 3)]))), ResetTimer 0]) =
     [''3''] \<and>
   buttons (atc_run (demo_atc ''csrftoken=abc'') [Click 0, Settle 0
      (FetchResponse 200 (Inr (JObj [(''success'', JBool True), (''cart_count'', JNum 3)]))), ResetTimer 0]) =
     buttons (demo_atc ''csrftoken=abc'')"
  using success_then_reset_restores[of 0 "demo_atc ''csrftoken=abc''" "''7''" "Some ''abc''" 3]
  by (simp add: number_text_def abs_number_text_def show_nat.simps demo_atc_def getCSRFToken_def getCookie_def js_trim_def js_char_simps)

text \<open>C25: when the \<open>csrftoken\<close> cookie holds a malformed percent escape, the click
  disables the button and shows the spinner before \<open>getCSRFToken\<close> throws; no request is
  sent and nothing ever restores the button, whatever happens next (spec section 7 says the
  control state is rolled back on failure).\<close>

theorem malformed_cookie_stuck:
  assumes "atc_reachable st" "i < length (buttons st)" "\<not> btn_disabled (buttons st ! i)"
    and "variant_attr st i = Some v" "v \<noteq> []" "v \<noteq> ''None''"
    and "getCSRFToken (cookie st) = Inl URIError"
  shows "btn_disabled (buttons (atc_run st (Click i # es)) ! i) \<and>
         html (buttons (atc_run st (Click i # es)) ! i) = spinner_html"
proof -
  have "i \<notin> set (busy st)" using atc_reachable_inv[OF assms(1)] assms(2,3) inv_busyD by blast
  then have "stuck_at i (atc_step st (Click i))"
    using assms(2-7)
    by (simp add: stuck_at_def atc_click_def addToCart_def Let_def busy_def update_button_def)
  then have "stuck_at i (atc_run st (Click i # es))" by (simp add: stuck_run)
  then show ?thesis by (simp add: stuck_at_def)
qed

theorem malformed_cookie_stuck_witness:
  "btn_disabled (buttons (atc_run (demo_atc ''csrftoken=%E9'') [Click 0, Click 0, ResetTimer 0]) ! 0)"
proof -
  have r: "atc_reachable (demo_atc ''csrftoken=%E9'')"
    by (rule atc_reachable.init) (simp_all add: demo_atc_def)
  show ?thesis
    using malformed_cookie_stuck[OF r, of 0 "''7''" "[Click 0, ResetTimer 0]"]
    by (simp add: hex_val_def Let_def demo_atc_def getCSRFToken_def getCookie_def js_trim_def js_char_simps)
qed

text \<open>Without a \<open>csrftoken\<close> cookie the request is still sent, and the token
  \<open>null\<close> becomes the literal string \<open>null\<close> in the form data and the header.\<close>

theorem missing_token_sent_as_null:
  assumes "i < length (buttons st)" "\<not> btn_disabled (buttons st ! i)"
    and "variant_attr st i = Some v" "v \<noteq> []" "v \<noteq> ''None''"
    and "getCSRFToken (cookie st) = Inr None"
  shows "sent (atc_step st (Click i)) = sent st @ [(''/cart/add/'' @ v @ ''/'', ''null'')] \<and>
         length (in_flight (atc_step st (Click i))) = Suc (length (in_flight st))"
  using assms by (simp add: atc_click_def addToCart_def Let_def token_text_def)

theorem missing_token_sent_as_null_witness:
  "sent (atc_step (demo_atc ''sessionid=1'') (Click 0)) = [(''/cart/add/7/'', ''null'')]"
  using missing_token_sent_as_null[of 0 "demo_atc ''sessionid=1''" "''7''"]
  by (simp add: demo_atc_def getCSRFToken_def getCookie_def js_trim_def js_char_simps)

end
