(* ===== verification/Locale_Format.thy ===== *)
theory Locale_Format
  imports JS_Coerce
begin

text \<open>
  \<open>Number.prototype.toLocaleString('fr-FR')\<close>, which the cart and checkout pages use
  for every amount they display, and the way they read such an amount back: strip every
  non-digit (\<open>replace(/[^0-9]/g, '')\<close> or \<open>replace(/\D/g, '')\<close>) and \<open>parseFloat\<close>.
  The French format rounds to at most three fraction digits (half away from zero), drops
  trailing zeros, writes the fraction after a comma, and groups the integer digits by
  three with a narrow no-break space (U+202F, the three bytes \<open>E2 80 AF\<close> in UTF-8).
  \<open>NaN\<close> (\<open>None\<close>) is written \<open>NaN\<close>. The read-back is exact for whole amounts and
  multiplies an amount with fraction digits by a power of ten.
\<close>

definition narrow_nbsp :: string where
  "narrow_nbsp = [CHR 0xE2, CHR 0x80, CHR 0xAF]"

text \<open>Grouping of a digit string by three from the right.\<close>

function group3 :: "string \<Rightarrow> string \<Rightarrow> string" where
  "group3 sep s =
     (if length s \<le> 3 then s
      else group3 sep (take (length s - 3) s) @ sep @ drop (length s - 3) s)"
  by pat_completeness auto
termination by (relation "measure (\<lambda>(sep, s). length s)") auto

declare group3.simps [simp del]

text \<open>The fraction digits of \<open>f / 1000\<close> (\<open>f < 1000\<close>) without trailing zeros.\<close>

definition frac3 :: "nat \<Rightarrow> string" where
  "frac3 f =
     rev (dropWhile (\<lambda>c. c = CHR ''0'')
       (rev [char_of (48 + f div 100), char_of (48 + f div 10 mod 10), char_of (48 + f mod 10)]))"

definition to_locale_fr :: "real \<Rightarrow> string" where
  "to_locale_fr x =
     (let m = nat \<lfloor>\<bar>x\<bar> * 1000 + 1 / 2\<rfloor>; fd = frac3 (m mod 1000)
      in (if x < 0 then ''-'' else []) @ group3 narrow_nbsp (show_nat (m div 1000))
         @ (if fd = [] then [] else CHR '','' # fd))"

text \<open>A JavaScript number that may be \<open>NaN\<close>, formatted.\<close>

definition locale_text :: "real option \<Rightarrow> string" where
  "locale_text v = (case v of None \<Rightarrow> ''NaN'' | Some x \<Rightarrow> to_locale_fr x)"

text \<open>The read-back of a displayed amount: \<open>parseFloat(text.replace(/[^0-9]/g, ''))\<close>.\<close>

definition read_amount :: "string \<Rightarrow> real option" where
  "read_amount t = parse_float (digits_only t)"

text \<open>The currency suffix both summaries append: \<open>... + ' FCFA'\<close>.\<close>

definition fcfa :: "string \<Rightarrow> string" where
  "fcfa s = s @ '' FCFA''"

section \<open>Lemmas\<close>

lemma digits_only_group3:
  "digits_only sep = [] \<Longrightarrow> digits_only (group3 sep s) = digits_only s"
proof (induction sep s rule: group3.induct)
  case (1 sep s)
  show ?case
  proof (cases "length s \<le> 3")
    case True
    then show ?thesis by (subst group3.simps) simp
  next
    case False
    then have "digits_only (group3 sep (take (length s - 3) s)) = digits_only (take (length s - 3) s)"
      using "1" by simp
    with False "1.prems" show ?thesis
      by (subst group3.simps) (simp, metis append_take_drop_id digits_only_append)
  qed
qed

lemma digits_only_narrow_nbsp [simp]: "digits_only narrow_nbsp = []"
  by (simp add: narrow_nbsp_def digits_only_def is_digit_def)

lemma frac3_zero [simp]: "frac3 0 = []"
  by (simp add: frac3_def js_char_simps)

lemma to_locale_fr_nat: "to_locale_fr (of_nat n) = group3 narrow_nbsp (show_nat n)"
proof -
  have "nat \<lfloor>real n * 1000 + 1 / 2\<rfloor> = n * 1000"
    by linarith
  then show ?thesis by (simp add: to_locale_fr_def Let_def)
qed

lemma parse_float_show_nat: "parse_float (show_nat n) = Some (of_nat n)"
proof -
  have d: "dropWhile is_js_space (show_nat n) = show_nat n"
    using show_nat_not_space[of n] show_nat_nonempty[of n] by (cases "show_nat n") auto
  have hd: "is_digit (hd (show_nat n))"
    using show_nat_digits show_nat_nonempty by (metis list.set_sel(1))
  then have s: "strip_sign (show_nat n) = (1, show_nat n)"
    by (auto simp: strip_sign_def is_digit_def)
  have t: "takeWhile is_digit (show_nat n) = show_nat n" "dropWhile is_digit (show_nat n) = []"
    using show_nat_digits[of n] by (simp_all add: takeWhile_eq_all_conv dropWhile_eq_Nil_conv)
  show ?thesis
    using show_nat_nonempty[of n]
    by (simp add: parse_float_def d s t Let_def exponent_part_def pow10_def digits_to_nat_show_nat
        del: dropWhile_eq_Nil_conv takeWhile_eq_all_conv)
qed

lemma digits_only_fcfa [simp]: "digits_only (fcfa t) = digits_only t"
  by (simp add: fcfa_def digits_only_append) (simp add: digits_only_def is_digit_def)

lemma read_amount_whole:
  "read_amount (CHR ''-'' # CHR '' '' # fcfa (to_locale_fr (of_nat n))) = Some (of_nat n)"
proof -
  have "digits_only (CHR ''-'' # CHR '' '' # t) = digits_only t" for t
    by (simp add: digits_only_def is_digit_def)
  moreover have "digits_only (show_nat n) = show_nat n"
    using show_nat_digits[of n] by (simp add: digits_only_def)
  ultimately show ?thesis
    by (simp add: read_amount_def to_locale_fr_nat digits_only_group3 parse_float_show_nat)
qed

end
