(* ===== verification/Checkout.thy ===== *)
theory Checkout
  imports Locale_Format
begin

text \<open>
  The checkout page, \<open>orders/checkout.js\<close>: the order summary (\<open>updateShippingCost\<close>
  and the coupon system), the selection handlers, the add-address modal and the
  validation of the order form. The state is the page record \<open>checkout_page\<close>: the
  subtotal read once from \<open>window.CHECKOUT_DATA\<close>, the shipping-rate radios with their
  \<open>data-cost\<close> and \<open>data-is-free\<close> attributes, the texts of the summary's displays,
  the coupon widgets, the pending timers and the toasts shown. The template is assumed to
  contain the summary displays, the discount row and the order form with its button; the
  presence tests the code does make are fields. Toast messages are named by a datatype
  with one constructor per literal of the code.
\<close>

datatype checkout_msg =
    MsgAddressUpdated | MsgShippingUpdated | MsgPayment string | MsgAddressSaved
  | MsgServerMessage string | MsgAddressSaveError | MsgConnectionError | MsgCouponApplied
  | MsgCouponInvalid | MsgSelectAddress | MsgSelectShipping | MsgAcceptTerms | MsgValidating
  | MsgOnline | MsgOffline

datatype coupon_message = CouponNone | CouponEmpty | CouponChecking | CouponOk string | CouponBad

datatype coupon = Percentage real | FreeShipping

record checkout_page =
  subtotal :: "real option"
  rates :: "(string option \<times> string option) list"
  rate_checked :: "nat option"
  address_checked :: bool
  terms_box :: "bool option"
  shipping_display :: string
  discount_display :: string
  discount_hidden :: bool
  total_display :: string
  coupon_input :: string
  coupon_msg :: coupon_message
  coupon_timers :: "string list"
  coupon_closers :: nat
  save_btn_disabled :: bool
  save_requests :: nat
  redirect_pending :: bool
  confirm_disabled :: bool
  loading :: bool
  submit_pending :: bool
  ck_toasts :: "(toast_kind \<times> checkout_msg) list"

text \<open>How the add-address request settles: a network failure or non-OK status, or a JSON
  body with \<open>success\<close> and \<open>message\<close>.\<close>

datatype save_result = SaveFailed | SaveAnswered bool "string option"

text \<open>The events: \<open>AddressChange b\<close> is the change of an address radio, \<open>b\<close> whether it
  sits in an address card; \<open>PaymentChange n\<close> the change of a payment radio, \<open>n\<close> the
  name shown by its card if it sits in one.\<close>

datatype checkout_event =
    AddressChange bool | ShippingChange nat | PaymentChange "string option"
  | SaveAddressClick bool | SaveAddressSettle save_result | AddressModalHidden
  | CouponSubmit | QuickApply string | CouponTimer nat | CouponCloseTimer | CouponModalHidden
  | OrderSubmit | Online | Offline

section \<open>The summary\<close>

text \<open>\<open>subtotalAmount\<close>: a number is taken as it is, anything else goes through
  \<open>parseFloat(x || 0)\<close>.\<close>

definition checkout_subtotal :: "json option \<Rightarrow> real option" where
  "checkout_subtotal v =
     (case v of
        Some (JNum n) \<Rightarrow> Some n
      | Some w \<Rightarrow> if json_truthy w then parse_float (json_text w) else Some 0
      | None \<Rightarrow> Some 0)"

definition free_tag_text :: string where
  "free_tag_text = ''Gratuite''"

text \<open>The cost of a rate, \<open>parseFloat(dataset.cost) || 0\<close>, and \<open>dataset.isFree === 'true'\<close>.\<close>

definition rate_cost :: "string option \<times> string option \<Rightarrow> real" where
  "rate_cost r = js_or (parse_float (case fst r of None \<Rightarrow> ''undefined'' | Some c \<Rightarrow> c)) 0"

definition rate_free :: "string option \<times> string option \<Rightarrow> bool" where
  "rate_free r \<longleftrightarrow> snd r = Some ''true''"

text \<open>The discount the summary subtracts: the displayed discount read back, when the row
  is shown.\<close>

definition shown_discount :: "checkout_page \<Rightarrow> real" where
  "shown_discount pg = (if discount_hidden pg then 0 else js_or (read_amount (discount_display pg)) 0)"

definition updateShippingCost :: "checkout_page \<Rightarrow> checkout_page" where
  "updateShippingCost pg =
     (case rate_checked pg of
        None \<Rightarrow> pg\<lparr>shipping_display := free_tag_text, total_display := fcfa (locale_text (subtotal pg))\<rparr>
      | Some k \<Rightarrow>
          let r = rates pg ! k; cost = rate_cost r
          in pg\<lparr>shipping_display :=
                  (if rate_free r \<or> cost = 0 then free_tag_text else fcfa (to_locale_fr cost)),
                total_display :=
                  fcfa (locale_text (map_option (\<lambda>s. s + cost - shown_discount pg) (subtotal pg)))\<rparr>)"

section \<open>Handlers\<close>

definition ck_notify :: "toast_kind \<Rightarrow> checkout_msg \<Rightarrow> checkout_page \<Rightarrow> checkout_page" where
  "ck_notify k m pg = pg\<lparr>ck_toasts := ck_toasts pg @ [(k, m)]\<rparr>"

definition shipping_change :: "nat \<Rightarrow> checkout_page \<Rightarrow> checkout_page" where
  "shipping_change k pg =
     (if length (rates pg) \<le> k then pg
      else ck_notify Success MsgShippingUpdated (updateShippingCost (pg\<lparr>rate_checked := Some k\<rparr>)))"

text \<open>\<open>validCodes\<close> of \<open>initCouponSystem\<close>.\<close>

definition valid_code :: "string \<Rightarrow> (coupon \<times> string) option" where
  "valid_code c =
     (if c = ''BIENVENUE20'' then Some (Percentage 20, ''20%'')
      else if c = ''PROMO10'' then Some (Percentage 10, ''10%'')
      else if c = ''LIVRAISON-OFFERTE'' then Some (FreeShipping, ''livraison'')
      else None)"

definition coupon_submit :: "checkout_page \<Rightarrow> checkout_page" where
  "coupon_submit pg =
     (let code = js_to_upper (js_trim (coupon_input pg))
      in if code = [] then pg\<lparr>coupon_msg := CouponEmpty\<rparr>
         else pg\<lparr>coupon_msg := CouponChecking, coupon_timers := coupon_timers pg @ [code]\<rparr>)"

text \<open>The \<open>setTimeout(..., 1000)\<close> callback of the coupon form.\<close>

definition coupon_apply :: "string \<Rightarrow> checkout_page \<Rightarrow> checkout_page" where
  "coupon_apply code pg =
     (case valid_code code of
        None \<Rightarrow> ck_notify Error MsgCouponInvalid (pg\<lparr>coupon_msg := CouponBad\<rparr>)
      | Some (d, label) \<Rightarrow>
          let value = (case d of
                         Percentage p \<Rightarrow> map_option (\<lambda>s. s * (p / 100)) (subtotal pg)
                       | FreeShipping \<Rightarrow> Some (js_or (read_amount (shipping_display pg)) 0));
              pg1 = pg\<lparr>coupon_msg := CouponOk label,
                       discount_display := ''- '' @ fcfa (locale_text value), discount_hidden := False\<rparr>
          in (ck_notify Success MsgCouponApplied (updateShippingCost pg1))\<lparr>coupon_closers := Suc (coupon_closers pg)\<rparr>)"

definition coupon_timer :: "nat \<Rightarrow> checkout_page \<Rightarrow> checkout_page" where
  "coupon_timer k pg =
     (if length (coupon_timers pg) \<le> k then pg
      else coupon_apply (coupon_timers pg ! k)
             (pg\<lparr>coupon_timers := take k (coupon_timers pg) @ drop (Suc k) (coupon_timers pg)\<rparr>))"

definition quick_apply :: "string \<Rightarrow> checkout_page \<Rightarrow> checkout_page" where
  "quick_apply code pg = coupon_submit (pg\<lparr>coupon_input := code\<rparr>)"

text \<open>The order form's submit listener: the three checks in the code's order.\<close>

definition order_submit :: "checkout_page \<Rightarrow> checkout_page" where
  "order_submit pg =
     (if \<not> address_checked pg then ck_notify Warning MsgSelectAddress pg
      else if rate_checked pg = None then ck_notify Warning MsgSelectShipping pg
      else if terms_box pg \<noteq> Some True then ck_notify Warning MsgAcceptTerms pg
      else ck_notify Info MsgValidating (pg\<lparr>confirm_disabled := True, loading := True, submit_pending := True\<rparr>))"

text \<open>The save button of the add-address modal; \<open>valid\<close> is the form's
  \<open>checkValidity()\<close>.\<close>

definition save_address_click :: "bool \<Rightarrow> checkout_page \<Rightarrow> checkout_page" where
  "save_address_click valid pg =
     (if save_btn_disabled pg \<or> \<not> valid then pg
      else pg\<lparr>save_btn_disabled := True, save_requests := Suc (save_requests pg)\<rparr>)"

definition save_address_settle :: "save_result \<Rightarrow> checkout_page \<Rightarrow> checkout_page" where
  "save_address_settle r pg =
     (if save_requests pg = 0 then pg
      else let pg0 = pg\<lparr>save_requests := save_requests pg - 1\<rparr>
      in case r of
           SaveFailed \<Rightarrow> ck_notify Error MsgConnectionError (pg0\<lparr>save_btn_disabled := False\<rparr>)
         | SaveAnswered True m \<Rightarrow>
             (ck_notify Success (case m of Some s \<Rightarrow> if s \<noteq> [] then MsgServerMessage s else MsgAddressSaved
                                        | None \<Rightarrow> MsgAddressSaved) pg0)\<lparr>redirect_pending := True\<rparr>
         | SaveAnswered False m \<Rightarrow>
             ck_notify Error (case m of Some s \<Rightarrow> if s \<noteq> [] then MsgServerMessage s else MsgAddressSaveError
                                     | None \<Rightarrow> MsgAddressSaveError) (pg0\<lparr>save_btn_disabled := False\<rparr>))"

text \<open>\<open>hidden.bs.modal\<close> of the add-address modal: the form and the save button are reset,
  whatever the state of a request.\<close>

definition address_modal_hidden :: "checkout_page \<Rightarrow> checkout_page" where
  "address_modal_hidden pg = pg\<lparr>save_btn_disabled := False\<rparr>"

text \<open>The change listener of \<open>initAddressSelection\<close>.\<close>

definition address_change :: "bool \<Rightarrow> checkout_page \<Rightarrow> checkout_page" where
  "address_change in_card pg =
     (let pg1 = pg\<lparr>address_checked := True\<rparr> in if in_card then ck_notify Info MsgAddressUpdated pg1 else pg1)"

text \<open>The change listener of \<open>initPaymentSelection\<close>.\<close>

definition payment_change :: "string option \<Rightarrow> checkout_page \<Rightarrow> checkout_page" where
  "payment_change name pg = (case name of None \<Rightarrow> pg | Some n \<Rightarrow> ck_notify Info (MsgPayment n) pg)"

text \<open>The \<open>setTimeout(..., 2000)\<close> of an accepted coupon: the modal is hidden (its
  \<open>hidden.bs.modal\<close> listener is the event \<open>CouponModalHidden\<close>) and the input cleared.\<close>

definition coupon_close_timer :: "checkout_page \<Rightarrow> checkout_page" where
  "coupon_close_timer pg =
     (if coupon_closers pg = 0 then pg else pg\<lparr>coupon_closers := coupon_closers pg - 1, coupon_input := []\<rparr>)"

definition coupon_modal_hidden :: "checkout_page \<Rightarrow> checkout_page" where
  "coupon_modal_hidden pg = pg\<lparr>coupon_msg := CouponNone, coupon_input := []\<rparr>"

text \<open>\<open>initNetworkHandlers\<close>: \<open>online\<close> and \<open>offline\<close> (the latter calls \<open>hideLoading\<close>).\<close>

definition network_change :: "bool \<Rightarrow> checkout_page \<Rightarrow> checkout_page" where
  "network_change up pg =
     (if up then ck_notify Success MsgOnline pg else ck_notify Error MsgOffline (pg\<lparr>loading := False\<rparr>))"

fun checkout_step :: "checkout_page \<Rightarrow> checkout_event \<Rightarrow> checkout_page" where
  "checkout_step pg (AddressChange b) = address_change b pg"
| "checkout_step pg (ShippingChange k) = shipping_change k pg"
| "checkout_step pg (PaymentChange n) = payment_change n pg"
| "checkout_step pg (SaveAddressClick v) = save_address_click v pg"
| "checkout_step pg (SaveAddressSettle r) = save_address_settle r pg"
| "checkout_step pg AddressModalHidden = address_modal_hidden pg"
| "checkout_step pg CouponSubmit = coupon_submit pg"
| "checkout_step pg (QuickApply c) = quick_apply c pg"
| "checkout_step pg (CouponTimer k) = coupon_timer k pg"
| "checkout_step pg CouponCloseTimer = coupon_close_timer pg"
| "checkout_step pg CouponModalHidden = coupon_modal_hidden pg"
| "checkout_step pg OrderSubmit = order_submit pg"
| "checkout_step pg Online = network_change True pg"
| "checkout_step pg Offline = network_change False pg"

primrec checkout_run :: "checkout_page \<Rightarrow> checkout_event list \<Rightarrow> checkout_page" where
  "checkout_run pg [] = pg"
| "checkout_run pg (e # es) = checkout_run (checkout_step pg e) es"

text \<open>\<open>init\<close>: \<open>initShippingSelection\<close> computes the summary once.\<close>

definition checkout_init :: "checkout_page \<Rightarrow> checkout_page" where
  "checkout_init pg = updateShippingCost pg"

inductive checkout_reachable :: "checkout_page \<Rightarrow> bool" where
  init: "checkout_reachable (checkout_init pg)"
| step: "checkout_reachable pg \<Longrightarrow> checkout_reachable (checkout_step pg e)"

text \<open>The total the summary shows for the current selection and displayed discount.\<close>

definition expected_total :: "checkout_page \<Rightarrow> string" where
  "expected_total pg =
     fcfa (locale_text (case rate_checked pg of
                          None \<Rightarrow> subtotal pg
                        | Some k \<Rightarrow> map_option (\<lambda>s. s + rate_cost (rates pg ! k) - shown_discount pg)
                                      (subtotal pg)))"

text \<open>The invariant of the summary: the total shown is the one the current selection and
  the displayed discount give.\<close>

definition total_ok :: "checkout_page \<Rightarrow> bool" where
  "total_ok pg \<longleftrightarrow> total_display pg = expected_total pg"

text \<open>A page of two rates (1000 FCFA, and a rate marked free that costs 2500) under a
  subtotal of 12345 FCFA, used to evaluate the properties.\<close>

definition demo_checkout :: checkout_page where
  "demo_checkout = \<lparr>subtotal = Some 12345,
     rates = [(Some ''1000'', Some ''false''), (Some ''2500'', Some ''true'')], rate_checked = Some 0,
     address_checked = False, terms_box = Some False, shipping_display = [], discount_display = [],
     discount_hidden = True, total_display = [], coupon_input = [], coupon_msg = CouponNone,
     coupon_timers = [], coupon_closers = 0, save_btn_disabled = False, save_requests = 0,
     redirect_pending = False, confirm_disabled = False, loading = False, submit_pending = False,
     ck_toasts = []\<rparr>"

section \<open>Lemmas\<close>

lemma total_updateShippingCost: "total_display (updateShippingCost pg) = expected_total (updateShippingCost pg)"
  by (simp add: updateShippingCost_def expected_total_def shown_discount_def Let_def split: option.splits)

lemma updateShippingCost_frame [simp]:
  "rate_checked (updateShippingCost pg) = rate_checked pg"
  "rates (updateShippingCost pg) = rates pg"
  "subtotal (updateShippingCost pg) = subtotal pg"
  "discount_display (updateShippingCost pg) = discount_display pg"
  "discount_hidden (updateShippingCost pg) = discount_hidden pg"
  "address_checked (updateShippingCost pg) = address_checked pg"
  "terms_box (updateShippingCost pg) = terms_box pg"
  "submit_pending (updateShippingCost pg) = submit_pending pg"
  "ck_toasts (updateShippingCost pg) = ck_toasts pg"
  by (simp_all add: updateShippingCost_def Let_def split: option.splits)


lemma total_ok_update: "total_ok (updateShippingCost pg)"
  by (simp add: total_ok_def total_updateShippingCost)

lemma ck_notify_summary [simp]:
  "total_display (ck_notify k m pg) = total_display pg" "expected_total (ck_notify k m pg) = expected_total pg"
  by (simp_all add: ck_notify_def expected_total_def shown_discount_def split: option.splits)

lemma expected_total_eqI:
  assumes "rate_checked q = rate_checked pg" "rates q = rates pg" "subtotal q = subtotal pg"
    "discount_display q = discount_display pg" "discount_hidden q = discount_hidden pg"
  shows "expected_total q = expected_total pg"
  using assms by (simp add: expected_total_def shown_discount_def split: option.splits)

lemma total_ok_eqI:
  assumes "total_ok pg" "total_display q = total_display pg"
    "rate_checked q = rate_checked pg" "rates q = rates pg" "subtotal q = subtotal pg"
    "discount_display q = discount_display pg" "discount_hidden q = discount_hidden pg"
  shows "total_ok q"
  using assms expected_total_eqI[of q pg] by (simp add: total_ok_def)

lemma total_ok_notify [simp]: "total_ok (ck_notify k m pg) = total_ok pg"
  by (simp add: total_ok_def)

lemma total_ok_closers [simp]: "total_ok (pg\<lparr>coupon_closers := n\<rparr>) = total_ok pg"
  using expected_total_eqI[of "pg\<lparr>coupon_closers := n\<rparr>" pg] by (simp add: total_ok_def)

lemma total_ok_coupon_apply: "total_ok q \<Longrightarrow> total_ok (coupon_apply c q)"
proof (cases "valid_code c")
  case (Some dl)
  obtain d l where "dl = (d, l)" by fastforce
  with Some show ?thesis
    by (simp add: coupon_apply_def Let_def total_ok_update)
qed (simp add: coupon_apply_def, rule total_ok_eqI; simp)

lemma total_ok_shipping_change: "total_ok pg \<Longrightarrow> total_ok (shipping_change k pg)"
  by (simp add: shipping_change_def total_ok_update)

lemma total_ok_order_submit: "total_ok pg \<Longrightarrow> total_ok (order_submit pg)"
  by (simp add: order_submit_def) (intro conjI impI; rule total_ok_eqI[of pg]; simp)

lemma total_ok_coupon_submit: "total_ok pg \<Longrightarrow> total_ok (coupon_submit pg)"
  by (simp add: coupon_submit_def Let_def) (intro conjI impI; rule total_ok_eqI[of pg]; simp)

lemma total_ok_save_settle: "total_ok pg \<Longrightarrow> total_ok (save_address_settle r pg)"
  by (cases r) (auto simp: save_address_settle_def Let_def ck_notify_def intro!: total_ok_eqI[of pg] split: bool.splits)

lemma total_ok_step:
  assumes ok: "total_ok pg" shows "total_ok (checkout_step pg e)"
proof (cases e)
  case (CouponTimer k)
  have "total_ok (pg\<lparr>coupon_timers := ts\<rparr>)" for ts
    using ok by (rule total_ok_eqI) simp_all
  with CouponTimer ok show ?thesis by (simp add: coupon_timer_def total_ok_coupon_apply)
next
  case (AddressChange b)
  have "total_ok (pg\<lparr>address_checked := True\<rparr>)" by (rule total_ok_eqI[OF ok]; simp)
  with AddressChange show ?thesis by (simp add: address_change_def Let_def)
next
  case (Online)
  with ok show ?thesis by (simp add: network_change_def)
next
  case (Offline)
  have "total_ok (pg\<lparr>loading := False\<rparr>)" by (rule total_ok_eqI[OF ok]; simp)
  with Offline show ?thesis by (simp add: network_change_def)
next
  case (PaymentChange n)
  with ok show ?thesis by (simp add: payment_change_def split: option.splits)
next
  case (SaveAddressClick v)
  then show ?thesis by (simp add: save_address_click_def) (intro conjI impI ok; rule total_ok_eqI[OF ok]; simp)
next
  case AddressModalHidden
  then show ?thesis by (simp add: address_modal_hidden_def) (rule total_ok_eqI[OF ok]; simp)
next
  case CouponCloseTimer
  then show ?thesis by (simp add: coupon_close_timer_def) (intro conjI impI ok; rule total_ok_eqI[OF ok]; simp)
next
  case CouponModalHidden
  then show ?thesis by (simp add: coupon_modal_hidden_def) (rule total_ok_eqI[OF ok]; simp)
next
  case (QuickApply c)
  have "total_ok (pg\<lparr>coupon_input := c\<rparr>)" by (rule total_ok_eqI[OF ok]; simp)
  with QuickApply show ?thesis by (simp add: quick_apply_def total_ok_coupon_submit)
qed (simp_all add: ok total_ok_shipping_change total_ok_order_submit quick_apply_def
  total_ok_coupon_submit total_ok_save_settle)

lemma checkout_reachable_run: "checkout_reachable pg \<Longrightarrow> checkout_reachable (checkout_run pg es)"
  by (induction es arbitrary: pg) (simp_all add: checkout_reachable.step)

lemma reachable_total_ok: "checkout_reachable pg \<Longrightarrow> total_ok pg"
  by (induction rule: checkout_reachable.induct) (simp_all add: checkout_init_def total_ok_update total_ok_step)

lemma rate_cost_demo: "rate_cost (Some ''1000'', r) = 1000" "rate_cost (Some ''2500'', r) = 2500"
  by (simp_all add: rate_cost_def parse_float_def strip_sign_def exponent_part_def pow10_def
      digits_to_nat_def js_char_simps)

lemma locale_1234_5: "to_locale_fr (2469/2) = ''1'' @ narrow_nbsp @ ''234,5''"
  by (simp add: to_locale_fr_def Let_def frac3_def group3.simps show_nat.simps js_char_simps)

lemma read_1234_5: "read_amount (''- '' @ fcfa (''1'' @ narrow_nbsp @ ''234,5'')) = Some 12345"
  by (simp add: read_amount_def fcfa_def narrow_nbsp_def digits_only_def is_digit_def parse_float_def
      strip_sign_def exponent_part_def pow10_def digits_to_nat_def js_char_simps)

section \<open>Properties\<close>



text \<open>C28: a percentage coupon whose discount is a whole number of francs is subtracted
  exactly: the total shown after the coupon is subtotal plus rate minus discount.\<close>

theorem whole_discount_total:
  assumes "valid_code c = Some (Percentage p, l)" "subtotal pg = Some s" "rate_checked pg = Some k"
    "s * (p / 100) = of_nat n"
  shows "total_display (coupon_apply c pg) = fcfa (to_locale_fr (s + rate_cost (rates pg ! k) - of_nat n))"
  using assms
  by (simp add: coupon_apply_def updateShippingCost_def shown_discount_def locale_text_def
      read_amount_whole ck_notify_def Let_def)

theorem whole_discount_total_witness:
  "total_display (coupon_apply ''BIENVENUE20'' demo_checkout) = fcfa (to_locale_fr (12345 + 1000 - 2469))"
  using whole_discount_total[of "''BIENVENUE20''" 20 "''20%''" demo_checkout 12345 0 2469]
  by (simp add: demo_checkout_def valid_code_def rate_cost_demo)


text \<open>C30: selecting a rate marked free shows the shipping as free but adds the rate's cost
  to the total.\<close>

theorem free_rate_charged:
  assumes "k < length (rates pg)" "rate_free (rates pg ! k)" "subtotal pg = Some s" "discount_hidden pg"
  shows "shipping_display (shipping_change k pg) = free_tag_text
    \<and> total_display (shipping_change k pg) = fcfa (to_locale_fr (s + rate_cost (rates pg ! k)))"
  using assms
  by (simp add: shipping_change_def updateShippingCost_def shown_discount_def locale_text_def
      ck_notify_def Let_def)

theorem free_rate_charged_witness:
  "shipping_display (shipping_change 1 demo_checkout) = free_tag_text
    \<and> total_display (shipping_change 1 demo_checkout) = fcfa (to_locale_fr (12345 + 2500))"
  using free_rate_charged[of 1 demo_checkout 12345]
  by (simp add: demo_checkout_def rate_free_def rate_cost_demo)

text \<open>C31: with no shipping rate selected, an accepted coupon shows its discount row but the
  total stays the subtotal: the discount is not subtracted.\<close>

theorem no_rate_discount_ignored:
  assumes "rate_checked pg = None" "subtotal pg = Some s" "valid_code c = Some dl"
  shows "\<not> discount_hidden (coupon_apply c pg) \<and> total_display (coupon_apply c pg) = fcfa (to_locale_fr s)"
  using assms
  by (cases dl) (simp add: coupon_apply_def updateShippingCost_def locale_text_def ck_notify_def Let_def)

theorem no_rate_discount_ignored_witness:
  "\<not> discount_hidden (coupon_apply ''BIENVENUE20'' (demo_checkout\<lparr>rate_checked := None\<rparr>))
   \<and> total_display (coupon_apply ''BIENVENUE20'' (demo_checkout\<lparr>rate_checked := None\<rparr>)) = fcfa (to_locale_fr 12345)"
  using no_rate_discount_ignored[of "demo_checkout\<lparr>rate_checked := None\<rparr>" 12345 "''BIENVENUE20''"]
  by (simp add: demo_checkout_def valid_code_def)

text \<open>C32: the order form is submitted only when an address is selected, a shipping rate
  is selected and the terms box exists and is ticked; otherwise the warning of the first
  failing check is the toast shown.\<close>

theorem order_submit_checks:
  "submit_pending (order_submit pg) =
     (submit_pending pg \<or> address_checked pg \<and> rate_checked pg \<noteq> None \<and> terms_box pg = Some True)
   \<and> snd (last (ck_toasts (order_submit pg))) =
     (if \<not> address_checked pg then MsgSelectAddress else if rate_checked pg = None then MsgSelectShipping
      else if terms_box pg \<noteq> Some True then MsgAcceptTerms else MsgValidating)"
  by (simp add: order_submit_def ck_notify_def)

text \<open>C33: the add-address modal's \<open>hidden.bs.modal\<close> handler re-enables the save button
  while its request is in flight, so a click, a close and a second click send two
  requests.\<close>

theorem double_save_request:
  "\<not> save_btn_disabled pg \<Longrightarrow>
   save_requests (checkout_run pg [SaveAddressClick True, AddressModalHidden, SaveAddressClick True])
   = save_requests pg + 2"
  by (simp add: save_address_click_def address_modal_hidden_def)

theorem double_save_request_witness:
  "save_requests (checkout_run demo_checkout [SaveAddressClick True, AddressModalHidden, SaveAddressClick True]) = 2"
  using double_save_request[of demo_checkout] by (simp add: demo_checkout_def)

end
