(* ===== verification/Cart_Page.thy ===== *)
theory Cart_Page
  imports Locale_Format
begin

text \<open>
  The cart page, \<open>orders/cart-detail.js\<close>: the quantity steppers of the cart items, the
  remove and clear-cart forms with their confirmations, the coupon form and its quick-apply
  buttons, the summary update \<open>updateCartTotal\<close>, the generic form listener of
  \<open>initFormSubmissions\<close> and the network listeners. The page record keeps, per item, the
  stepper's input value and \<open>max\<close> attribute (the strings the code parses) and the
  disabled flags of its two buttons; the disabled state that \<open>disableAllInteractions\<close>
  gives every other button and \<open>a.btn\<close> link is one flag. A click on a disabled button
  is not dispatched by the browser, so the step function drops it. \<open>confirm\<close> is a
  parameter of the submit events; the submissions \<open>form.submit()\<close> starts are recorded in
  order, and the timers the code starts are a pending list.
\<close>

record cart_item =
  qty_value :: string
  qty_max :: string
  dec_disabled :: bool
  inc_disabled :: bool
  has_stepper :: bool
  item_name :: "string option"

datatype cart_form = QtyForm nat | RemoveForm nat | ClearForm

datatype cart_prompt = RemovePrompt string | ClearPrompt nat

datatype cart_msg =
    MsgMaxQty string | MsgCartEmpty | MsgSaveLater | MsgCartCouponApplied | MsgCartCouponInvalid
  | MsgCartOnline | MsgCartOffline

datatype cart_coupon_msg = CartCouponNone | CartCouponEmpty | CartCouponOk string | CartCouponBad

datatype cart_discount = CartPercentage real | CartFixed real

datatype cart_timer = RemoveTimer nat | ClearTimer | CouponCheck string string | CouponClose

record cart_page =
  items :: "cart_item list"
  cart_loading :: bool
  others_disabled :: bool
  submitted :: "cart_form list"
  prompts :: "cart_prompt list"
  has_clear_form :: bool
  has_save_later :: bool
  has_coupon_form :: bool
  summary_present :: bool
  subtotal_text :: string
  discount_text :: string
  discount_row_hidden :: bool
  total_text :: string
  coupon_value :: string
  coupon_message :: cart_coupon_msg
  apply_btn_html :: string
  apply_btn_disabled :: bool
  cart_timers :: "cart_timer list"
  cart_toasts :: "(toast_kind \<times> cart_msg) list"

datatype cart_event =
    Decrease nat | Increase nat | RemoveSubmit nat bool | ClearSubmit bool | SaveForLater
  | CartCouponSubmit | CartQuickApply string | CartTimer nat | CartOnline | CartOffline

section \<open>Helpers\<close>

definition cart_notify :: "toast_kind \<Rightarrow> cart_msg \<Rightarrow> cart_page \<Rightarrow> cart_page" where
  "cart_notify k m pg = pg\<lparr>cart_toasts := cart_toasts pg @ [(k, m)]\<rparr>"

definition map_item :: "nat \<Rightarrow> (cart_item \<Rightarrow> cart_item) \<Rightarrow> cart_page \<Rightarrow> cart_page" where
  "map_item i f pg = pg\<lparr>items := (items pg)[i := f (items pg ! i)]\<rparr>"

text \<open>\<open>disableAllInteractions\<close>: every \<open>button\<close> and \<open>a.btn\<close> of the page.\<close>

definition disableAllInteractions :: "cart_page \<Rightarrow> cart_page" where
  "disableAllInteractions pg =
     pg\<lparr>items := map (\<lambda>it. it\<lparr>dec_disabled := True, inc_disabled := True\<rparr>) (items pg),
        others_disabled := True, apply_btn_disabled := True\<rparr>"

text \<open>\<open>submitQuantityUpdate\<close>: \<open>showLoading\<close>, every \<open>.qty-btn\<close> disabled, \<open>form.submit()\<close>
  (which fires no submit event).\<close>

definition submitQuantityUpdate :: "nat \<Rightarrow> cart_page \<Rightarrow> cart_page" where
  "submitQuantityUpdate i pg =
     pg\<lparr>cart_loading := True,
        items := map (\<lambda>it. it\<lparr>dec_disabled := True, inc_disabled := True\<rparr>) (items pg),
        submitted := submitted pg @ [QtyForm i]\<rparr>"

section \<open>Quantity steppers\<close>

definition decrease_click :: "nat \<Rightarrow> cart_page \<Rightarrow> cart_page" where
  "decrease_click i pg =
     (let it = items pg ! i
      in case parse_int (qty_value it) of
           Some c \<Rightarrow>
             if 1 < c
             then submitQuantityUpdate i
                    (map_item i (\<lambda>it. it\<lparr>qty_value := show_int (c - 1),
                                         dec_disabled := (c - 1 = 1 \<or> dec_disabled it),
                                         inc_disabled := False\<rparr>) pg)
             else pg
         | None \<Rightarrow> pg)"

text \<open>The warning shows \<open>${maxValue}\<close>, which is \<open>NaN\<close> when \<open>max\<close> does not parse.\<close>

definition increase_click :: "nat \<Rightarrow> cart_page \<Rightarrow> cart_page" where
  "increase_click i pg =
     (let it = items pg ! i; cur = parse_int (qty_value it); mx = parse_int (qty_max it)
      in case (cur, mx) of
           (Some c, Some m) \<Rightarrow>
             if c < m
             then submitQuantityUpdate i
                    (map_item i (\<lambda>it. it\<lparr>qty_value := show_int (c + 1),
                                         inc_disabled := (m \<le> c + 1 \<or> inc_disabled it),
                                         dec_disabled := False\<rparr>) pg)
             else cart_notify Warning (MsgMaxQty (show_int m)) pg
         | (_, Some m) \<Rightarrow> cart_notify Warning (MsgMaxQty (show_int m)) pg
         | (_, None) \<Rightarrow> cart_notify Warning (MsgMaxQty ''NaN'') pg)"

section \<open>Remove, clear, save for later\<close>

text \<open>\<open>?.textContent.trim() || 'cet article'\<close>.\<close>

definition product_name :: "cart_item \<Rightarrow> string" where
  "product_name it =
     (case item_name it of
        None \<Rightarrow> ''cet article''
      | Some t \<Rightarrow> if js_trim t = [] then ''cet article'' else js_trim t)"

text \<open>The listener of \<open>initFormSubmissions\<close> runs after the form's own listener, on every
  form but the coupon form, whatever the own listener decided.\<close>

definition remove_submit :: "nat \<Rightarrow> bool \<Rightarrow> cart_page \<Rightarrow> cart_page" where
  "remove_submit i ok pg =
     (let pg1 = pg\<lparr>prompts := prompts pg @ [RemovePrompt (product_name (items pg ! i))]\<rparr>
      in disableAllInteractions
           (if ok then pg1\<lparr>cart_loading := True, cart_timers := cart_timers pg1 @ [RemoveTimer i]\<rparr> else pg1))"

definition clear_submit :: "bool \<Rightarrow> cart_page \<Rightarrow> cart_page" where
  "clear_submit ok pg =
     disableAllInteractions
       (let n = length (items pg)
        in if n = 0 then cart_notify Info MsgCartEmpty pg
           else let pg1 = pg\<lparr>prompts := prompts pg @ [ClearPrompt n]\<rparr>
                in if ok then pg1\<lparr>cart_loading := True, cart_timers := cart_timers pg1 @ [ClearTimer]\<rparr>
                   else pg1)"

section \<open>Coupons\<close>

definition cart_valid_code :: "string \<Rightarrow> (cart_discount \<times> string) option" where
  "cart_valid_code c =
     (if c = ''BIENVENUE20'' then Some (CartPercentage 20, ''20%'')
      else if c = ''ETE2024'' then Some (CartPercentage 10, ''10%'')
      else if c = ''FRAIS-PORT'' then Some (CartFixed 0, ''livraison'')
      else None)"

definition cart_spinner_html :: string where
  "cart_spinner_html = ''<span class=\"spinner-border spinner-border-sm me-2\"></span>V'' @ [CHR 0xC3, CHR 0xA9] @ ''rification...''"

definition applyCouponCode :: "string \<Rightarrow> cart_page \<Rightarrow> cart_page" where
  "applyCouponCode code pg =
     (if code = [] then pg\<lparr>coupon_message := CartCouponEmpty\<rparr>
      else pg\<lparr>apply_btn_html := cart_spinner_html, apply_btn_disabled := True,
              cart_timers := cart_timers pg @ [CouponCheck code (apply_btn_html pg)]\<rparr>)"

text \<open>\<open>updateCartTotal\<close>: the subtotal is read back from its display; \<open>NaN\<close> propagates.\<close>

definition updateCartTotal :: "cart_discount \<Rightarrow> cart_page \<Rightarrow> cart_page" where
  "updateCartTotal d pg =
     (if \<not> summary_present pg then pg
      else let cur = read_amount (subtotal_text pg);
               v = (case d of CartPercentage p \<Rightarrow> map_option (\<lambda>c. c * (p / 100)) cur
                            | CartFixed x \<Rightarrow> Some x);
               t = (case (cur, v) of (Some c, Some x) \<Rightarrow> Some (c - x) | _ \<Rightarrow> None)
           in pg\<lparr>discount_text := ''- '' @ fcfa (locale_text v), discount_row_hidden := False,
                 total_text := fcfa (locale_text t)\<rparr>)"

text \<open>The \<open>setTimeout(..., 1000)\<close> of \<open>applyCouponCode\<close>, with the button content it saved.\<close>

definition coupon_check :: "string \<Rightarrow> string \<Rightarrow> cart_page \<Rightarrow> cart_page" where
  "coupon_check code orig pg =
     (let pg1 = (case cart_valid_code code of
                   Some (d, label) \<Rightarrow>
                     (cart_notify Success MsgCartCouponApplied
                        (updateCartTotal d (pg\<lparr>coupon_message := CartCouponOk label\<rparr>)))
                       \<lparr>cart_timers := cart_timers pg @ [CouponClose]\<rparr>
                 | None \<Rightarrow> cart_notify Error MsgCartCouponInvalid (pg\<lparr>coupon_message := CartCouponBad\<rparr>))
      in pg1\<lparr>apply_btn_html := orig, apply_btn_disabled := False\<rparr>)"

definition cart_coupon_submit :: "cart_page \<Rightarrow> cart_page" where
  "cart_coupon_submit pg = applyCouponCode (js_to_upper (js_trim (coupon_value pg))) pg"

definition cart_quick_apply :: "string \<Rightarrow> cart_page \<Rightarrow> cart_page" where
  "cart_quick_apply code pg = cart_coupon_submit (pg\<lparr>coupon_value := code\<rparr>)"

section \<open>Timers and the event loop\<close>

definition cart_timer_fire :: "cart_timer \<Rightarrow> cart_page \<Rightarrow> cart_page" where
  "cart_timer_fire t pg =
     (case t of
        RemoveTimer i \<Rightarrow> pg\<lparr>submitted := submitted pg @ [RemoveForm i]\<rparr>
      | ClearTimer \<Rightarrow> pg\<lparr>submitted := submitted pg @ [ClearForm]\<rparr>
      | CouponCheck code orig \<Rightarrow> coupon_check code orig pg
      | CouponClose \<Rightarrow> pg\<lparr>coupon_value := []\<rparr>)"

definition cart_timer :: "nat \<Rightarrow> cart_page \<Rightarrow> cart_page" where
  "cart_timer k pg =
     (if length (cart_timers pg) \<le> k then pg
      else cart_timer_fire (cart_timers pg ! k)
             (pg\<lparr>cart_timers := take k (cart_timers pg) @ drop (Suc k) (cart_timers pg)\<rparr>))"

definition cart_network :: "bool \<Rightarrow> cart_page \<Rightarrow> cart_page" where
  "cart_network up pg =
     (if up then cart_notify Success MsgCartOnline pg
      else cart_notify Error MsgCartOffline (pg\<lparr>cart_loading := False\<rparr>))"

text \<open>Which stepper button may receive a click: it exists, its listeners were attached
  (all four elements present), and it is not disabled.\<close>

definition stepper_ok :: "nat \<Rightarrow> (cart_item \<Rightarrow> bool) \<Rightarrow> cart_page \<Rightarrow> bool" where
  "stepper_ok i dis pg \<longleftrightarrow> i < length (items pg) \<and> has_stepper (items pg ! i) \<and> \<not> dis (items pg ! i)"

fun cart_step :: "cart_page \<Rightarrow> cart_event \<Rightarrow> cart_page" where
  "cart_step pg (Decrease i) = (if stepper_ok i dec_disabled pg then decrease_click i pg else pg)"
| "cart_step pg (Increase i) = (if stepper_ok i inc_disabled pg then increase_click i pg else pg)"
| "cart_step pg (RemoveSubmit i ok) =
     (if i < length (items pg) \<and> \<not> others_disabled pg then remove_submit i ok pg else pg)"
| "cart_step pg (ClearSubmit ok) =
     (if has_clear_form pg \<and> \<not> others_disabled pg then clear_submit ok pg else pg)"
| "cart_step pg SaveForLater =
     (if has_save_later pg \<and> \<not> others_disabled pg then cart_notify Info MsgSaveLater pg else pg)"
| "cart_step pg CartCouponSubmit =
     (if has_coupon_form pg \<and> \<not> apply_btn_disabled pg then cart_coupon_submit pg else pg)"
| "cart_step pg (CartQuickApply c) =
     (if has_coupon_form pg \<and> \<not> others_disabled pg then cart_quick_apply c pg else pg)"
| "cart_step pg (CartTimer k) = cart_timer k pg"
| "cart_step pg CartOnline = cart_network True pg"
| "cart_step pg CartOffline = cart_network False pg"

primrec cart_run :: "cart_page \<Rightarrow> cart_event list \<Rightarrow> cart_page" where
  "cart_run pg [] = pg"
| "cart_run pg (e # es) = cart_run (cart_step pg e) es"

text \<open>The stepper of an item shows a quantity within its bounds: its value and its
  \<open>max\<close> parse, and \<open>1 \<le> value \<le> max\<close>.\<close>

definition qty_in_range :: "cart_item \<Rightarrow> bool" where
  "qty_in_range it \<longleftrightarrow>
     (case (parse_int (qty_value it), parse_int (qty_max it)) of
        (Some v, Some m) \<Rightarrow> 1 \<le> v \<and> v \<le> m
      | _ \<Rightarrow> False)"

text \<open>The events a user causes by clicking or submitting (not timers or the network).\<close>

fun cart_user_event :: "cart_event \<Rightarrow> bool" where
  "cart_user_event (CartTimer k) = False"
| "cart_user_event CartOnline = False"
| "cart_user_event CartOffline = False"
| "cart_user_event e = True"

text \<open>A cart of one item at quantity 1 of at most 3, with a subtotal of 12000 FCFA.\<close>

definition demo_item :: cart_item where
  "demo_item = \<lparr>qty_value = ''1'', qty_max = ''3'', dec_disabled = True, inc_disabled = False,
     has_stepper = True, item_name = Some '' Chemise ''\<rparr>"

definition demo_cart :: cart_page where
  "demo_cart = \<lparr>items = [demo_item], cart_loading = False, others_disabled = False, submitted = [],
     prompts = [], has_clear_form = True, has_save_later = True, has_coupon_form = True,
     summary_present = True, subtotal_text = ''12'' @ narrow_nbsp @ ''000 FCFA'', discount_text = [],
     discount_row_hidden = True, total_text = ''12'' @ narrow_nbsp @ ''000 FCFA'', coupon_value = [],
     coupon_message = CartCouponNone, apply_btn_html = ''Appliquer'', apply_btn_disabled = False,
     cart_timers = [], cart_toasts = []\<rparr>"

section \<open>Lemmas\<close>

lemma parse_int_show_int_nonneg: "0 \<le> i \<Longrightarrow> parse_int (show_int i) = Some i"
  by (simp add: show_int_def parse_int_show_nat)

lemma qty_in_range_flags [simp]:
  "qty_in_range (it\<lparr>dec_disabled := a, inc_disabled := b\<rparr>) = qty_in_range it"
  "qty_in_range (it\<lparr>inc_disabled := b, dec_disabled := a\<rparr>) = qty_in_range it"
  by (simp_all add: qty_in_range_def)

lemma items_submitQuantityUpdate [simp]:
  "items (submitQuantityUpdate j pg) = map (\<lambda>it. it\<lparr>dec_disabled := True, inc_disabled := True\<rparr>) (items pg)"
  by (simp add: submitQuantityUpdate_def)

lemma items_disableAll [simp]:
  "items (disableAllInteractions pg) = map (\<lambda>it. it\<lparr>dec_disabled := True, inc_disabled := True\<rparr>) (items pg)"
  by (simp add: disableAllInteractions_def)

lemma items_notify [simp]: "items (cart_notify k m pg) = items pg"
  by (simp add: cart_notify_def)

lemma decrease_in_range:
  assumes "i < length (items pg)" "qty_in_range (items pg ! i)"
  shows "qty_in_range (items (decrease_click j pg) ! i)"
proof (cases "parse_int (qty_value (items pg ! j))")
  case (Some c)
  show ?thesis
  proof (cases "1 < c \<and> i = j")
    case True
    with Some assms show ?thesis
      by (auto simp: decrease_click_def map_item_def qty_in_range_def parse_int_show_int_nonneg
          split: option.splits)
  qed (use Some assms in \<open>auto simp: decrease_click_def map_item_def Let_def\<close>)
qed (use assms in \<open>simp add: decrease_click_def Let_def\<close>)

lemma increase_in_range:
  assumes "i < length (items pg)" "qty_in_range (items pg ! i)"
  shows "qty_in_range (items (increase_click j pg) ! i)"
proof (cases "parse_int (qty_value (items pg ! j))"; cases "parse_int (qty_max (items pg ! j))")
  fix c m assume c: "parse_int (qty_value (items pg ! j)) = Some c" and m: "parse_int (qty_max (items pg ! j)) = Some m"
  show ?thesis
  proof (cases "c < m \<and> i = j")
    case True
    with c m assms show ?thesis
      by (auto simp: increase_click_def map_item_def qty_in_range_def parse_int_show_int_nonneg Let_def)
  qed (use c m assms in \<open>auto simp: increase_click_def map_item_def Let_def\<close>)
qed (use assms in \<open>simp_all add: increase_click_def Let_def\<close>)

lemma items_updateCartTotal [simp]: "items (updateCartTotal d pg) = items pg"
  by (simp add: updateCartTotal_def Let_def)

lemma items_coupon_check [simp]: "items (coupon_check c orig pg) = items pg"
  by (simp add: coupon_check_def Let_def split: option.splits prod.splits)

lemma items_applyCouponCode [simp]: "items (applyCouponCode c pg) = items pg"
  by (simp add: applyCouponCode_def)

lemma items_cart_timer [simp]: "items (cart_timer k pg) = items pg"
  by (simp add: cart_timer_def cart_timer_fire_def split: cart_timer.splits)

lemma length_items_step [simp]: "length (items (cart_step pg e)) = length (items pg)"
  by (cases e) (simp_all add: decrease_click_def increase_click_def map_item_def Let_def remove_submit_def
      clear_submit_def cart_coupon_submit_def cart_quick_apply_def cart_network_def
      split: option.splits prod.splits)

lemma in_range_step:
  assumes "i < length (items pg)" "qty_in_range (items pg ! i)"
  shows "qty_in_range (items (cart_step pg e) ! i)"
  using assms
  by (cases e) (auto simp: decrease_in_range increase_in_range remove_submit_def clear_submit_def
      cart_coupon_submit_def cart_quick_apply_def cart_network_def Let_def)

lemma others_disabled_step:
  "others_disabled pg \<Longrightarrow> apply_btn_disabled pg \<Longrightarrow> (\<forall>it \<in> set (items pg). dec_disabled it \<and> inc_disabled it)
   \<Longrightarrow> cart_user_event e \<Longrightarrow> cart_step pg e = pg"
  by (cases e) (auto simp: stepper_ok_def)

lemma coupon_check_button [simp]:
  "apply_btn_html (coupon_check c orig pg) = orig" "\<not> apply_btn_disabled (coupon_check c orig pg)"
  "others_disabled (coupon_check c orig pg) = others_disabled pg"
  "has_coupon_form (coupon_check c orig pg) = has_coupon_form pg"
  "cart_timers (coupon_check c orig pg) =
     cart_timers pg @ (case cart_valid_code c of None \<Rightarrow> [] | Some _ \<Rightarrow> [CouponClose])"
  by (simp_all add: coupon_check_def cart_notify_def updateCartTotal_def Let_def split: option.splits prod.splits)

section \<open>Properties\<close>

text \<open>C34: a quantity stepper that starts within its bounds stays within them, whatever
  the clicks, submissions and timers: the decrease button never goes below 1 and the
  increase button never above the \<open>max\<close> attribute.\<close>

theorem qty_stays_in_range:
  "i < length (items pg) \<Longrightarrow> qty_in_range (items pg ! i) \<Longrightarrow>
   i < length (items (cart_run pg es)) \<and> qty_in_range (items (cart_run pg es) ! i)"
  by (induction es arbitrary: pg) (simp_all add: in_range_step)

theorem qty_stays_in_range_witness:
  "qty_in_range (items (cart_run demo_cart [Increase 0, Decrease 0, Increase 0]) ! 0)"
  using qty_stays_in_range[of 0 demo_cart "[Increase 0, Decrease 0, Increase 0]"]
  by (simp add: demo_cart_def demo_item_def qty_in_range_def parse_int_def strip_sign_def strip_radix_def
      digits_to_nat_def radix_digit_def js_char_simps)

text \<open>C35: cancelling the confirmation of a removal submits nothing, but the generic
  submit listener of \<open>initFormSubmissions\<close> still runs \<open>disableAllInteractions\<close>: every
  later click or submission of the user is dropped, so the page is frozen until reloaded.\<close>

theorem cancelled_remove_freezes:
  assumes "i < length (items pg)" "\<not> others_disabled pg"
  shows "submitted (cart_step pg (RemoveSubmit i False)) = submitted pg
    \<and> cart_timers (cart_step pg (RemoveSubmit i False)) = cart_timers pg
    \<and> (\<forall>es. list_all cart_user_event es \<longrightarrow>
          cart_run (cart_step pg (RemoveSubmit i False)) es = cart_step pg (RemoveSubmit i False))"
proof -
  define q where "q = cart_step pg (RemoveSubmit i False)"
  have frozen: "cart_step q e = q" if "cart_user_event e" for e
    using assms that unfolding q_def
    by (intro others_disabled_step) (auto simp: remove_submit_def disableAllInteractions_def)
  have "list_all cart_user_event es \<Longrightarrow> cart_run q es = q" for es
    by (induction es) (simp_all add: frozen)
  moreover have "submitted q = submitted pg \<and> cart_timers q = cart_timers pg"
    using assms by (simp add: q_def remove_submit_def disableAllInteractions_def)
  ultimately show ?thesis by (simp add: q_def)
qed

theorem cancelled_remove_freezes_witness:
  "submitted (cart_step demo_cart (RemoveSubmit 0 False)) = []
   \<and> cart_run (cart_step demo_cart (RemoveSubmit 0 False)) [Increase 0, SaveForLater, CartCouponSubmit]
     = cart_step demo_cart (RemoveSubmit 0 False)"
proof -
  have h: "0 < length (items demo_cart)" "\<not> others_disabled demo_cart" "submitted demo_cart = []"
    by (simp_all add: demo_cart_def)
  have u: "list_all cart_user_event [Increase 0, SaveForLater, CartCouponSubmit]" by simp
  note t = cancelled_remove_freezes[OF h(1,2)]
  have a: "submitted (cart_step demo_cart (RemoveSubmit 0 False)) = submitted demo_cart"
    using t by (rule conjunct1)
  have b: "cart_run (cart_step demo_cart (RemoveSubmit 0 False)) [Increase 0, SaveForLater, CartCouponSubmit]
      = cart_step demo_cart (RemoveSubmit 0 False)"
    using conjunct2[OF conjunct2[OF t]] u by blast
  show ?thesis by (simp only: a b h(3) simp_thms)
qed

text \<open>C36: a second coupon submission while the first is being checked (a quick-apply
  button dispatches \<open>submit\<close> on the form even though its apply button is disabled)
  saves the spinner as the button's original content, so after both checks the apply
  button shows the spinner for ever.\<close>

theorem coupon_resubmit_spinner:
  assumes "has_coupon_form pg" "\<not> others_disabled pg" "cart_timers pg = []" "js_to_upper (js_trim c) \<noteq> []"
  shows "apply_btn_html (cart_run pg [CartQuickApply c, CartQuickApply c, CartTimer 0, CartTimer 0]) = cart_spinner_html
    \<and> \<not> apply_btn_disabled (cart_run pg [CartQuickApply c, CartQuickApply c, CartTimer 0, CartTimer 0])"
proof -
  let ?code = "js_to_upper (js_trim c)"
  define q where "q = cart_step (cart_step pg (CartQuickApply c)) (CartQuickApply c)"
  have q: "cart_timers q = [CouponCheck ?code (apply_btn_html pg), CouponCheck ?code cart_spinner_html]"
    using assms by (simp add: q_def cart_quick_apply_def cart_coupon_submit_def applyCouponCode_def)
  define r where "r = cart_step q (CartTimer 0)"
  have "\<exists>ts. cart_timers r = CouponCheck ?code cart_spinner_html # ts"
    using q by (simp add: r_def cart_timer_def cart_timer_fire_def)
  then obtain ts where ts: "cart_timers r = CouponCheck ?code cart_spinner_html # ts" ..
  have "cart_run pg [CartQuickApply c, CartQuickApply c, CartTimer 0, CartTimer 0] = cart_step r (CartTimer 0)"
    by (simp only: cart_run.simps q_def r_def)
  with ts show ?thesis by (simp add: cart_timer_def cart_timer_fire_def)
qed

theorem coupon_resubmit_spinner_witness:
  "apply_btn_html (cart_run demo_cart [CartQuickApply ''etE2024'', CartQuickApply ''etE2024'', CartTimer 0, CartTimer 0])
     = cart_spinner_html"
proof -
  have h: "has_coupon_form demo_cart" "\<not> others_disabled demo_cart" "cart_timers demo_cart = []"
    by (simp_all add: demo_cart_def)
  have c: "js_to_upper (js_trim ''etE2024'') \<noteq> []"
    by (simp add: js_to_upper_def js_trim_def is_js_space_def)
  show ?thesis using coupon_resubmit_spinner[OF h c] by simp
qed

end
