(* ===== verification/Site_Script.thy ===== *)
theory Site_Script
  imports JS_Coerce
begin

text \<open>
  The site-wide script \<open>main.js\<close>: the animated statistics counters
  (\<open>animateCounter\<close>, a \<open>setInterval\<close> loop), the \<open>+\<close>/\<open>-\<close> quantity buttons, the
  Bootstrap validation listener and the submit loader every form gets, the debounced
  search input, the scroll thresholds of the back-to-top button and the navbar, and the
  price formatting of \<open>.price-format\<close> elements. The counter's \<open>toLocaleString()\<close> uses
  the browser's default locale, which the script does not fix: it is a parameter
  \<open>fmt\<close> of the model. \<open>getCookie\<close> is in the theory \<open>Cookies\<close>.
\<close>

section \<open>Animated counters\<close>

record counter =
  cnt_text :: string
  cnt_current :: real
  cnt_cleared :: bool

text \<open>\<open>parseInt(element.textContent.replace(/\D/g, ''))\<close>.\<close>

definition counter_target :: "string \<Rightarrow> int option" where
  "counter_target t = parse_int (digits_only t)"

text \<open>One tick of the interval (every 16 ms, \<open>step = target / (2000 / 16)\<close>).\<close>

definition counter_tick :: "(int \<Rightarrow> string) \<Rightarrow> int \<Rightarrow> counter \<Rightarrow> counter" where
  "counter_tick fmt target c =
     (if cnt_cleared c then c
      else let cur = cnt_current c + of_int target / 125
           in if of_int target \<le> cur
              then c\<lparr>cnt_text := fmt target @ (if CHR ''+'' \<in> set (cnt_text c) then ''+'' else []),
                     cnt_current := cur, cnt_cleared := True\<rparr>
              else c\<lparr>cnt_text := fmt \<lfloor>cur\<rfloor>, cnt_current := cur\<rparr>)"

primrec counter_run :: "(int \<Rightarrow> string) \<Rightarrow> int \<Rightarrow> nat \<Rightarrow> counter \<Rightarrow> counter" where
  "counter_run fmt target 0 c = c"
| "counter_run fmt target (Suc n) c = counter_run fmt target n (counter_tick fmt target c)"

text \<open>\<open>animateCounter\<close>, started by the observer only for a text that contains a digit.\<close>

definition animateCounter :: "string \<Rightarrow> (int \<times> counter) option" where
  "animateCounter t =
     (case counter_target t of
        None \<Rightarrow> None
      | Some target \<Rightarrow> Some (target, \<lparr>cnt_text = t, cnt_current = 0, cnt_cleared = False\<rparr>))"

section \<open>Quantity buttons\<close>

record site_qty =
  sq_value :: string
  sq_max :: "string option"
  sq_changes :: nat

text \<open>\<open>parseInt(input.value) || 1\<close>, and \<open>parseInt(input.getAttribute('max')) || 999\<close>
  (\<open>getAttribute\<close> gives \<open>null\<close>, which \<open>parseInt\<close> reads as the text \<open>null\<close>).\<close>

definition qty_current :: "site_qty \<Rightarrow> int" where
  "qty_current q = js_or (parse_int (sq_value q)) 1"

definition qty_limit :: "site_qty \<Rightarrow> int" where
  "qty_limit q = js_or (parse_int (case sq_max q of None \<Rightarrow> ''null'' | Some m \<Rightarrow> m)) 999"

definition minus_click :: "site_qty \<Rightarrow> site_qty" where
  "minus_click q =
     (let v = qty_current q
      in if 1 < v then q\<lparr>sq_value := show_int (v - 1), sq_changes := Suc (sq_changes q)\<rparr> else q)"

definition plus_click :: "site_qty \<Rightarrow> site_qty" where
  "plus_click q =
     (let v = qty_current q; mx = qty_limit q
      in if v < mx then q\<lparr>sq_value := show_int (v + 1), sq_changes := Suc (sq_changes q)\<rparr> else q)"

section \<open>Forms\<close>

text \<open>A form: whether it has the class \<open>needs-validation\<close> (Bootstrap forms that carry
  \<open>novalidate\<close>, so the browser fires \<open>submit\<close> even when invalid), the result of
  \<open>checkValidity()\<close>, and its submit button's content and disabled flag.\<close>

record site_form =
  needs_validation :: bool
  form_valid :: bool
  was_validated :: bool
  submit_btn :: "(string \<times> bool) option"
  form_sent :: bool

definition loader_html :: string where
  "loader_html = ''<span class=\"spinner-border spinner-border-sm me-2\"></span>Chargement...''"

text \<open>The two submit listeners in the order \<open>main.js\<close> registers them: the validation
  listener (its \<open>stopPropagation\<close> does not stop the other listeners of the same form),
  then the loader. The result is the form, whether the submission goes on, and the
  restore timer the loader starts.\<close>

definition validation_listener :: "site_form \<Rightarrow> site_form \<times> bool" where
  "validation_listener f =
     (if needs_validation f then (f\<lparr>was_validated := True\<rparr>, form_valid f) else (f, True))"

definition submit_loader :: "site_form \<Rightarrow> site_form \<times> string option" where
  "submit_loader f =
     (case submit_btn f of
        Some (h, False) \<Rightarrow> (f\<lparr>submit_btn := Some (loader_html, True)\<rparr>, Some h)
      | _ \<Rightarrow> (f, None))"

definition form_submit :: "site_form \<Rightarrow> site_form \<times> string option" where
  "form_submit f =
     (let (f1, go) = validation_listener f; (f2, tm) = submit_loader f1
      in (f2\<lparr>form_sent := (form_sent f2 \<or> go)\<rparr>, tm))"

definition restore_button :: "string \<Rightarrow> site_form \<Rightarrow> site_form" where
  "restore_button h f = (case submit_btn f of None \<Rightarrow> f | Some _ \<Rightarrow> f\<lparr>submit_btn := Some (h, False)\<rparr>)"

section \<open>Search, scroll, prices\<close>

record site_page =
  quantities :: "site_qty list"
  forms :: "site_form list"
  site_timers :: "(nat \<times> string) list"
  has_search :: bool
  search_pending :: "string option"
  search_log :: "string list"
  back_to_top_shown :: bool
  has_navbar :: bool
  navbar_scrolled :: bool

text \<open>The \<open>input\<close> listener of the search box: \<open>clearTimeout\<close>, then a new 500 ms timer
  for a query of at least three characters.\<close>

definition search_input :: "string \<Rightarrow> site_page \<Rightarrow> site_page" where
  "search_input q pg = pg\<lparr>search_pending := (if 3 \<le> length q then Some q else None)\<rparr>"

definition search_fire :: "site_page \<Rightarrow> site_page" where
  "search_fire pg =
     (case search_pending pg of
        None \<Rightarrow> pg
      | Some q \<Rightarrow> pg\<lparr>search_pending := None, search_log := search_log pg @ [q]\<rparr>)"

text \<open>The two \<open>scroll\<close> listeners at offset \<open>y\<close>, in the order they are registered:
  the back-to-top button, then the navbar (when the page has one).\<close>

definition back_to_top_scroll :: "real \<Rightarrow> site_page \<Rightarrow> site_page" where
  "back_to_top_scroll y pg = pg\<lparr>back_to_top_shown := 300 < y\<rparr>"

definition navbar_scroll :: "real \<Rightarrow> site_page \<Rightarrow> site_page" where
  "navbar_scroll y pg = (if has_navbar pg then pg\<lparr>navbar_scrolled := 100 < y\<rparr> else pg)"

text \<open>\<open>formatPrice\<close> and the rewriting of a \<open>.price-format\<close> element.\<close>

definition formatPrice :: "string \<Rightarrow> string" where
  "formatPrice p = format_number p"

definition price_format_text :: "string \<Rightarrow> string" where
  "price_format_text t = formatPrice (digits_only t) @ '' FCFA''"

datatype site_event =
    QtyMinus nat | QtyPlus nat | FormSubmit nat | SiteTimer nat | SearchInput string | SearchFire
  | SiteScroll real

text \<open>A form's submission starts only when its submit button, if any, is enabled, and, for a
  form the browser validates itself, only when it is valid.\<close>

definition can_submit :: "site_form \<Rightarrow> bool" where
  "can_submit f \<longleftrightarrow>
     (case submit_btn f of Some (_, True) \<Rightarrow> False | _ \<Rightarrow> True) \<and> (needs_validation f \<or> form_valid f)"

fun site_step :: "site_page \<Rightarrow> site_event \<Rightarrow> site_page" where
  "site_step pg (QtyMinus i) =
     (if i < length (quantities pg)
      then pg\<lparr>quantities := (quantities pg)[i := minus_click (quantities pg ! i)]\<rparr> else pg)"
| "site_step pg (QtyPlus i) =
     (if i < length (quantities pg)
      then pg\<lparr>quantities := (quantities pg)[i := plus_click (quantities pg ! i)]\<rparr> else pg)"
| "site_step pg (FormSubmit i) =
     (if i < length (forms pg) \<and> can_submit (forms pg ! i)
      then let (f, tm) = form_submit (forms pg ! i)
           in pg\<lparr>forms := (forms pg)[i := f],
                 site_timers := site_timers pg @ (case tm of None \<Rightarrow> [] | Some h \<Rightarrow> [(i, h)])\<rparr>
      else pg)"
| "site_step pg (SiteTimer k) =
     (if length (site_timers pg) \<le> k then pg
      else let (i, h) = site_timers pg ! k
           in pg\<lparr>site_timers := take k (site_timers pg) @ drop (Suc k) (site_timers pg),
                 forms := (forms pg)[i := restore_button h (forms pg ! i)]\<rparr>)"
| "site_step pg (SearchInput q) = (if has_search pg then search_input q pg else pg)"
| "site_step pg SearchFire = search_fire pg"
| "site_step pg (SiteScroll y) = navbar_scroll y (back_to_top_scroll y pg)"

primrec site_run :: "site_page \<Rightarrow> site_event list \<Rightarrow> site_page" where
  "site_run pg [] = pg"
| "site_run pg (e # es) = site_run (site_step pg e) es"

text \<open>A page with one Bootstrap-validated form whose fields are invalid.\<close>

definition demo_site :: site_page where
  "demo_site = \<lparr>quantities = [], forms = [\<lparr>needs_validation = True, form_valid = False, was_validated = False,
       submit_btn = Some (''Envoyer'', False), form_sent = False\<rparr>], site_timers = [], has_search = True,
     search_pending = None, search_log = [], back_to_top_shown = False, has_navbar = True, navbar_scrolled = False\<rparr>"

section \<open>Lemmas\<close>

lemma counter_run_Suc_last:
  "counter_run fmt tg (Suc n) c = counter_tick fmt tg (counter_run fmt tg n c)"
  by (induction n arbitrary: c) simp_all

lemma counter_run_prefix:
  assumes "0 < tg" "Suc k < 125"
  shows "counter_run fmt tg (Suc k) \<lparr>cnt_text = t, cnt_current = 0, cnt_cleared = False\<rparr>
       = \<lparr>cnt_text = fmt \<lfloor>of_nat (Suc k) * of_int tg / 125 :: real\<rfloor>, cnt_current = of_nat (Suc k) * of_int tg / 125,
          cnt_cleared = False\<rparr>"
  using assms(2)
proof (induction k)
  case 0
  have "of_int tg / 125 < (of_int tg :: real)" using assms(1) by simp
  then show ?case by (simp add: counter_tick_def Let_def)
next
  case (Suc k)
  have lt: "(of_nat (Suc (Suc k)) * of_int tg / 125 :: real) < of_int tg"
    using Suc.prems assms(1) by (simp add: field_simps)
  have eq: "of_nat (Suc k) * of_int tg / 125 + of_int tg / 125 = (of_nat (Suc (Suc k)) * of_int tg / 125 :: real)"
    by (simp add: field_simps)
  have ih: "counter_run fmt tg (Suc k) \<lparr>cnt_text = t, cnt_current = 0, cnt_cleared = False\<rparr>
       = \<lparr>cnt_text = fmt \<lfloor>of_nat (Suc k) * of_int tg / 125 :: real\<rfloor>, cnt_current = of_nat (Suc k) * of_int tg / 125,
          cnt_cleared = False\<rparr>"
    using Suc by simp
  show ?case
    unfolding counter_run_Suc_last[of fmt tg "Suc k"] ih
    using lt by (simp add: counter_tick_def Let_def eq del: of_nat_Suc)
qed

lemma price_format_text_idem: "price_format_text (price_format_text t) = price_format_text t"
proof -
  have "digits_only '' FCFA'' = []" by (simp add: digits_only_def is_digit_def)
  then show ?thesis
    by (simp add: price_format_text_def formatPrice_def format_number_def digits_only_group_digits)
qed

lemma minus_click_bounds:
  "1 \<le> qty_current q \<Longrightarrow> 1 \<le> qty_current (minus_click q) \<and> qty_current (minus_click q) \<le> qty_current q"
  by (auto simp: minus_click_def Let_def qty_current_def show_int_def parse_int_show_nat)

lemma plus_click_bounds:
  "qty_current q \<le> qty_limit q \<Longrightarrow> 1 \<le> qty_current q \<Longrightarrow>
   qty_current (plus_click q) \<le> qty_limit (plus_click q) \<and> qty_current q \<le> qty_current (plus_click q)"
  by (auto simp: plus_click_def Let_def qty_current_def qty_limit_def show_int_def parse_int_show_nat)

lemma search_debounce:
  "has_search pg \<Longrightarrow> qs \<noteq> [] \<Longrightarrow>
   search_pending (site_run pg (map SearchInput qs)) = (if 3 \<le> length (last qs) then Some (last qs) else None)"
  by (induction qs arbitrary: pg) (auto simp: search_input_def)

section \<open>Properties\<close>


text \<open>C38: submitting an invalid Bootstrap-validated form is prevented, but the loader
  listener still replaces the submit button by the spinner and disables it until its
  10-second timer, so the user cannot resubmit the corrected form before then.\<close>

theorem invalid_form_loader:
  assumes "i < length (forms pg)" "needs_validation (forms pg ! i)" "\<not> form_valid (forms pg ! i)"
    "submit_btn (forms pg ! i) = Some (h, False)"
  shows "form_sent (forms (site_step pg (FormSubmit i)) ! i) = form_sent (forms pg ! i)
    \<and> submit_btn (forms (site_step pg (FormSubmit i)) ! i) = Some (loader_html, True)
    \<and> site_timers (site_step pg (FormSubmit i)) = site_timers pg @ [(i, h)]
    \<and> site_step (site_step pg (FormSubmit i)) (FormSubmit i) = site_step pg (FormSubmit i)"
  using assms
  by (simp add: can_submit_def form_submit_def validation_listener_def submit_loader_def)

theorem invalid_form_loader_witness:
  "\<not> form_sent (forms (site_step demo_site (FormSubmit 0)) ! 0)
   \<and> submit_btn (forms (site_step demo_site (FormSubmit 0)) ! 0) = Some (loader_html, True)"
  using invalid_form_loader[of 0 demo_site "''Envoyer''"] by (simp add: demo_site_def)

end
