(* ===== verification/Register.thy ===== *)
theory Register
  imports Prelude
begin

text \<open>
  The registration wizard, \<open>accounts/register.js\<close>: three steps shown one at a time
  (\<open>currentStep\<close>), \<open>Suivant\<close> buttons that validate the current step before moving,
  \<open>Precedent\<close> buttons that do not, the field validation rules of \<open>validateField\<close>, the
  password strength meter, the phone filter, the password toggles, the Enter shortcut, and
  the final submission with its \<open>formSubmitted\<close> guard. The page record holds the fields
  (id, type, required flag, value, the step that contains them, their validation state),
  the wizard's module variables, and the buttons' \<open>data-next\<close>/\<open>data-prev\<close> attributes.
  Character classes are ASCII (\<open>\s\<close> is \<open>is_js_space\<close>).
\<close>

datatype field_state = Plain | ValidState | InvalidState string

record reg_field =
  f_id :: string
  f_type :: string
  f_required :: bool
  f_value :: string
  f_step :: nat
  f_state :: field_state

datatype strength = Weak | Medium | Strong

record reg_page =
  reg_fields :: "reg_field list"
  current_step :: nat
  form_submitted :: bool
  submit_loading :: bool
  submit_pending :: nat
  submissions :: nat
  reg_notes :: "(string \<times> string) list"
  accept_terms :: "bool option"
  strength_ui :: "strength option"
  has_strength_ui :: bool
  step_elems :: "nat list"
  next_btns :: "(nat \<times> nat) list"
  prev_btns :: "(nat \<times> nat) list"
  toggles :: "string list"
  has_register_form :: bool

datatype reg_event =
    RegNext nat | RegPrev nat | RegBlur nat | RegInput nat string | RegEnter bool
  | RegSubmit | RegSubmitTimer | RegToggle nat

definition totalSteps :: nat where
  "totalSteps = 3"

section \<open>Field validation\<close>

text \<open>\<open>/^[^\s@]+@[^\s@]+\.[^\s@]+$/\<close>: no blank and exactly one \<open>@\<close>, a non-empty part
  before it, and a point after it with characters on both sides.\<close>

definition email_ok :: "string \<Rightarrow> bool" where
  "email_ok v \<longleftrightarrow>
     (\<forall>c \<in> set v. \<not> is_js_space c) \<and> length (filter (\<lambda>c. c = CHR ''@'') v) = 1 \<and>
     (let a = takeWhile (\<lambda>c. c \<noteq> CHR ''@'') v; d = tl (dropWhile (\<lambda>c. c \<noteq> CHR ''@'') v)
      in a \<noteq> [] \<and> (\<exists>k \<in> set [1..<length d - 1]. d ! k = CHR ''.''))"

definition phone_digits :: "string \<Rightarrow> nat" where
  "phone_digits v = length (digits_only v)"

text \<open>\<open>validateField\<close> with \<open>validateUsername\<close>, \<open>validateEmail\<close>, \<open>validatePhone\<close> and
  \<open>validatePasswordConfirmation\<close>; \<open>p1\<close> is the value of \<open>#password1\<close> (\<open>None\<close> when the
  page has none: \<open>undefined\<close>). The result is the verdict and the field with its new
  classes and feedback.\<close>

definition field_error :: "string \<Rightarrow> reg_field \<Rightarrow> bool \<times> reg_field" where
  "field_error m f = (False, f\<lparr>f_state := InvalidState m\<rparr>)"

definition field_success :: "reg_field \<Rightarrow> bool \<times> reg_field" where
  "field_success f = (True, f\<lparr>f_state := ValidState\<rparr>)"

definition validateField :: "string option \<Rightarrow> reg_field \<Rightarrow> bool \<times> reg_field" where
  "validateField p1 f =
     (let v = js_trim (f_value f)
      in if v = [] \<and> f_required f then field_error ''Ce champ est obligatoire'' f
         else if f_id f = ''username'' then
           (if length v < 3 then field_error (''Minimum 3 caract'' @ [CHR 0xC3, CHR 0xA8] @ ''res'') f
            else if \<not> (v \<noteq> [] \<and> (\<forall>c \<in> set v. is_word_char c))
            then field_error ''Lettres, chiffres et underscore uniquement'' f
            else field_success f)
         else if f_type f = ''email'' then
           (if email_ok v then field_success f else field_error ''Email invalide'' f)
         else if f_id f = ''phone'' then
           (if phone_digits v < 8 then field_error (''Num'' @ [CHR 0xC3, CHR 0xA9] @ ''ro invalide (min. 8 chiffres)'') f
            else field_success f)
         else if f_id f = ''password2'' then
           (if Some v \<noteq> p1 then field_error ''Les mots de passe ne correspondent pas'' f
            else field_success f)
         else field_success f)"

text \<open>\<open>document.getElementById(id)?.value\<close>: the first field with the id.\<close>

definition field_value :: "string \<Rightarrow> reg_page \<Rightarrow> string option" where
  "field_value i pg = map_option f_value (find (\<lambda>f. f_id f = i) (reg_fields pg))"

text \<open>\<open>validateStep\<close>: every required input of the step is validated (no short cut), in
  document order; a step without element fails.\<close>

definition validateStep :: "nat \<Rightarrow> reg_page \<Rightarrow> bool \<times> reg_page" where
  "validateStep k pg =
     (if k \<notin> set (step_elems pg) then (False, pg)
      else let p1 = field_value ''password1'' pg;
               rs = map (\<lambda>f. if f_step f = k \<and> f_required f then validateField p1 f else (True, f)) (reg_fields pg)
           in (list_all fst rs, pg\<lparr>reg_fields := map snd rs\<rparr>))"

section \<open>Handlers\<close>

definition showStep :: "nat \<Rightarrow> reg_page \<Rightarrow> reg_page" where
  "showStep n pg = pg\<lparr>current_step := n\<rparr>"

text \<open>The click listener of the \<open>j\<close>-th \<open>.btn-next\<close> (step, \<open>data-next\<close>): the step that
  is validated is \<open>currentStep\<close>.\<close>

definition next_click :: "nat \<Rightarrow> reg_page \<Rightarrow> reg_page" where
  "next_click j pg =
     (let (ok, pg1) = validateStep (current_step pg) pg
      in if ok then showStep (snd (next_btns pg ! j)) pg1 else pg1)"

definition prev_click :: "nat \<Rightarrow> reg_page \<Rightarrow> reg_page" where
  "prev_click j pg = showStep (snd (prev_btns pg ! j)) pg"

definition update_field :: "nat \<Rightarrow> reg_field \<Rightarrow> reg_page \<Rightarrow> reg_page" where
  "update_field i f pg = pg\<lparr>reg_fields := (reg_fields pg)[i := f]\<rparr>"

text \<open>The \<open>blur\<close> listener: a non-empty value is validated.\<close>

definition field_blur :: "nat \<Rightarrow> reg_page \<Rightarrow> reg_page" where
  "field_blur i pg =
     (let f = reg_fields pg ! i
      in if f_value f \<noteq> [] then update_field i (snd (validateField (field_value ''password1'' pg) f)) pg else pg)"

text \<open>\<open>calculatePasswordStrength\<close> and the level \<open>updatePasswordStrengthUI\<close> shows.\<close>

definition calculatePasswordStrength :: "string \<Rightarrow> nat" where
  "calculatePasswordStrength p =
     (if 8 \<le> length p then 1 else 0) + (if \<exists>c \<in> set p. is_lower c then 1 else 0)
     + (if \<exists>c \<in> set p. is_upper c then 1 else 0) + (if \<exists>c \<in> set p. is_digit c then 1 else 0)
     + (if \<exists>c \<in> set p. \<not> (is_lower c \<or> is_upper c \<or> is_digit c) then 1 else 0)"

definition strength_level :: "nat \<Rightarrow> strength" where
  "strength_level s = (if s \<le> 2 then Weak else if s \<le> 4 then Medium else Strong)"

text \<open>\<open>this.value.replace(/[^\d\s\+\-\(\)]/g, '')\<close>.\<close>

definition phone_filter :: "string \<Rightarrow> string" where
  "phone_filter v = filter (\<lambda>c. is_digit c \<or> is_js_space c \<or> c \<in> set ''+-()'') v"

text \<open>Typing \<open>v\<close> into field \<open>i\<close>, then its \<open>input\<close> listeners in registration order:
  re-validation of a field already marked, the strength meter of \<open>#password1\<close>, the
  filter of \<open>#phone\<close>.\<close>

definition field_input :: "nat \<Rightarrow> string \<Rightarrow> reg_page \<Rightarrow> reg_page" where
  "field_input i v pg =
     (let pg0 = update_field i ((reg_fields pg ! i)\<lparr>f_value := v\<rparr>) pg;
          f = reg_fields pg0 ! i;
          pg1 = (if f_state f \<noteq> Plain
                 then update_field i (snd (validateField (field_value ''password1'' pg0) f)) pg0 else pg0);
          pg2 = (if f_id f = ''password1'' \<and> has_strength_ui pg1
                 then pg1\<lparr>strength_ui := Some (strength_level (calculatePasswordStrength v))\<rparr> else pg1)
      in if f_id f = ''phone''
         then update_field i ((reg_fields pg2 ! i)\<lparr>f_value := phone_filter (f_value (reg_fields pg2 ! i))\<rparr>) pg2
         else pg2)"

text \<open>A \<open>.password-toggle\<close> click: the input it targets switches between \<open>password\<close> and
  \<open>text\<close> (any type other than \<open>password\<close> becomes \<open>password\<close>).\<close>

definition toggle_click :: "nat \<Rightarrow> reg_page \<Rightarrow> reg_page" where
  "toggle_click j pg =
     (case find (\<lambda>i. f_id (reg_fields pg ! i) = toggles pg ! j) [0..<length (reg_fields pg)] of
        None \<Rightarrow> pg
      | Some i \<Rightarrow> update_field i ((reg_fields pg ! i)\<lparr>f_type :=
                    (if f_type (reg_fields pg ! i) = ''password'' then ''text'' else ''password'')\<rparr>) pg)"

definition reg_notify :: "string \<Rightarrow> string \<Rightarrow> reg_page \<Rightarrow> reg_page" where
  "reg_notify m t pg = pg\<lparr>reg_notes := reg_notes pg @ [(m, t)]\<rparr>"

text \<open>The submit listener of \<open>#registerForm\<close>.\<close>

definition register_submit :: "reg_page \<Rightarrow> reg_page" where
  "register_submit pg =
     (if form_submitted pg then pg
      else let (ok, pg1) = validateStep 3 pg
      in if \<not> ok then pg1
         else if accept_terms pg1 \<noteq> Some True
         then reg_notify (''Veuillez accepter les conditions g'' @ [CHR 0xC3, CHR 0xA9] @ ''n'' @ [CHR 0xC3, CHR 0xA9] @ ''rales'') ''warning'' pg1
         else if field_value ''password1'' pg1 \<noteq> field_value ''password2'' pg1
         then reg_notify ''Les mots de passe ne correspondent pas'' ''danger'' pg1
         else pg1\<lparr>submit_loading := True, form_submitted := True, submit_pending := Suc (submit_pending pg1)\<rparr>)"

text \<open>The \<open>keydown\<close> listener for Enter (\<open>ta\<close>: the target is a \<open>textarea\<close>): before the
  last step it clicks the current step's \<open>Suivant\<close> button; on the last step the browser's
  implicit submission of the form follows.\<close>

definition enter_key :: "bool \<Rightarrow> reg_page \<Rightarrow> reg_page" where
  "enter_key ta pg =
     (if \<not> ta \<and> current_step pg < totalSteps
      then (case find (\<lambda>j. fst (next_btns pg ! j) = current_step pg) [0..<length (next_btns pg)] of
              None \<Rightarrow> pg
            | Some j \<Rightarrow> next_click j pg)
      else if \<not> ta \<and> has_register_form pg then register_submit pg else pg)"

text \<open>A field or button can be used only on the step shown.\<close>

definition visible :: "nat \<Rightarrow> reg_page \<Rightarrow> bool" where
  "visible i pg \<longleftrightarrow> i < length (reg_fields pg) \<and> f_step (reg_fields pg ! i) = current_step pg"

fun reg_step :: "reg_page \<Rightarrow> reg_event \<Rightarrow> reg_page" where
  "reg_step pg (RegNext j) =
     (if j < length (next_btns pg) \<and> fst (next_btns pg ! j) = current_step pg then next_click j pg else pg)"
| "reg_step pg (RegPrev j) =
     (if j < length (prev_btns pg) \<and> fst (prev_btns pg ! j) = current_step pg then prev_click j pg else pg)"
| "reg_step pg (RegBlur i) = (if visible i pg then field_blur i pg else pg)"
| "reg_step pg (RegInput i v) = (if visible i pg then field_input i v pg else pg)"
| "reg_step pg (RegEnter ta) = enter_key ta pg"
| "reg_step pg RegSubmit = (if has_register_form pg then register_submit pg else pg)"
| "reg_step pg RegSubmitTimer =
     (if submit_pending pg = 0 then pg
      else pg\<lparr>submit_pending := submit_pending pg - 1, submissions := Suc (submissions pg)\<rparr>)"
| "reg_step pg (RegToggle j) = (if j < length (toggles pg) then toggle_click j pg else pg)"

primrec reg_run :: "reg_page \<Rightarrow> reg_event list \<Rightarrow> reg_page" where
  "reg_run pg [] = pg"
| "reg_run pg (e # es) = reg_run (reg_step pg e) es"

text \<open>The verdict \<open>validateStep k\<close> would give on the page, and that of one field.\<close>

definition step_valid :: "nat \<Rightarrow> reg_page \<Rightarrow> bool" where
  "step_valid k pg = fst (validateStep k pg)"

definition field_ok :: "string option \<Rightarrow> reg_field \<Rightarrow> bool" where
  "field_ok p1 f = fst (validateField p1 f)"

definition field_shape :: "reg_field \<Rightarrow> string \<times> bool \<times> nat" where
  "field_shape f = (f_id f, f_type f = ''email'', f_step f)"

text \<open>The template's layout the wizard relies on: each \<open>Suivant\<close> leads to the next step
  and each \<open>Precedent\<close> to the previous one, \<open>#password1\<close> is on no later step than
  \<open>#password2\<close>, and no password toggle targets an e-mail input.\<close>

definition layout_ok :: "reg_page \<Rightarrow> bool" where
  "layout_ok pg \<longleftrightarrow>
     (\<forall>(s, n) \<in> set (next_btns pg). n = Suc s) \<and> (\<forall>(s, n) \<in> set (prev_btns pg). Suc n = s) \<and>
     (\<forall>a \<in> set (map field_shape (reg_fields pg)). \<forall>b \<in> set (map field_shape (reg_fields pg)).
        fst a = ''password1'' \<longrightarrow> fst b = ''password2'' \<longrightarrow> snd (snd a) \<le> snd (snd b)) \<and>
     (\<forall>t \<in> set (toggles pg). \<forall>a \<in> set (map field_shape (reg_fields pg)). fst a = t \<longrightarrow> \<not> fst (snd a))"

text \<open>What a field's verdict depends on, and what a change of the page keeps.\<close>

definition field_data :: "reg_field \<Rightarrow> string \<times> bool \<times> bool \<times> string \<times> nat" where
  "field_data f = (f_id f, f_type f = ''email'', f_required f, f_value f, f_step f)"

definition same_data :: "reg_page \<Rightarrow> reg_page \<Rightarrow> bool" where
  "same_data q pg \<longleftrightarrow> map field_data (reg_fields q) = map field_data (reg_fields pg)
     \<and> step_elems q = step_elems pg \<and> next_btns q = next_btns pg \<and> prev_btns q = prev_btns pg
     \<and> toggles q = toggles pg"

definition reg_inv :: "reg_page \<Rightarrow> bool" where
  "reg_inv pg \<longleftrightarrow> layout_ok pg \<and> (\<forall>j \<in> {1..<current_step pg}. step_valid j pg)"

text \<open>The pages the wizard reaches from its first step on a template with that layout.\<close>

inductive reg_reachable :: "reg_page \<Rightarrow> bool" where
  init: "current_step pg = 1 \<Longrightarrow> layout_ok pg \<Longrightarrow> reg_reachable pg"
| step: "reg_reachable pg \<Longrightarrow> reg_reachable (reg_step pg e)"

text \<open>A three-step form: a user name on step 1, the two passwords on step 3.\<close>

definition demo_reg :: reg_page where
  "demo_reg = \<lparr>reg_fields = [\<lparr>f_id = ''username'', f_type = ''text'', f_required = True, f_value = [], f_step = 1, f_state = Plain\<rparr>,
       \<lparr>f_id = ''password1'', f_type = ''password'', f_required = True, f_value = [], f_step = 3, f_state = Plain\<rparr>,
       \<lparr>f_id = ''password2'', f_type = ''password'', f_required = True, f_value = [], f_step = 3, f_state = Plain\<rparr>],
     current_step = 1, form_submitted = False, submit_loading = False, submit_pending = 0, submissions = 0,
     reg_notes = [], accept_terms = Some True, strength_ui = None, has_strength_ui = True, step_elems = [1, 2, 3],
     next_btns = [(1, 2), (2, 3)], prev_btns = [(2, 1), (3, 2)], toggles = [''password1''], has_register_form = True\<rparr>"

definition edit_at :: "nat \<Rightarrow> reg_page \<Rightarrow> reg_page \<Rightarrow> bool" where
  "edit_at i q pg \<longleftrightarrow> i < length (reg_fields pg) \<and>
     (\<exists>g. reg_fields q = (reg_fields pg)[i := g] \<and> field_shape g = field_shape (reg_fields pg ! i)) \<and>
     step_elems q = step_elems pg \<and> next_btns q = next_btns pg \<and> prev_btns q = prev_btns pg \<and>
     toggles q = toggles pg \<and> current_step q = current_step pg"

section \<open>Lemmas\<close>

lemma step_valid_alt:
  "step_valid k pg \<longleftrightarrow> k \<in> set (step_elems pg) \<and>
     (\<forall>f \<in> set (reg_fields pg). f_step f = k \<and> f_required f \<longrightarrow> field_ok (field_value ''password1'' pg) f)"
  by (auto simp: step_valid_def validateStep_def Let_def field_ok_def list_all_iff)

lemma field_ok_state [simp]: "field_ok p1 (f\<lparr>f_state := s\<rparr>) = field_ok p1 f"
  by (simp add: field_ok_def validateField_def Let_def field_error_def field_success_def)

lemma snd_validateField: "snd (validateField p1 f) = f\<lparr>f_state := f_state (snd (validateField p1 f))\<rparr>"
  unfolding validateField_def Let_def field_error_def field_success_def by (simp split: if_split)

lemma field_ok_data: "field_data f = field_data g \<Longrightarrow> field_ok p1 f = field_ok p1 g"
  by (simp add: field_data_def field_ok_def validateField_def Let_def field_error_def field_success_def)

lemma field_data_state [simp]: "field_data (f\<lparr>f_state := s\<rparr>) = field_data f"
  by (simp add: field_data_def)

lemma field_data_validate [simp]: "field_data (snd (validateField p1 f)) = field_data f"
  by (subst snd_validateField) (simp add: field_data_def)

lemma map_field_data_validate:
  "map field_data (map snd (map (\<lambda>f. if P f then validateField p1 f else (True, f)) xs)) = map field_data xs"
proof (induction xs)
  case (Cons x xs)
  then show ?case by simp
qed simp

lemma find_value_data:
  "map field_data xs = map field_data ys \<Longrightarrow>
   map_option f_value (find (\<lambda>f. f_id f = x) xs) = map_option f_value (find (\<lambda>f. f_id f = x) ys)"
proof (induction xs arbitrary: ys)
  case (Cons a xs)
  then obtain y ys' where "ys = y # ys'" "field_data a = field_data y" "map field_data xs = map field_data ys'"
    by (cases ys) simp_all
  moreover then have "f_id a = f_id y" "f_value a = f_value y" by (simp_all add: field_data_def)
  ultimately show ?case using Cons.IH by simp
qed simp

lemma list_all_data:
  assumes P: "\<And>f g. field_data f = field_data g \<Longrightarrow> P f = P g"
  shows "map field_data xs = map field_data ys \<Longrightarrow> list_all P xs = list_all P ys"
proof (induction xs arbitrary: ys)
  case (Cons a xs)
  then obtain y ys' where "ys = y # ys'" "field_data a = field_data y" "map field_data xs = map field_data ys'"
    by (cases ys) simp_all
  moreover from this(2) have "P a = P y" by (rule P)
  ultimately show ?case using Cons.IH by simp
qed simp

lemma step_valid_data:
  assumes "map field_data (reg_fields q) = map field_data (reg_fields pg)" "step_elems q = step_elems pg"
  shows "step_valid k q = step_valid k pg"
proof -
  have p1: "field_value ''password1'' q = field_value ''password1'' pg"
    using find_value_data[OF assms(1)] by (simp add: field_value_def)
  have "list_all (\<lambda>f. f_step f = k \<and> f_required f \<longrightarrow> field_ok (field_value ''password1'' pg) f) (reg_fields q)
      = list_all (\<lambda>f. f_step f = k \<and> f_required f \<longrightarrow> field_ok (field_value ''password1'' pg) f) (reg_fields pg)"
  proof (rule list_all_data[OF _ assms(1)])
    fix f g :: reg_field assume "field_data f = field_data g"
    with field_ok_data[OF this] show "(f_step f = k \<and> f_required f \<longrightarrow> field_ok (field_value ''password1'' pg) f)
        = (f_step g = k \<and> f_required g \<longrightarrow> field_ok (field_value ''password1'' pg) g)"
      by (simp add: field_data_def)
  qed
  with p1 assms(2) show ?thesis by (simp add: step_valid_alt list_all_iff)
qed

lemma validateStep_data:
  "map field_data (reg_fields (snd (validateStep k pg))) = map field_data (reg_fields pg)
   \<and> step_elems (snd (validateStep k pg)) = step_elems pg
   \<and> next_btns (snd (validateStep k pg)) = next_btns pg \<and> prev_btns (snd (validateStep k pg)) = prev_btns pg
   \<and> toggles (snd (validateStep k pg)) = toggles pg \<and> current_step (snd (validateStep k pg)) = current_step pg"
  by (simp add: validateStep_def Let_def map_field_data_validate)

lemma find_value_update:
  assumes "f_id g = f_id (xs ! i)" "f_id (xs ! i) = x \<Longrightarrow> f_value g = f_value (xs ! i)"
  shows "map_option f_value (find (\<lambda>f. f_id f = x) (xs[i := g])) = map_option f_value (find (\<lambda>f. f_id f = x) xs)"
  using assms
proof (induction xs arbitrary: i)
  case (Cons y ys)
  then show ?case by (cases i) auto
qed simp

lemma field_ok_p1: "f_id f \<noteq> ''password2'' \<Longrightarrow> field_ok p f = field_ok q f"
  by (simp add: field_ok_def validateField_def Let_def field_error_def field_success_def)

lemma all_update_iff:
  assumes "i < length xs" "P g" "P (xs ! i)"
  shows "(\<forall>f \<in> set (xs[i := g]). P f) \<longleftrightarrow> (\<forall>f \<in> set xs. P f)"
proof
  assume "\<forall>f \<in> set (xs[i := g]). P f"
  then show "\<forall>f \<in> set xs. P f"
    using assms by (metis in_set_conv_nth length_list_update nth_list_update_neq)
next
  assume "\<forall>f \<in> set xs. P f"
  then show "\<forall>f \<in> set (xs[i := g]). P f"
    using assms set_update_subset_insert by fastforce
qed

text \<open>Changing the field \<open>i\<close> of step \<open>c\<close> (same id and step) leaves every earlier step's
  verdict unchanged, given the password layout.\<close>

lemma step_valid_edit:
  assumes i: "i < length (reg_fields pg)" and g: "f_id g = f_id (reg_fields pg ! i)" "f_step g = f_step (reg_fields pg ! i)"
    and j: "j < f_step (reg_fields pg ! i)"
    and lay: "layout_ok pg"
  shows "step_valid j (pg\<lparr>reg_fields := (reg_fields pg)[i := g]\<rparr>) = step_valid j pg"
proof -
  let ?xs = "reg_fields pg"
  let ?p = "field_value ''password1'' pg" and ?q = "field_value ''password1'' (pg\<lparr>reg_fields := ?xs[i := g]\<rparr>)"
  have ok: "field_ok ?q f = field_ok ?p f" if f: "f \<in> set ?xs" "f_step f = j" for f
  proof (cases "f_id (?xs ! i) = ''password1''")
    case True
    have mem: "?xs ! i \<in> set ?xs" using i by simp
    have "f_id f \<noteq> ''password2''"
    proof
      assume "f_id f = ''password2''"
      with lay mem f(1) True have "f_step (?xs ! i) \<le> f_step f"
        unfolding layout_ok_def field_shape_def by fastforce
      with f(2) j show False by simp
    qed
    then show ?thesis by (rule field_ok_p1)
  next
    case False
    then have "?q = ?p" using find_value_update[of g ?xs i "''password1''"] g by (simp add: field_value_def)
    then show ?thesis by simp
  qed
  have "(\<forall>f \<in> set (?xs[i := g]). f_step f = j \<and> f_required f \<longrightarrow> field_ok ?q f)
      \<longleftrightarrow> (\<forall>f \<in> set ?xs. f_step f = j \<and> f_required f \<longrightarrow> field_ok ?q f)"
    by (rule all_update_iff) (use i g j in simp_all)
  also have "\<dots> \<longleftrightarrow> (\<forall>f \<in> set ?xs. f_step f = j \<and> f_required f \<longrightarrow> field_ok ?p f)"
    by (rule ball_cong[OF refl]) (use ok in auto)
  finally show ?thesis unfolding step_valid_alt by simp
qed

lemma shape_of_data: "map field_data xs = map field_data ys \<Longrightarrow> map field_shape xs = map field_shape ys"
proof -
  have h: "map field_shape zs = map (\<lambda>(a, b, c, d, e). (a, b, e)) (map field_data zs)" for zs
    by (simp add: field_shape_def field_data_def)
  assume "map field_data xs = map field_data ys"
  then show ?thesis by (simp only: h)
qed

lemma same_data_eq:
  assumes "same_data q pg"
  shows "layout_ok q = layout_ok pg" "step_valid k q = step_valid k pg"
  using assms shape_of_data[of "reg_fields q" "reg_fields pg"] step_valid_data[of q pg k]
  by (simp_all add: same_data_def layout_ok_def)

lemma same_data_refl [simp]: "same_data pg pg"
  by (simp add: same_data_def)

lemma same_data_trans: "same_data r q \<Longrightarrow> same_data q pg \<Longrightarrow> same_data r pg"
  by (simp add: same_data_def)

lemma same_data_validateStep: "same_data (snd (validateStep k pg)) pg"
  using validateStep_data[of k pg] by (simp add: same_data_def)

lemma same_data_frame [simp]:
  "same_data (q\<lparr>current_step := n\<rparr>) pg = same_data q pg"
  "same_data (q\<lparr>reg_notes := ns\<rparr>) pg = same_data q pg"
  "same_data (q\<lparr>submit_loading := a, form_submitted := b, submit_pending := c\<rparr>) pg = same_data q pg"
  "same_data (q\<lparr>submit_pending := c, submissions := d\<rparr>) pg = same_data q pg"
  "same_data (q\<lparr>strength_ui := u\<rparr>) pg = same_data q pg"
  by (simp_all add: same_data_def)

lemma same_data_blur: "same_data (field_blur i pg) pg"
proof -
  have "map field_data ((reg_fields pg)[i := snd (validateField p (reg_fields pg ! i))]) = map field_data (reg_fields pg)" for p
  proof (cases "i < length (reg_fields pg)")
    case True
    then show ?thesis by (simp add: map_update) (metis length_map list_update_id nth_map)
  qed (simp add: list_update_beyond)
  then show ?thesis by (simp add: field_blur_def Let_def update_field_def same_data_def)
qed

lemma field_shape_validate [simp]: "field_shape (snd (validateField p1 f)) = field_shape f"
  by (subst snd_validateField) (simp add: field_shape_def)

lemma edit_at_refl: "i < length (reg_fields pg) \<Longrightarrow> edit_at i pg pg"
  unfolding edit_at_def by (rule conjI, simp, rule conjI, rule exI[of _ "reg_fields pg ! i"]) simp_all

lemma edit_at_update:
  "edit_at i q pg \<Longrightarrow> field_shape g = field_shape (reg_fields q ! i) \<Longrightarrow> edit_at i (update_field i g q) pg"
  unfolding edit_at_def update_field_def by auto

lemma edit_at_strength: "edit_at i q pg \<Longrightarrow> edit_at i (q\<lparr>strength_ui := u\<rparr>) pg"
  unfolding edit_at_def by simp

lemma edit_at_field_input: "i < length (reg_fields pg) \<Longrightarrow> edit_at i (field_input i v pg) pg"
proof -
  assume i: "i < length (reg_fields pg)"
  let ?pg0 = "update_field i ((reg_fields pg ! i)\<lparr>f_value := v\<rparr>) pg"
  have e0: "edit_at i ?pg0 pg"
    using edit_at_update[OF edit_at_refl[OF i]] by (simp add: field_shape_def)
  have len: "i < length (reg_fields ?pg0)" using i by (simp add: update_field_def)
  have e1: "edit_at i (if f_state (reg_fields ?pg0 ! i) \<noteq> Plain
      then update_field i (snd (validateField (field_value ''password1'' ?pg0) (reg_fields ?pg0 ! i))) ?pg0 else ?pg0) pg"
    using e0 edit_at_update[OF e0] by simp
  show ?thesis
    unfolding field_input_def Let_def
    using e1 edit_at_strength[OF e1] edit_at_update[OF edit_at_strength[OF e1]] edit_at_update[OF e1]
    by (auto simp: field_shape_def)
qed

lemma map_update_same:
  "f g = f (xs ! i) \<Longrightarrow> map f (xs[i := g]) = map f xs"
  by (cases "i < length xs") (simp_all add: map_update list_update_beyond, metis length_map list_update_id nth_map)

lemma inv_edit:
  assumes inv: "reg_inv pg" and e: "edit_at i q pg" and vis: "f_step (reg_fields pg ! i) = current_step pg"
  shows "reg_inv q"
proof -
  from e obtain g where i: "i < length (reg_fields pg)" and q: "reg_fields q = (reg_fields pg)[i := g]"
    and sh: "field_shape g = field_shape (reg_fields pg ! i)"
    and fr: "step_elems q = step_elems pg" "next_btns q = next_btns pg" "prev_btns q = prev_btns pg"
       "toggles q = toggles pg" "current_step q = current_step pg"
    unfolding edit_at_def by blast
  have gs: "f_id g = f_id (reg_fields pg ! i)" "f_step g = f_step (reg_fields pg ! i)"
    using sh by (simp_all add: field_shape_def)
  have lay: "layout_ok q"
    using inv map_update_same[of field_shape g "reg_fields pg" i, OF sh] q fr
    by (simp add: reg_inv_def layout_ok_def)
  have "step_valid j q" if j: "j \<in> {1..<current_step q}" for j
  proof -
    have "step_valid j q = step_valid j (pg\<lparr>reg_fields := (reg_fields pg)[i := g]\<rparr>)"
      by (rule step_valid_data) (simp_all add: q fr)
    also have "\<dots> = step_valid j pg"
      using i gs j vis fr inv by (intro step_valid_edit) (simp_all add: reg_inv_def)
    finally show ?thesis using inv j fr by (simp add: reg_inv_def)
  qed
  with lay show ?thesis by (simp add: reg_inv_def)
qed

lemma inv_same:
  "reg_inv pg \<Longrightarrow> same_data q pg \<Longrightarrow> current_step q = current_step pg \<Longrightarrow> reg_inv q"
  using same_data_eq[of q pg] by (simp add: reg_inv_def)

lemma next_click_facts:
  "same_data (next_click j pg) pg \<and>
   current_step (next_click j pg) = (if step_valid (current_step pg) pg then snd (next_btns pg ! j) else current_step pg)"
proof (cases "validateStep (current_step pg) pg")
  case (Pair ok pg1)
  then have "same_data pg1 pg" "current_step pg1 = current_step pg" "next_btns pg1 = next_btns pg"
    using same_data_validateStep[of "current_step pg" pg] validateStep_data[of "current_step pg" pg] by simp_all
  with Pair show ?thesis
    by (auto simp: next_click_def showStep_def step_valid_def)
qed

lemma register_submit_facts:
  "same_data (register_submit pg) pg \<and> current_step (register_submit pg) = current_step pg"
proof (cases "validateStep 3 pg")
  case (Pair ok pg1)
  then have "same_data pg1 pg" "current_step pg1 = current_step pg"
    using same_data_validateStep[of 3 pg] validateStep_data[of 3 pg] by simp_all
  with Pair show ?thesis
    by (auto simp: register_submit_def reg_notify_def)
qed

lemma same_data_toggle:
  assumes "layout_ok pg" "j < length (toggles pg)"
  shows "same_data (toggle_click j pg) pg \<and> current_step (toggle_click j pg) = current_step pg"
proof (cases "find (\<lambda>i. f_id (reg_fields pg ! i) = toggles pg ! j) [0..<length (reg_fields pg)]")
  case (Some i)
  then have i: "i < length (reg_fields pg)" and t: "f_id (reg_fields pg ! i) = toggles pg ! j"
    by (auto simp: find_Some_iff)
  have mem: "field_shape (reg_fields pg ! i) \<in> set (map field_shape (reg_fields pg))" using i by simp
  from assms(1) have "\<forall>t \<in> set (toggles pg). \<forall>a \<in> set (map field_shape (reg_fields pg)). fst a = t \<longrightarrow> \<not> fst (snd a)"
    by (simp add: layout_ok_def)
  from bspec[OF bspec[OF this nth_mem[OF assms(2)]] mem] t have "f_type (reg_fields pg ! i) \<noteq> ''email''"
    by (simp add: field_shape_def)
  then have "map field_data ((reg_fields pg)[i := (reg_fields pg ! i)\<lparr>f_type := ty\<rparr>]) = map field_data (reg_fields pg)"
    if "ty = ''text'' \<or> ty = ''password''" for ty
    using that by (intro map_update_same) (auto simp: field_data_def)
  with Some show ?thesis by (simp add: toggle_click_def update_field_def same_data_def)
qed (simp add: toggle_click_def)

lemma inv_next:
  assumes inv: "reg_inv pg" and j: "j < length (next_btns pg)" "fst (next_btns pg ! j) = current_step pg"
  shows "reg_inv (next_click j pg)"
proof (cases "step_valid (current_step pg) pg")
  case True
  have "snd (next_btns pg ! j) = Suc (current_step pg)"
    using inv j nth_mem[OF j(1)] unfolding reg_inv_def layout_ok_def by (metis (mono_tags, lifting) case_prodD prod.collapse)
  moreover have sd: "same_data (next_click j pg) pg" using next_click_facts by blast
  moreover have "layout_ok (next_click j pg)" "\<forall>k. step_valid k (next_click j pg) = step_valid k pg"
    using same_data_eq[OF sd] inv by (simp_all add: reg_inv_def)
  ultimately show ?thesis
    using True inv next_click_facts[of j pg] by (auto simp: reg_inv_def less_Suc_eq)
next
  case False
  then show ?thesis using inv_same[OF inv] next_click_facts[of j pg] by simp
qed

lemma inv_prev:
  assumes inv: "reg_inv pg" and j: "j < length (prev_btns pg)" "fst (prev_btns pg ! j) = current_step pg"
  shows "reg_inv (prev_click j pg)"
proof -
  have "Suc (snd (prev_btns pg ! j)) = current_step pg"
    using inv j nth_mem[OF j(1)] unfolding reg_inv_def layout_ok_def by (metis (mono_tags, lifting) case_prodD prod.collapse)
  moreover have "layout_ok (prev_click j pg)" "\<forall>k. step_valid k (prev_click j pg) = step_valid k pg"
    using inv same_data_eq[of "prev_click j pg" pg] by (simp_all add: reg_inv_def prev_click_def showStep_def)
  ultimately show ?thesis
    using inv by (auto simp: reg_inv_def prev_click_def showStep_def)
qed

lemma inv_submit: "reg_inv pg \<Longrightarrow> reg_inv (register_submit pg)"
  using inv_same register_submit_facts by blast

lemma inv_enter:
  assumes inv: "reg_inv pg" shows "reg_inv (enter_key ta pg)"
proof (cases "\<not> ta \<and> current_step pg < totalSteps")
  case True
  show ?thesis
  proof (cases "find (\<lambda>j. fst (next_btns pg ! j) = current_step pg) [0..<length (next_btns pg)]")
    case (Some j)
    then have "j < length (next_btns pg)" "fst (next_btns pg ! j) = current_step pg"
      by (auto simp: find_Some_iff)
    with True Some show ?thesis by (simp add: enter_key_def inv_next[OF inv])
  qed (use True inv in \<open>simp add: enter_key_def\<close>)
next
  case False
  then have "enter_key ta pg = (if \<not> ta \<and> has_register_form pg then register_submit pg else pg)"
    by (simp only: enter_key_def if_not_P[OF False] if_False)
  then show ?thesis using inv inv_submit[OF inv] by simp
qed

lemma reg_inv_step:
  assumes inv: "reg_inv pg" shows "reg_inv (reg_step pg e)"
proof (cases e)
  case (RegNext j)
  then show ?thesis using inv inv_next by simp
next
  case (RegPrev j)
  then show ?thesis using inv inv_prev by simp
next
  case (RegInput i v)
  then show ?thesis
    using inv inv_edit[OF _ edit_at_field_input] by (simp add: visible_def)
next
  case (RegBlur i)
  then show ?thesis using inv inv_same[OF _ same_data_blur] by (simp add: field_blur_def Let_def update_field_def)
next
  case (RegEnter ta)
  then show ?thesis using inv_enter[OF inv] by simp
next
  case RegSubmit
  then show ?thesis using inv inv_submit[OF inv] by simp
next
  case RegSubmitTimer
  then show ?thesis using inv inv_same[OF inv, of "pg\<lparr>submit_pending := submit_pending pg - 1, submissions := Suc (submissions pg)\<rparr>"]
    by simp
next
  case (RegToggle j)
  have "layout_ok pg" using inv by (simp add: reg_inv_def)
  with RegToggle show ?thesis using inv inv_same[OF inv] same_data_toggle by simp
qed

lemma reg_reachable_inv: "reg_reachable pg \<Longrightarrow> reg_inv pg"
proof (induction rule: reg_reachable.induct)
  case (init pg)
  then show ?case by (simp add: reg_inv_def)
next
  case (step pg e)
  from step.IH show ?case by (rule reg_inv_step)
qed

lemma reg_reachable_run: "reg_reachable pg \<Longrightarrow> reg_reachable (reg_run pg es)"
  by (induction es arbitrary: pg) (simp_all add: reg_reachable.step)

lemma demo_reg_layout: "layout_ok demo_reg"
  by (simp add: layout_ok_def demo_reg_def field_shape_def)

lemma padded_field_fails:
  assumes "f_id f = ''password2''" "f_type f \<noteq> ''email''" "js_trim (f_value f) \<noteq> f_value f"
  shows "\<not> field_ok (Some (f_value f)) f"
  using assms by (simp add: field_ok_def validateField_def Let_def field_error_def field_success_def)

lemma register_submit_invalid:
  "\<not> step_valid 3 pg \<Longrightarrow> form_submitted (register_submit pg) = form_submitted pg"
proof (cases "validateStep 3 pg")
  case (Pair ok pg1)
  assume "\<not> step_valid 3 pg"
  with Pair have ok: "\<not> ok" by (simp add: step_valid_def)
  have fs: "form_submitted pg1 = form_submitted pg"
    using Pair by (auto simp: validateStep_def Let_def split: if_splits)
  show ?thesis by (simp add: register_submit_def Pair ok fs)
qed

section \<open>Properties\<close>

text \<open>C39: on every page the wizard reaches, every step before the current one passes
  \<open>validateStep\<close>: a step is left forward only through its validated \<open>Suivant\<close> (or
  Enter), and edits on the current step cannot invalidate an earlier one.\<close>

theorem steps_validated:
  "reg_reachable pg \<Longrightarrow> \<forall>j \<in> {1..<current_step pg}. step_valid j pg"
  using reg_reachable_inv by (simp add: reg_inv_def)

theorem steps_validated_witness:
  "current_step (reg_run demo_reg [RegInput 0 ''alice'', RegNext 0]) = 2
   \<and> step_valid 1 (reg_run demo_reg [RegInput 0 ''alice'', RegNext 0])"
proof -
  have r: "reg_reachable (reg_run demo_reg [RegInput 0 ''alice'', RegNext 0])"
    by (rule reg_reachable_run, rule reg_reachable.init) (simp_all add: demo_reg_def[symmetric] demo_reg_layout, simp add: demo_reg_def)
  have "current_step (reg_run demo_reg [RegInput 0 ''alice'', RegNext 0]) = 2"
    by (simp add: demo_reg_def visible_def field_input_def update_field_def Let_def next_click_def
        validateStep_def validateField_def field_value_def showStep_def js_trim_def is_js_space_def
        field_error_def field_success_def is_word_char_def is_digit_def is_upper_def is_lower_def)
  with steps_validated[OF r] show ?thesis by simp
qed

text \<open>C40: \<open>validatePasswordConfirmation\<close> compares the trimmed confirmation with the
  untrimmed password, so a password that begins or ends with a blank can never be
  confirmed: the final submission is refused while the two fields hold it.\<close>

theorem padded_password_rejected:
  assumes i: "i < length (reg_fields pg)" and f: "f_id (reg_fields pg ! i) = ''password2''"
    "f_step (reg_fields pg ! i) = 3" "f_required (reg_fields pg ! i)" "f_type (reg_fields pg ! i) \<noteq> ''email''"
    and p: "field_value ''password1'' pg = Some (f_value (reg_fields pg ! i))"
    "js_trim (f_value (reg_fields pg ! i)) \<noteq> f_value (reg_fields pg ! i)"
  shows "form_submitted (reg_step pg RegSubmit) = form_submitted pg"
proof -
  have "\<not> field_ok (field_value ''password1'' pg) (reg_fields pg ! i)"
    using padded_field_fails[of "reg_fields pg ! i"] f p by simp
  then have "\<not> step_valid 3 pg" using i f unfolding step_valid_alt by (meson nth_mem)
  then show ?thesis by (simp add: register_submit_invalid)
qed

theorem padded_password_rejected_witness:
  "\<not> form_submitted (reg_step (demo_reg\<lparr>current_step := 3,
       reg_fields := [\<lparr>f_id = ''password1'', f_type = ''password'', f_required = True, f_value = ''Secret12 '', f_step = 3, f_state = Plain\<rparr>,
                      \<lparr>f_id = ''password2'', f_type = ''password'', f_required = True, f_value = ''Secret12 '', f_step = 3, f_state = Plain\<rparr>]\<rparr>)
     RegSubmit)"
  using padded_password_rejected[of 1 "demo_reg\<lparr>current_step := 3,
       reg_fields := [\<lparr>f_id = ''password1'', f_type = ''password'', f_required = True, f_value = ''Secret12 '', f_step = 3, f_state = Plain\<rparr>,
                      \<lparr>f_id = ''password2'', f_type = ''password'', f_required = True, f_value = ''Secret12 '', f_step = 3, f_state = Plain\<rparr>]\<rparr>"]
  by (simp add: demo_reg_def field_value_def js_trim_def is_js_space_def)

end
