(* ===== verification/Address_Form.thy ===== *)
theory Address_Form
  imports Register
begin

text \<open>
  The address wizard, \<open>accounts/address-form.js\<close>: three steps shown one at a time
  (\<open>currentStep\<close>), \<open>Suivant\<close> buttons that validate the current step, the field rules
  of \<open>validateSpecificField\<close>, real-time validation, the phone filter, the type cards,
  the Enter and Ctrl+S shortcuts, the two \<open>submit\<close> listeners of \<open>#addressForm\<close>
  (\<open>initFormSubmission\<close>, then \<open>initUnsavedChangesWarning\<close>) and the \<open>beforeunload\<close>
  warning that \<open>formModified\<close> drives. The fields reuse the DOM field record of the
  registration wizard; \<open>f_type\<close> is the input's type, or \<open>select\<close> or \<open>textarea\<close> for
  those elements. Lengths are counted in characters of ASCII text.
\<close>

record addr_page =
  a_fields :: "reg_field list"
  a_current :: nat
  form_modified :: bool
  a_step_elems :: "nat list"
  a_next_btns :: "(nat \<times> nat) list"
  a_prev_btns :: "(nat \<times> nat) list"
  a_submit_btn :: "bool option"
  a_pending :: nat
  a_submissions :: nat
  a_notes :: "(string \<times> string) list"
  type_cards :: "bool list"
  a_checked :: "nat option"
  has_address_form :: bool

text \<open>\<open>ASubmitClick\<close> is a click on \<open>.btn-submit\<close> (or the browser's implicit submission),
  which a disabled button does not give; \<open>AKeydown key mod ta\<close> is a key press with
  \<open>ctrlKey || metaKey\<close> and whether the target is a \<open>textarea\<close>.\<close>

datatype addr_event =
    ANext nat | APrev nat | ABlur nat | AInput nat string | AKeydown string bool bool
  | ASubmitClick | ASubmitTimer | ATypeCard nat

definition addr_totalSteps :: nat where
  "addr_totalSteps = 3"

section \<open>Validation\<close>

text \<open>\<open>validateSpecificField(input, value)\<close>: the message of the first rule the trimmed
  value breaks, \<open>None\<close> for \<open>{isValid: true}\<close>.\<close>

definition validateSpecificField :: "string \<Rightarrow> string \<Rightarrow> string option" where
  "validateSpecificField i v =
     (if i = ''full_name'' then
        (if length v < 3 then Some (''Minimum 3 caract'' @ [CHR 0xC3, CHR 0xA8] @ ''res'') else None)
      else if i = ''phone'' then
        (if phone_digits v < 8 then Some (''Num'' @ [CHR 0xC3, CHR 0xA9] @ ''ro invalide (min. 8 chiffres)'') else None)
      else if i = ''address_line1'' then
        (if length v < 5 then Some (''Adresse trop courte (min. 5 caract'' @ [CHR 0xC3, CHR 0xA8] @ ''res)'') else None)
      else if i = ''city'' then
        (if length v < 2 then Some ''Ville invalide'' else None)
      else if i = ''country'' then
        (if v = [] then Some (''Veuillez s'' @ [CHR 0xC3, CHR 0xA9] @ ''lectionner un pays'') else None)
      else None)"

definition addr_validateField :: "reg_field \<Rightarrow> bool \<times> reg_field" where
  "addr_validateField f =
     (let v = js_trim (f_value f)
      in if v = [] \<and> f_required f then field_error ''Ce champ est obligatoire'' f
         else case validateSpecificField (f_id f) v of
                Some m \<Rightarrow> field_error m f
              | None \<Rightarrow> field_success f)"

text \<open>The controls \<open>input[required], select[required]\<close> selects.\<close>

definition required_control :: "reg_field \<Rightarrow> bool" where
  "required_control f \<longleftrightarrow> f_required f \<and> f_type f \<noteq> ''textarea''"

definition addr_validateStep :: "nat \<Rightarrow> addr_page \<Rightarrow> bool \<times> addr_page" where
  "addr_validateStep k pg =
     (if k \<notin> set (a_step_elems pg) then (False, pg)
      else let rs = map (\<lambda>f. if f_step f = k \<and> required_control f then addr_validateField f else (True, f)) (a_fields pg)
           in (list_all fst rs, pg\<lparr>a_fields := map snd rs\<rparr>))"

definition addr_showStep :: "nat \<Rightarrow> addr_page \<Rightarrow> addr_page" where
  "addr_showStep n pg = pg\<lparr>a_current := n\<rparr>"

definition addr_notify :: "string \<Rightarrow> string \<Rightarrow> addr_page \<Rightarrow> addr_page" where
  "addr_notify m t pg = pg\<lparr>a_notes := a_notes pg @ [(m, t)]\<rparr>"

text \<open>The loop of \<open>validateAllSteps\<close> over the steps still to check: the first step that
  fails is shown, with an error notification, and ends the loop.\<close>

fun validate_steps_from :: "nat list \<Rightarrow> addr_page \<Rightarrow> bool \<times> addr_page" where
  "validate_steps_from [] pg = (True, pg)"
| "validate_steps_from (k # ks) pg =
     (let (ok, pg1) = addr_validateStep k pg
      in if ok then validate_steps_from ks pg1
         else (False, addr_notify ''Veuillez remplir tous les champs obligatoires'' ''error'' (addr_showStep k pg1)))"

definition validateAllSteps :: "addr_page \<Rightarrow> bool \<times> addr_page" where
  "validateAllSteps pg = validate_steps_from [1..<Suc addr_totalSteps] pg"

section \<open>Handlers\<close>

definition addr_next_click :: "nat \<Rightarrow> addr_page \<Rightarrow> addr_page" where
  "addr_next_click j pg =
     (let (ok, pg1) = addr_validateStep (a_current pg) pg
      in if ok then addr_showStep (snd (a_next_btns pg ! j)) pg1 else pg1)"

definition addr_prev_click :: "nat \<Rightarrow> addr_page \<Rightarrow> addr_page" where
  "addr_prev_click j pg = addr_showStep (snd (a_prev_btns pg ! j)) pg"

definition addr_update :: "nat \<Rightarrow> reg_field \<Rightarrow> addr_page \<Rightarrow> addr_page" where
  "addr_update i f pg = pg\<lparr>a_fields := (a_fields pg)[i := f]\<rparr>"

text \<open>\<open>initRealTimeValidation\<close> listens on \<open>input\<close> and \<open>select\<close> elements only.\<close>

definition listened :: "reg_field \<Rightarrow> bool" where
  "listened f \<longleftrightarrow> f_type f \<noteq> ''textarea''"

definition addr_blur :: "nat \<Rightarrow> addr_page \<Rightarrow> addr_page" where
  "addr_blur i pg =
     (let f = a_fields pg ! i
      in if listened f \<and> f_value f \<noteq> [] \<and> f_required f then addr_update i (snd (addr_validateField f)) pg else pg)"

text \<open>\<open>document.getElementById('phone')\<close>: the first field with that id.\<close>

definition phone_index :: "addr_page \<Rightarrow> nat option" where
  "phone_index pg = find (\<lambda>i. f_id (a_fields pg ! i) = ''phone'') [0..<length (a_fields pg)]"

text \<open>Typing \<open>v\<close> into field \<open>i\<close>: its own \<open>input\<close> listeners in registration order
  (re-validation of a marked field, then the phone filter; the city suggestion only logs),
  then the form's listener, reached by bubbling, sets \<open>formModified\<close>.\<close>

definition addr_input :: "nat \<Rightarrow> string \<Rightarrow> addr_page \<Rightarrow> addr_page" where
  "addr_input i v pg =
     (let pg0 = addr_update i ((a_fields pg ! i)\<lparr>f_value := v\<rparr>) pg;
          f = a_fields pg0 ! i;
          pg1 = (if listened f \<and> f_state f \<noteq> Plain then addr_update i (snd (addr_validateField f)) pg0 else pg0);
          pg2 = (if phone_index pg1 = Some i
                 then addr_update i ((a_fields pg1 ! i)\<lparr>f_value := phone_filter (f_value (a_fields pg1 ! i))\<rparr>) pg1
                 else pg1)
      in pg2\<lparr>form_modified := True\<rparr>)"

text \<open>The two \<open>submit\<close> listeners of the form, in registration order: the first prevents
  the native submission, validates every step and, when all pass, marks the button
  loading and schedules \<open>form.submit()\<close> in 500 ms; the second clears \<open>formModified\<close>.\<close>

definition addr_submit :: "addr_page \<Rightarrow> addr_page" where
  "addr_submit pg =
     (let (ok, pg1) = validateAllSteps pg;
          pg2 = (if ok then pg1\<lparr>a_submit_btn := map_option (\<lambda>_. True) (a_submit_btn pg1),
                                a_pending := Suc (a_pending pg1)\<rparr> else pg1)
      in pg2\<lparr>form_modified := False\<rparr>)"

definition addr_submit_timer :: "addr_page \<Rightarrow> addr_page" where
  "addr_submit_timer pg =
     (if a_pending pg = 0 then pg
      else pg\<lparr>a_pending := a_pending pg - 1, form_modified := False, a_submissions := Suc (a_submissions pg)\<rparr>)"

text \<open>The \<open>keydown\<close> listener of \<open>initKeyboardShortcuts\<close>: Enter before the last step
  clicks the first \<open>.btn-next\<close> of the current step; Ctrl+S on the last step dispatches
  a \<open>submit\<close> event, which runs both listeners whatever the button's state.\<close>

definition addr_keydown :: "string \<Rightarrow> bool \<Rightarrow> bool \<Rightarrow> addr_page \<Rightarrow> addr_page" where
  "addr_keydown key md ta pg =
     (let pg1 = (if key = ''Enter'' \<and> a_current pg < addr_totalSteps \<and> \<not> ta
                 then (case find (\<lambda>j. fst (a_next_btns pg ! j) = a_current pg) [0..<length (a_next_btns pg)] of
                         None \<Rightarrow> pg
                       | Some j \<Rightarrow> addr_next_click j pg)
                 else pg)
      in if md \<and> key = ''s'' \<and> a_current pg1 = addr_totalSteps then addr_submit pg1 else pg1)"

text \<open>A click on the \<open>k\<close>-th \<open>.type-card\<close>: its radio, when it has one, is checked (and
  the others of the group unchecked).\<close>

definition type_card_click :: "nat \<Rightarrow> addr_page \<Rightarrow> addr_page" where
  "type_card_click k pg = (if type_cards pg ! k then pg\<lparr>a_checked := Some k\<rparr> else pg)"

text \<open>The \<open>beforeunload\<close> listener asks for confirmation exactly when this holds.\<close>

definition leave_warns :: "addr_page \<Rightarrow> bool" where
  "leave_warns pg \<longleftrightarrow> form_modified pg \<and> a_submit_btn pg = Some False"

text \<open>\<open>handleDjangoErrors\<close> at load: each field followed by an \<open>.errorlist\<close> is marked
  invalid with the list's items joined by \<open>, \<close>.\<close>

definition handleDjangoErrors :: "(nat \<times> string list) list \<Rightarrow> addr_page \<Rightarrow> addr_page" where
  "handleDjangoErrors errs pg =
     fold (\<lambda>(i, ms) q. if i < length (a_fields q)
                       then addr_update i ((a_fields q ! i)\<lparr>f_state := InvalidState (js_join '', '' ms)\<rparr>) q else q)
          errs pg"

text \<open>Without \<open>#addressForm\<close> the script returns before attaching any listener.\<close>

fun addr_step :: "addr_page \<Rightarrow> addr_event \<Rightarrow> addr_page" where
  "addr_step pg (ANext j) =
     (if has_address_form pg \<and> j < length (a_next_btns pg) \<and> fst (a_next_btns pg ! j) = a_current pg
      then addr_next_click j pg else pg)"
| "addr_step pg (APrev j) =
     (if has_address_form pg \<and> j < length (a_prev_btns pg) \<and> fst (a_prev_btns pg ! j) = a_current pg
      then addr_prev_click j pg else pg)"
| "addr_step pg (ABlur i) = (if has_address_form pg \<and> i < length (a_fields pg) then addr_blur i pg else pg)"
| "addr_step pg (AInput i v) = (if has_address_form pg \<and> i < length (a_fields pg) then addr_input i v pg else pg)"
| "addr_step pg (AKeydown key md ta) = (if has_address_form pg then addr_keydown key md ta pg else pg)"
| "addr_step pg ASubmitClick =
     (if has_address_form pg \<and> a_submit_btn pg \<noteq> Some True then addr_submit pg else pg)"
| "addr_step pg ASubmitTimer = addr_submit_timer pg"
| "addr_step pg (ATypeCard k) = (if has_address_form pg \<and> k < length (type_cards pg) then type_card_click k pg else pg)"

primrec addr_run :: "addr_page \<Rightarrow> addr_event list \<Rightarrow> addr_page" where
  "addr_run pg [] = pg"
| "addr_run pg (e # es) = addr_run (addr_step pg e) es"

text \<open>A filled address form on its last step.\<close>

definition demo_field :: "string \<Rightarrow> string \<Rightarrow> nat \<Rightarrow> reg_field" where
  "demo_field i v k = \<lparr>f_id = i, f_type = ''text'', f_required = True, f_value = v, f_step = k, f_state = Plain\<rparr>"

definition demo_addr :: addr_page where
  "demo_addr = \<lparr>a_fields = [demo_field ''full_name'' ''Ada Obame'' 1, demo_field ''phone'' ''077 12 34 56'' 1,
       demo_field ''address_line1'' ''12 rue Ngounie'' 2, demo_field ''city'' ''Oyem'' 2,
       (demo_field ''country'' ''Gabon'' 3)\<lparr>f_type := ''select''\<rparr>],
     a_current = 3, form_modified = False, a_step_elems = [1, 2, 3], a_next_btns = [(1, 2), (2, 3)],
     a_prev_btns = [(2, 1), (3, 2)], a_submit_btn = Some False, a_pending = 0, a_submissions = 0,
     a_notes = [], type_cards = [True, True], a_checked = None, has_address_form = True\<rparr>"

text \<open>The verdict of one field and of one step, what they depend on, and what the
  handlers keep of the page apart from the field states, the step shown and the
  notifications.\<close>

definition addr_field_ok :: "reg_field \<Rightarrow> bool" where
  "addr_field_ok f = fst (addr_validateField f)"

definition addr_step_ok :: "nat \<Rightarrow> addr_page \<Rightarrow> bool" where
  "addr_step_ok k pg = fst (addr_validateStep k pg)"

definition addr_data :: "reg_field \<Rightarrow> string \<times> string \<times> bool \<times> string \<times> nat" where
  "addr_data f = (f_id f, f_type f, f_required f, f_value f, f_step f)"

definition addr_view where
  "addr_view pg = (map addr_data (a_fields pg), a_step_elems pg, a_next_btns pg, a_prev_btns pg,
     a_submit_btn pg, a_pending pg, a_submissions pg, form_modified pg, type_cards pg, a_checked pg,
     has_address_form pg)"

text \<open>The characters the phone filter keeps, and the type of the phone field's value.\<close>

definition phone_char :: "char \<Rightarrow> bool" where
  "phone_char c \<longleftrightarrow> is_digit c \<or> is_js_space c \<or> c \<in> set ''+-()''"

definition phone_ok :: "addr_page \<Rightarrow> bool" where
  "phone_ok pg \<longleftrightarrow>
     (case phone_index pg of None \<Rightarrow> True | Some i \<Rightarrow> list_all phone_char (f_value (a_fields pg ! i)))"

text \<open>The pages reached from a loaded page (the server's errors marked by
  \<open>handleDjangoErrors\<close>) whose phone field holds a filtered value.\<close>

inductive addr_reachable :: "addr_page \<Rightarrow> bool" where
  init: "phone_ok pg \<Longrightarrow> addr_reachable (handleDjangoErrors errs pg)"
| step: "addr_reachable pg \<Longrightarrow> addr_reachable (addr_step pg e)"

text \<open>\<open>updateProgressIndicators\<close>: the class of the progress marker numbered \<open>k\<close> when
  step \<open>n\<close> is shown.\<close>

definition progress_class :: "nat \<Rightarrow> nat \<Rightarrow> string" where
  "progress_class n k = (if k < n then ''completed'' else if k = n then ''active'' else [])"

text \<open>\<open>CONFIG.gabonCities\<close> and the suggestion \<open>initAutoCompletion\<close> computes (and only
  logs) for the text typed in \<open>#city\<close> when \<open>#country\<close> is Gabon.\<close>

definition gabonCities :: "string list" where
  "gabonCities = [''Libreville'', ''Port-Gentil'', ''Franceville'', ''Oyem'', ''Moanda'', ''Mouila'',
     ''Lambar'' @ [CHR 0xC3, CHR 0xA9] @ ''n'' @ [CHR 0xC3, CHR 0xA9], ''Tchibanga'']"

definition city_suggestion :: "string \<Rightarrow> string \<Rightarrow> string option" where
  "city_suggestion country v =
     (let w = js_to_lower v
      in if country = ''Gabon'' \<and> 2 \<le> length w
         then (case filter (\<lambda>c. take (length w) (js_to_lower c) = w) gabonCities of
                 [] \<Rightarrow> None
               | m # _ \<Rightarrow> if js_to_lower m \<noteq> w then Some m else None)
         else None)"

text \<open>The same form after the user shortened the name to two letters.\<close>

definition demo_addr_short :: addr_page where
  "demo_addr_short = demo_addr\<lparr>a_fields := (a_fields demo_addr)[0 := demo_field ''full_name'' ''Ad'' 1],
     form_modified := True\<rparr>"

text \<open>The notification a failed \<open>validateAllSteps\<close> adds.\<close>

definition steps_error :: "(string \<times> string) list" where
  "steps_error = [(''Veuillez remplir tous les champs obligatoires'', ''error'')]"

section \<open>Lemmas\<close>

lemma snd_addr_validateField:
  "snd (addr_validateField f) = f\<lparr>f_state := f_state (snd (addr_validateField f))\<rparr>"
  unfolding addr_validateField_def Let_def field_error_def field_success_def
  by (simp split: if_split option.split)

lemma addr_data_state [simp]: "addr_data (f\<lparr>f_state := s\<rparr>) = addr_data f"
  by (simp add: addr_data_def)

lemma addr_data_validate [simp]: "addr_data (snd (addr_validateField f)) = addr_data f"
  by (subst snd_addr_validateField) (simp only: addr_data_state)

lemma addr_field_ok_data: "addr_data f = addr_data g \<Longrightarrow> addr_field_ok f = addr_field_ok g"
  by (simp add: addr_data_def addr_field_ok_def addr_validateField_def Let_def field_error_def
      field_success_def split: option.split)

lemma addr_data_eqD:
  "addr_data f = addr_data g \<Longrightarrow> f_id f = f_id g \<and> f_value f = f_value g \<and> f_step f = f_step g \<and>
     required_control f = required_control g \<and> listened f = listened g"
  by (simp add: addr_data_def required_control_def listened_def)

lemma addr_step_ok_alt:
  "addr_step_ok k pg \<longleftrightarrow> k \<in> set (a_step_elems pg) \<and>
     (\<forall>f \<in> set (a_fields pg). f_step f = k \<and> required_control f \<longrightarrow> addr_field_ok f)"
  by (auto simp: addr_step_ok_def addr_validateStep_def Let_def addr_field_ok_def list_all_iff)

lemma addr_validateStep_frame:
  "snd (addr_validateStep k pg) = pg\<lparr>a_fields := a_fields (snd (addr_validateStep k pg))\<rparr>"
  by (simp add: addr_validateStep_def Let_def)

lemma map_addr_data_validate:
  "map addr_data (map snd (map (\<lambda>f. if P f then addr_validateField f else (True, f)) xs)) = map addr_data xs"
  by (induction xs) simp_all

lemma addr_data_validateStep [simp]:
  "map addr_data (a_fields (snd (addr_validateStep k pg))) = map addr_data (a_fields pg)"
  by (simp add: addr_validateStep_def Let_def map_addr_data_validate del: map_map)

lemma required_fields_ok_data:
  "map addr_data xs = map addr_data ys \<Longrightarrow>
   (\<forall>f \<in> set xs. f_step f = k \<and> required_control f \<longrightarrow> addr_field_ok f) =
   (\<forall>f \<in> set ys. f_step f = k \<and> required_control f \<longrightarrow> addr_field_ok f)"
proof (induction xs arbitrary: ys)
  case (Cons a xs)
  from Cons.prems obtain b ys' where ys: "ys = b # ys'" and ab: "addr_data a = addr_data b"
    and rest: "map addr_data xs = map addr_data ys'" by (cases ys) simp_all
  have "(f_step a = k \<and> required_control a \<longrightarrow> addr_field_ok a) =
        (f_step b = k \<and> required_control b \<longrightarrow> addr_field_ok b)"
    using addr_data_eqD[OF ab] addr_field_ok_data[OF ab] by simp
  then show ?case using Cons.IH[OF rest] ys by simp
qed simp

lemma addr_step_ok_data:
  assumes "map addr_data (a_fields q) = map addr_data (a_fields pg)" "a_step_elems q = a_step_elems pg"
  shows "addr_step_ok k q = addr_step_ok k pg"
  unfolding addr_step_ok_alt assms(2) required_fields_ok_data[OF assms(1)] ..

lemma addr_step_ok_view: "addr_view q = addr_view pg \<Longrightarrow> addr_step_ok k q = addr_step_ok k pg"
  by (rule addr_step_ok_data) (simp_all add: addr_view_def)

lemma addr_notify_showStep [simp]:
  "a_current (addr_showStep n q) = n" "a_notes (addr_showStep n q) = a_notes q"
  "a_current (addr_notify m t q) = a_current q" "a_notes (addr_notify m t q) = a_notes q @ [(m, t)]"
  by (simp_all add: addr_showStep_def addr_notify_def)

lemma addr_view_frame [simp]:
  "addr_view (snd (addr_validateStep k pg)) = addr_view pg"
  "addr_view (addr_showStep n pg) = addr_view pg"
  "addr_view (addr_notify m t pg) = addr_view pg"
  by (subst addr_validateStep_frame, simp add: addr_view_def)
     (simp_all add: addr_view_def addr_showStep_def addr_notify_def)

text \<open>What the loop of \<open>validateAllSteps\<close> computes: the verdict is the conjunction of
  the steps' verdicts; on success the step shown and the notifications are kept, on
  failure the first failing step is shown with one error notification.\<close>

lemma validate_steps_from_pass:
  "addr_step_ok k pg \<Longrightarrow> validate_steps_from (k # ks) pg = validate_steps_from ks (snd (addr_validateStep k pg))"
  unfolding addr_step_ok_def by (simp only: validate_steps_from.simps Let_def case_prod_beta if_True)

lemma validate_steps_from_fail:
  "\<not> addr_step_ok k pg \<Longrightarrow> validate_steps_from (k # ks) pg =
     (False, addr_notify ''Veuillez remplir tous les champs obligatoires'' ''error'' (addr_showStep k (snd (addr_validateStep k pg))))"
  unfolding addr_step_ok_def by (simp only: validate_steps_from.simps Let_def case_prod_beta if_False)

lemma validate_steps_from_facts:
  "addr_view (snd (validate_steps_from ks pg)) = addr_view pg \<and>
   fst (validate_steps_from ks pg) = list_all (\<lambda>k. addr_step_ok k pg) ks \<and>
   (if fst (validate_steps_from ks pg)
    then a_current (snd (validate_steps_from ks pg)) = a_current pg \<and>
         a_notes (snd (validate_steps_from ks pg)) = a_notes pg
    else a_current (snd (validate_steps_from ks pg)) = hd (filter (\<lambda>k. \<not> addr_step_ok k pg) ks) \<and>
         a_notes (snd (validate_steps_from ks pg)) = a_notes pg @ steps_error)"
proof (induction ks arbitrary: pg)
  case (Cons k ks)
  let ?pg1 = "snd (addr_validateStep k pg)"
  have v: "addr_view ?pg1 = addr_view pg" by simp
  have cur: "a_current ?pg1 = a_current pg" "a_notes ?pg1 = a_notes pg"
    by (subst addr_validateStep_frame, simp)+
  have ok: "addr_step_ok j ?pg1 = addr_step_ok j pg" for j by (rule addr_step_ok_view[OF v])
  show ?case
  proof (cases "addr_step_ok k pg")
    case True
    show ?thesis unfolding validate_steps_from_pass[OF True]
      using Cons.IH[of ?pg1] True by (simp add: v cur ok)
  next
    case False
    show ?thesis unfolding validate_steps_from_fail[OF False]
      using False cur by (simp add: steps_error_def)
  qed
qed simp

text \<open>In a sorted list the first element that fails a test is preceded only by
  elements that pass it.\<close>

lemma first_failing:
  assumes "\<not> list_all P ks" "sorted ks"
  shows "hd (filter (\<lambda>k. \<not> P k) ks) \<in> set ks \<and> \<not> P (hd (filter (\<lambda>k. \<not> P k) ks)) \<and>
         (\<forall>j \<in> set ks. j < hd (filter (\<lambda>k. \<not> P k) ks) \<longrightarrow> P j)"
  using assms
proof (induction ks)
  case (Cons k ks)
  show ?case
  proof (cases "P k")
    case True
    with Cons.prems have "\<not> list_all P ks" "sorted ks" by simp_all
    note IH = Cons.IH[OF this]
    have h: "hd (filter (\<lambda>k. \<not> P k) (k # ks)) = hd (filter (\<lambda>k. \<not> P k) ks)" using True by simp
    have "\<forall>j \<in> set (k # ks). j < hd (filter (\<lambda>k. \<not> P k) ks) \<longrightarrow> P j"
      using IH True by (simp only: list.set ball_simps insert_iff) blast
    then show ?thesis unfolding h using IH by simp
  next
    case False
    have "\<forall>j \<in> set ks. k \<le> j" using Cons.prems(2) by simp
    then have "\<forall>j \<in> set (k # ks). j < k \<longrightarrow> P j" by (auto simp: not_less)
    then show ?thesis using False by simp
  qed
qed simp

lemma validateAllSteps_facts:
  "addr_view (snd (validateAllSteps pg)) = addr_view pg \<and>
   fst (validateAllSteps pg) = (\<forall>k \<in> {1..addr_totalSteps}. addr_step_ok k pg) \<and>
   (if fst (validateAllSteps pg)
    then a_current (snd (validateAllSteps pg)) = a_current pg \<and> a_notes (snd (validateAllSteps pg)) = a_notes pg
    else a_current (snd (validateAllSteps pg)) = hd (filter (\<lambda>k. \<not> addr_step_ok k pg) [1..<Suc addr_totalSteps]) \<and>
         a_notes (snd (validateAllSteps pg)) = a_notes pg @ steps_error)"
proof -
  define ks where "ks = [1..<Suc addr_totalSteps]"
  have s: "set ks = {1..addr_totalSteps}" by (auto simp: ks_def)
  from validate_steps_from_facts[of ks pg] show ?thesis
    unfolding validateAllSteps_def ks_def[symmetric] list_all_iff s .
qed

lemma validateAllSteps_view [simp]: "addr_view (snd (validateAllSteps pg)) = addr_view pg"
  using validateAllSteps_facts by blast

lemma validateAllSteps_ok_current:
  "fst (validateAllSteps pg) \<Longrightarrow> a_current (snd (validateAllSteps pg)) = a_current pg"
  using validateAllSteps_facts[of pg] by simp

lemma addr_view_parts:
  assumes "addr_view q = addr_view pg"
  shows "map addr_data (a_fields q) = map addr_data (a_fields pg)" "a_step_elems q = a_step_elems pg"
    "a_next_btns q = a_next_btns pg" "a_submit_btn q = a_submit_btn pg" "a_pending q = a_pending pg"
    "a_submissions q = a_submissions pg" "form_modified q = form_modified pg"
    "has_address_form q = has_address_form pg"
  using assms by (simp_all add: addr_view_def)

text \<open>The two outcomes of the form's \<open>submit\<close> listeners.\<close>

lemma addr_submit_fail:
  "\<not> fst (validateAllSteps pg) \<Longrightarrow> addr_submit pg = (snd (validateAllSteps pg))\<lparr>form_modified := False\<rparr>"
  by (simp add: addr_submit_def case_prod_beta)

lemma addr_submit_ok:
  "fst (validateAllSteps pg) \<Longrightarrow> addr_submit pg = (snd (validateAllSteps pg))\<lparr>
     a_submit_btn := map_option (\<lambda>_. True) (a_submit_btn pg), a_pending := Suc (a_pending pg), form_modified := False\<rparr>"
  using addr_view_parts[OF validateAllSteps_view[of pg]]
  by (simp add: addr_submit_def case_prod_beta)

section \<open>The data a handler keeps\<close>

lemma map_addr_data_nth:
  "map addr_data xs = map addr_data ys \<Longrightarrow> i < length xs \<Longrightarrow> addr_data (xs ! i) = addr_data (ys ! i)"
  by (metis length_map nth_map)

lemma addr_data_update:
  "addr_data g = addr_data (a_fields pg ! i) \<Longrightarrow> map addr_data (a_fields (addr_update i g pg)) = map addr_data (a_fields pg)"
  by (simp add: addr_update_def map_update_same)

lemma addr_data_next: "map addr_data (a_fields (addr_next_click j pg)) = map addr_data (a_fields pg)"
  by (simp add: addr_next_click_def case_prod_beta addr_showStep_def)

lemma addr_data_submit: "map addr_data (a_fields (addr_submit pg)) = map addr_data (a_fields pg)"
proof (cases "fst (validateAllSteps pg)")
  case True
  then show ?thesis using addr_view_parts(1)[OF validateAllSteps_view] by (simp add: addr_submit_ok)
next
  case False
  then show ?thesis using addr_view_parts(1)[OF validateAllSteps_view] by (simp add: addr_submit_fail)
qed

lemma addr_data_keydown: "map addr_data (a_fields (addr_keydown key md ta pg)) = map addr_data (a_fields pg)"
  by (simp add: addr_keydown_def Let_def addr_data_next addr_data_submit split: option.split)

lemma addr_data_blur: "map addr_data (a_fields (addr_blur i pg)) = map addr_data (a_fields pg)"
  by (simp add: addr_blur_def Let_def addr_data_update)

lemma addr_data_step:
  "\<forall>i v. e \<noteq> AInput i v \<Longrightarrow> map addr_data (a_fields (addr_step pg e)) = map addr_data (a_fields pg)"
  by (cases e) (simp_all add: addr_data_next addr_prev_click_def addr_showStep_def addr_data_blur addr_data_keydown
      addr_data_submit addr_submit_timer_def type_card_click_def)

lemma addr_data_django: "map addr_data (a_fields (handleDjangoErrors errs pg)) = map addr_data (a_fields pg)"
proof (induction errs arbitrary: pg)
  case (Cons e errs)
  obtain i ms where e: "e = (i, ms)" by (cases e)
  show ?case using Cons.IH by (simp add: handleDjangoErrors_def e addr_data_update)
qed (simp add: handleDjangoErrors_def)

section \<open>The phone field holds filtered text\<close>

lemma phone_index_ids:
  assumes "map f_id (a_fields q) = map f_id (a_fields pg)"
  shows "phone_index q = phone_index pg"
proof -
  have len: "length (a_fields q) = length (a_fields pg)" using map_eq_imp_length_eq[OF assms] .
  have "f_id (a_fields q ! i) = f_id (a_fields pg ! i)" if "i < length (a_fields pg)" for i
    using assms that len by (metis nth_map)
  then show ?thesis unfolding phone_index_def len by (intro find_cong) simp_all
qed

lemma ids_of_data: "map addr_data xs = map addr_data ys \<Longrightarrow> map f_id xs = map f_id ys"
proof -
  have "map f_id xs = map fst (map addr_data xs)" for xs by (simp add: addr_data_def)
  then show "map addr_data xs = map addr_data ys \<Longrightarrow> map f_id xs = map f_id ys" by metis
qed

lemma phone_ok_data:
  assumes d: "map addr_data (a_fields q) = map addr_data (a_fields pg)"
  shows "phone_ok q = phone_ok pg"
proof (cases "phone_index pg")
  case (Some i)
  have "i < length (a_fields pg)" using Some by (auto simp: phone_index_def find_Some_iff)
  then have "addr_data (a_fields q ! i) = addr_data (a_fields pg ! i)"
    using map_addr_data_nth[OF d] map_eq_imp_length_eq[OF d] by simp
  then have v: "f_value (a_fields q ! i) = f_value (a_fields pg ! i)" by (simp add: addr_data_def)
  have pi: "phone_index q = Some i" using Some phone_index_ids[OF ids_of_data[OF d]] by simp
  show ?thesis by (simp add: phone_ok_def pi Some v)
qed (simp add: phone_ok_def phone_index_ids[OF ids_of_data[OF d]])

lemma phone_filter_chars: "list_all phone_char (phone_filter v)"
  by (simp add: phone_filter_def phone_char_def list_all_iff)

lemma phone_ok_modified [simp]: "phone_ok (q\<lparr>form_modified := b\<rparr>) = phone_ok q"
  by (simp add: phone_ok_def phone_index_def split: option.split)

lemma ids_update:
  "f_id g = f_id (a_fields pg ! i) \<Longrightarrow> map f_id (a_fields (addr_update i g pg)) = map f_id (a_fields pg)"
  by (simp add: addr_update_def map_update_same)

lemma f_id_validate [simp]: "f_id (snd (addr_validateField f)) = f_id f"
  by (subst snd_addr_validateField) simp

lemma phone_ok_input:
  assumes i: "i < length (a_fields pg)" and ok: "phone_ok pg"
  shows "phone_ok (addr_input i v pg)"
proof -
  define pg0 where "pg0 = addr_update i ((a_fields pg ! i)\<lparr>f_value := v\<rparr>) pg"
  define pg1 where "pg1 = (if listened (a_fields pg0 ! i) \<and> f_state (a_fields pg0 ! i) \<noteq> Plain
    then addr_update i (snd (addr_validateField (a_fields pg0 ! i))) pg0 else pg0)"
  have unf: "addr_input i v pg = (if phone_index pg1 = Some i
      then addr_update i ((a_fields pg1 ! i)\<lparr>f_value := phone_filter (f_value (a_fields pg1 ! i))\<rparr>) pg1
      else pg1)\<lparr>form_modified := True\<rparr>"
    by (simp add: addr_input_def Let_def pg0_def pg1_def)
  have len0: "length (a_fields pg0) = length (a_fields pg)" by (simp add: pg0_def addr_update_def)
  have len1: "length (a_fields pg1) = length (a_fields pg)" by (simp add: pg1_def len0 addr_update_def)
  have ids0: "map f_id (a_fields pg0) = map f_id (a_fields pg)" unfolding pg0_def by (rule ids_update) simp
  have "map f_id (a_fields pg1) = map f_id (a_fields pg0)" unfolding pg1_def by (simp add: ids_update)
  then have pidx: "phone_index pg1 = phone_index pg" using ids0 phone_index_ids[of pg1 pg] by simp
  have oth: "a_fields pg1 ! j = a_fields pg ! j" if "j \<noteq> i" for j
    using that by (simp add: pg1_def pg0_def addr_update_def)
  show ?thesis
  proof (cases "phone_index pg1 = Some i")
    case True
    let ?q = "addr_update i ((a_fields pg1 ! i)\<lparr>f_value := phone_filter (f_value (a_fields pg1 ! i))\<rparr>) pg1"
    have "map f_id (a_fields ?q) = map f_id (a_fields pg1)" by (rule ids_update) simp
    then have "phone_index ?q = Some i" using True phone_index_ids[of ?q pg1] by simp
    moreover have "f_value (a_fields ?q ! i) = phone_filter (f_value (a_fields pg1 ! i))"
      using i len1 by (simp add: addr_update_def)
    ultimately have "phone_ok ?q" by (simp add: phone_ok_def phone_filter_chars)
    then show ?thesis unfolding unf using True by simp
  next
    case False
    have "phone_ok pg1"
    proof (cases "phone_index pg")
      case (Some j)
      then have "j \<noteq> i" using False pidx by simp
      then show ?thesis using ok Some pidx oth[of j] by (simp add: phone_ok_def)
    qed (simp add: phone_ok_def pidx)
    then show ?thesis unfolding unf using False by simp
  qed
qed

lemma phone_ok_step: "phone_ok pg \<Longrightarrow> phone_ok (addr_step pg e)"
proof (cases "\<exists>i v. e = AInput i v")
  case True
  then obtain i v where e: "e = AInput i v" by blast
  show "phone_ok pg \<Longrightarrow> phone_ok (addr_step pg e)" unfolding e using phone_ok_input[of i pg v] by simp
next
  case False
  then have "map addr_data (a_fields (addr_step pg e)) = map addr_data (a_fields pg)" by (simp add: addr_data_step)
  then show "phone_ok pg \<Longrightarrow> phone_ok (addr_step pg e)" using phone_ok_data by blast
qed

lemma addr_submit_ok_facts:
  assumes "fst (validateAllSteps pg)"
  shows "a_pending (addr_submit pg) = Suc (a_pending pg) \<and> a_submissions (addr_submit pg) = a_submissions pg \<and>
    a_current (addr_submit pg) = a_current pg \<and> has_address_form (addr_submit pg) = has_address_form pg \<and>
    map addr_data (a_fields (addr_submit pg)) = map addr_data (a_fields pg) \<and>
    a_step_elems (addr_submit pg) = a_step_elems pg"
  using addr_view_parts[OF validateAllSteps_view[of pg]] validateAllSteps_ok_current[OF assms]
  by (simp add: addr_submit_ok[OF assms])

lemma validateAllSteps_data:
  assumes "map addr_data (a_fields q) = map addr_data (a_fields pg)" "a_step_elems q = a_step_elems pg"
  shows "fst (validateAllSteps q) = fst (validateAllSteps pg)"
  using validateAllSteps_facts[of q] validateAllSteps_facts[of pg] addr_step_ok_data[OF assms] by simp

lemma ctrl_s_keydown: "addr_keydown ''s'' True False pg = (if a_current pg = addr_totalSteps then addr_submit pg else pg)"
  by (simp add: addr_keydown_def)

lemma addr_submit_timer_pending:
  "0 < a_pending pg \<Longrightarrow> a_submissions (addr_submit_timer pg) = Suc (a_submissions pg) \<and>
     a_pending (addr_submit_timer pg) = a_pending pg - 1"
  by (simp add: addr_submit_timer_def)

text \<open>C8: \<open>validateAllSteps\<close> succeeds exactly when every step 1..3 passes
  \<open>validateStep\<close>; it changes no value, button or flag of the page; on success the step
  shown stays, on failure the step shown is the first failing one, every earlier step
  passes, and one error notification is added.\<close>

theorem validateAllSteps_first_invalid:
  assumes v: "validateAllSteps pg = (ok, q)"
  shows "(ok \<longleftrightarrow> (\<forall>k \<in> {1..addr_totalSteps}. addr_step_ok k pg)) \<and> addr_view q = addr_view pg \<and>
    (if ok then a_current q = a_current pg \<and> a_notes q = a_notes pg
     else a_current q \<in> {1..addr_totalSteps} \<and> \<not> addr_step_ok (a_current q) pg \<and>
          (\<forall>j \<in> {1..<a_current q}. addr_step_ok j pg) \<and> a_notes q = a_notes pg @ steps_error)"
proof -
  note F = validateAllSteps_facts[of pg, unfolded v prod.sel]
  note F1 = F[THEN conjunct1] and F2 = F[THEN conjunct2, THEN conjunct1]
    and F3 = F[THEN conjunct2, THEN conjunct2]
  show ?thesis
  proof (cases ok)
    case True
    have "a_current q = a_current pg \<and> a_notes q = a_notes pg" using F3 unfolding if_P[OF True] .
    then show ?thesis using F1 F2 True by simp
  next
    case False
    define ks where "ks = [1..<Suc addr_totalSteps]"
    have s: "set ks = {1..addr_totalSteps}" by (auto simp: ks_def)
    have F3': "a_current q = hd (filter (\<lambda>k. \<not> addr_step_ok k pg) ks) \<and> a_notes q = a_notes pg @ steps_error"
      using F3 unfolding if_not_P[OF False] ks_def .
    have "\<not> list_all (\<lambda>k. addr_step_ok k pg) ks" using F2 False unfolding list_all_iff s by blast
    moreover have "sorted ks" by (simp only: ks_def sorted_upt)
    ultimately have ff:
      "a_current q \<in> set ks" "\<not> addr_step_ok (a_current q) pg"
      "\<forall>j \<in> set ks. j < a_current q \<longrightarrow> addr_step_ok j pg"
      using first_failing[of "\<lambda>k. addr_step_ok k pg" ks] F3' by simp_all
    have "\<forall>j \<in> {1..<a_current q}. addr_step_ok j pg" using ff(1,3) unfolding s by auto
    moreover have "a_current q \<in> {1..addr_totalSteps}" using ff(1) unfolding s .
    ultimately show ?thesis unfolding if_not_P[OF False] using F1 F2 F3'[THEN conjunct2] ff(2)
      by blast
  qed
qed

theorem validateAllSteps_first_invalid_witness:
  "a_current (snd (validateAllSteps demo_addr_short)) = 1 \<and>
   a_notes (snd (validateAllSteps demo_addr_short)) = steps_error"
proof -
  have f: "\<not> fst (validateAllSteps demo_addr_short)"
    by (simp add: validateAllSteps_def upt_rec demo_addr_short_def demo_addr_def demo_field_def addr_totalSteps_def
        addr_validateStep_def required_control_def addr_validateField_def Let_def validateSpecificField_def
        js_trim_def is_js_space_def field_error_def field_success_def)
  have "validateAllSteps demo_addr_short = (False, snd (validateAllSteps demo_addr_short))"
    using f by (metis prod.collapse)
  from validateAllSteps_first_invalid[OF this] have c:
    "a_current (snd (validateAllSteps demo_addr_short)) \<in> {1..addr_totalSteps}"
    "\<forall>j \<in> {1..<a_current (snd (validateAllSteps demo_addr_short))}. addr_step_ok j demo_addr_short"
    "a_notes (snd (validateAllSteps demo_addr_short)) = a_notes demo_addr_short @ steps_error"
    by simp_all
  have n1: "\<not> addr_step_ok 1 demo_addr_short"
    by (simp add: addr_step_ok_def demo_addr_short_def demo_addr_def demo_field_def
        addr_validateStep_def required_control_def addr_validateField_def Let_def validateSpecificField_def
        js_trim_def is_js_space_def field_error_def field_success_def)
  have "a_notes demo_addr_short = []" by (simp add: demo_addr_short_def demo_addr_def)
  moreover have "a_current (snd (validateAllSteps demo_addr_short)) = 1"
  proof (rule ccontr)
    assume "a_current (snd (validateAllSteps demo_addr_short)) \<noteq> 1"
    then have "1 \<in> {1..<a_current (snd (validateAllSteps demo_addr_short))}" using c(1) by simp
    then show False using c(2) n1 by blast
  qed
  ultimately show ?thesis using c(3) by simp
qed

text \<open>C12: when the form has unsaved input and a submission fails validation, nothing is
  sent and the values typed stay, but the second \<open>submit\<close> listener has already cleared
  \<open>formModified\<close>: leaving the page no longer asks for confirmation.\<close>

theorem failed_submit_drops_warning:
  assumes "has_address_form pg" "a_submit_btn pg = Some False" "form_modified pg"
    and bad: "\<not> fst (validateAllSteps pg)"
  shows "leave_warns pg \<and> \<not> leave_warns (addr_step pg ASubmitClick) \<and>
    a_pending (addr_step pg ASubmitClick) = a_pending pg \<and>
    a_submissions (addr_step pg ASubmitClick) = a_submissions pg \<and>
    map addr_data (a_fields (addr_step pg ASubmitClick)) = map addr_data (a_fields pg)"
proof -
  have st: "addr_step pg ASubmitClick = (snd (validateAllSteps pg))\<lparr>form_modified := False\<rparr>"
    using assms(1,2) by (simp add: addr_submit_fail[OF bad])
  note V = addr_view_parts[OF validateAllSteps_view[of pg]]
  show ?thesis unfolding st using assms(2,3) V(1,5,6) by (simp add: leave_warns_def)
qed

theorem failed_submit_drops_warning_witness:
  "leave_warns demo_addr_short \<and> \<not> leave_warns (addr_step demo_addr_short ASubmitClick) \<and>
   a_submissions (addr_step demo_addr_short ASubmitClick) = 0"
proof -
  have h: "has_address_form demo_addr_short" "a_submit_btn demo_addr_short = Some False"
    "form_modified demo_addr_short" "a_submissions demo_addr_short = 0"
    by (simp_all add: demo_addr_short_def demo_addr_def)
  have f: "\<not> fst (validateAllSteps demo_addr_short)"
    by (simp add: validateAllSteps_def upt_rec demo_addr_short_def demo_addr_def demo_field_def addr_totalSteps_def
        addr_validateStep_def required_control_def addr_validateField_def Let_def validateSpecificField_def
        js_trim_def is_js_space_def field_error_def field_success_def)
  show ?thesis using failed_submit_drops_warning[OF h(1-3) f] h(4) by simp
qed

text \<open>C18: on the last step of a valid form, pressing Ctrl+S twice before the 500 ms
  timer fires schedules two \<open>form.submit()\<close> calls: the dispatched \<open>submit\<close> event is not
  stopped by the disabled button, and the listener has no guard of its own.\<close>

theorem ctrl_s_submits_twice:
  assumes h: "has_address_form pg" "a_current pg = addr_totalSteps" and ok: "fst (validateAllSteps pg)"
  shows "a_submissions (addr_run pg [AKeydown ''s'' True False, AKeydown ''s'' True False, ASubmitTimer, ASubmitTimer])
    = a_submissions pg + 2"
proof -
  let ?q1 = "addr_submit pg"
  note S1 = addr_submit_ok_facts[OF ok]
  have ok1: "fst (validateAllSteps ?q1)" using ok validateAllSteps_data[of ?q1 pg] S1 by simp
  note S2 = addr_submit_ok_facts[OF ok1]
  have r1: "addr_step pg (AKeydown ''s'' True False) = ?q1" using h by (simp add: ctrl_s_keydown)
  have r2: "addr_step ?q1 (AKeydown ''s'' True False) = addr_submit ?q1" using h S1 by (simp add: ctrl_s_keydown)
  let ?q2 = "addr_submit ?q1"
  have p2: "a_pending ?q2 = Suc (Suc (a_pending pg))" "a_submissions ?q2 = a_submissions pg"
    using S1 S2 by simp_all
  have "a_submissions (addr_submit_timer (addr_submit_timer ?q2)) = Suc (Suc (a_submissions ?q2))"
    using addr_submit_timer_pending[of ?q2] addr_submit_timer_pending[of "addr_submit_timer ?q2"] p2(1) by simp
  then show ?thesis using r1 r2 p2(2) by simp
qed

theorem ctrl_s_submits_twice_witness:
  "a_submissions (addr_run demo_addr [AKeydown ''s'' True False, AKeydown ''s'' True False, ASubmitTimer, ASubmitTimer]) = 2"
proof -
  have h: "has_address_form demo_addr" "a_current demo_addr = addr_totalSteps" "a_submissions demo_addr = 0"
    by (simp_all add: demo_addr_def addr_totalSteps_def)
  have ok: "fst (validateAllSteps demo_addr)"
    by (simp add: validateAllSteps_def upt_rec demo_addr_def demo_field_def addr_totalSteps_def
        addr_validateStep_def required_control_def addr_validateField_def Let_def validateSpecificField_def
        js_trim_def is_js_space_def field_error_def field_success_def phone_digits_def digits_only_def is_digit_def)
  show ?thesis using ctrl_s_submits_twice[OF h(1,2) ok] h(3) by simp
qed

text \<open>C26: on every page reached from a loaded form whose phone field holds filtered
  text, \<open>#phone\<close> (the first field with that id) holds only digits, blanks and
  \<open>+-()\<close>: typing runs the filter, and no other handler changes a value.\<close>

theorem phone_value_filtered: "addr_reachable pg \<Longrightarrow> phone_ok pg"
proof (induction rule: addr_reachable.induct)
  case (init pg errs)
  then show ?case using phone_ok_data[OF addr_data_django] by simp
next
  case (step pg e)
  then show ?case by (simp add: phone_ok_step)
qed

theorem phone_value_filtered_witness:
  "phone_ok (addr_step (handleDjangoErrors [(0, [''Nom requis''])] demo_addr) (AInput 1 ''077-12 ab''))"
proof -
  have "phone_ok demo_addr"
    by (simp add: phone_ok_def phone_index_def demo_addr_def demo_field_def phone_char_def is_digit_def
        is_js_space_def)
  then have "addr_reachable (addr_step (handleDjangoErrors [(0, [''Nom requis''])] demo_addr) (AInput 1 ''077-12 ab''))"
    by (intro addr_reachable.step addr_reachable.init)
  then show ?thesis by (rule phone_value_filtered)
qed

end
